(* ===== verification/Prelude.thy ===== *)
theory Prelude
  imports Complex_Main "HOL-Library.Word" "HOL-Library.Monad_Syntax" "HOL-Library.AList"
    "HOL-Library.Code_Target_Numeral"
begin

text \<open>
  What every theory of the development shares: the machine types of the Go
  program, the outcome type of a Go call (a value, a panic, or no return at
  all), checked indexing, 64-bit signed wrap-around, Go maps as association
  lists behind an interface, and the generic lemmas on them.
\<close>

section \<open>Machine types\<close>

type_synonym u64 = "64 word"
type_synonym u32 = "32 word"
type_synonym bytes = "8 word list"

named_theorems outcome_simps "evaluation and inversion of Go outcomes"

section \<open>Outcomes of a Go call\<close>

text \<open>
  \<open>Ret\<close> is a normal return, \<open>Panic\<close> a run-time panic with its cause, \<open>Diverge\<close> a
  call that never returns (the sampling loops are \<open>option\<close>-valued, with \<open>None\<close>
  for no return; \<open>go_of_option\<close> embeds them).
\<close>

datatype go_panic =
    IndexOutOfRange
  | SliceBoundsOutOfRange
  | IntegerDivideByZero
  | InvalidArgument
  | BadSeedLength
  | NilDereference
  | MakeSliceCapOutOfRange
  | ListenFailed
  | KeystoreFailed

datatype 'a go = Ret 'a | Panic go_panic | Diverge

fun go_bind :: "'a go \<Rightarrow> ('a \<Rightarrow> 'b go) \<Rightarrow> 'b go" where
  "go_bind (Ret x) f = f x"
| "go_bind (Panic p) f = Panic p"
| "go_bind Diverge f = Diverge"

definition go_of_option :: "'a option \<Rightarrow> 'a go" where
  "go_of_option v = (case v of None \<Rightarrow> Diverge | Some x \<Rightarrow> Ret x)"

lemma go_of_option_simps [simp, outcome_simps]:
  "go_of_option None = Diverge" "go_of_option (Some x) = Ret x"
  by (simp_all add: go_of_option_def)

lemma go_of_option_eq_Ret [simp, outcome_simps]: "go_of_option v = Ret x \<longleftrightarrow> v = Some x"
  by (cases v) auto

lemma go_of_option_not_Panic [simp]: "go_of_option v \<noteq> Panic p"
  by (cases v) auto

lemma go_bind_eq_Ret [outcome_simps]:
  "go_bind m f = Ret y \<longleftrightarrow> (\<exists>x. m = Ret x \<and> f x = Ret y)"
  by (cases m) auto

lemma go_bind_eq_Panic [outcome_simps]:
  "go_bind m f = Panic p \<longleftrightarrow> m = Panic p \<or> (\<exists>x. m = Ret x \<and> f x = Panic p)"
  by (cases m) auto

lemma go_bind_assoc: "go_bind (go_bind m f) g = go_bind m (\<lambda>x. go_bind (f x) g)"
  by (cases m) auto

text \<open>A loop over a list that appends one result per element.\<close>

fun go_mapM :: "('a \<Rightarrow> 'b go) \<Rightarrow> 'a list \<Rightarrow> 'b list go" where
  "go_mapM f [] = Ret []"
| "go_mapM f (x # xs) = go_bind (f x) (\<lambda>y. go_bind (go_mapM f xs) (\<lambda>ys. Ret (y # ys)))"

lemma go_mapM_eq_Ret: "go_mapM f xs = Ret ys \<longleftrightarrow> list_all2 (\<lambda>x y. f x = Ret y) xs ys"
proof (induction xs arbitrary: ys)
  case Nil
  then show ?case by auto
next
  case (Cons x xs)
  then show ?case by (cases ys) (auto simp: go_bind_eq_Ret)
qed

lemma go_mapM_length: "go_mapM f xs = Ret ys \<Longrightarrow> length ys = length xs"
  by (auto simp: go_mapM_eq_Ret dest: list_all2_lengthD)

lemma go_mapM_nth: "go_mapM f xs = Ret ys \<Longrightarrow> i < length xs \<Longrightarrow> f (xs ! i) = Ret (ys ! i)"
  by (auto simp: go_mapM_eq_Ret dest: list_all2_nthD)

lemma go_mapM_Ret: "(\<And>x. x \<in> set xs \<Longrightarrow> f x = Ret (g x)) \<Longrightarrow> go_mapM f xs = Ret (map g xs)"
  by (induction xs) auto

text \<open>The same loop for \<open>option\<close>-valued bodies.\<close>

fun opt_mapM :: "('a \<Rightarrow> 'b option) \<Rightarrow> 'a list \<Rightarrow> 'b list option" where
  "opt_mapM f [] = Some []"
| "opt_mapM f (x # xs) = do { y \<leftarrow> f x; ys \<leftarrow> opt_mapM f xs; Some (y # ys) }"

lemma opt_mapM_eq_Some: "opt_mapM f xs = Some ys \<longleftrightarrow> list_all2 (\<lambda>x y. f x = Some y) xs ys"
proof (induction xs arbitrary: ys)
  case Nil
  then show ?case by auto
next
  case (Cons x xs)
  then show ?case by (cases ys) (auto simp: bind_eq_Some_conv)
qed

lemma opt_mapM_length: "opt_mapM f xs = Some ys \<Longrightarrow> length ys = length xs"
  by (auto simp: opt_mapM_eq_Some dest: list_all2_lengthD)

lemma opt_mapM_nth: "opt_mapM f xs = Some ys \<Longrightarrow> i < length xs \<Longrightarrow> f (xs ! i) = Some (ys ! i)"
  by (auto simp: opt_mapM_eq_Some dest: list_all2_nthD)

lemma opt_mapM_total:
  "(\<And>x. x \<in> set xs \<Longrightarrow> \<exists>y. f x = Some y) \<Longrightarrow> \<exists>ys. opt_mapM f xs = Some ys"
proof (induction xs)
  case Nil
  then show ?case by simp
next
  case (Cons x xs)
  then obtain y ys where "f x = Some y" "opt_mapM f xs = Some ys" by fastforce
  then show ?case by simp
qed

lemma opt_mapM_cong_nth:
  "\<lbrakk>opt_mapM f xs = Some ys; opt_mapM g xs = Some zs; i < length xs; f (xs ! i) = g (xs ! i)\<rbrakk>
   \<Longrightarrow> ys ! i = zs ! i"
  by (metis opt_mapM_nth option.inject)

section \<open>Checked indexing\<close>

definition go_nth :: "'a list \<Rightarrow> nat \<Rightarrow> 'a go" where
  "go_nth xs i = (if i < length xs then Ret (xs ! i) else Panic IndexOutOfRange)"

lemma go_nth_simps [simp, outcome_simps]:
  "i < length xs \<Longrightarrow> go_nth xs i = Ret (xs ! i)"
  "length xs \<le> i \<Longrightarrow> go_nth xs i = Panic IndexOutOfRange"
  by (simp_all add: go_nth_def)

lemma go_nth_eq_Ret [outcome_simps]: "go_nth xs i = Ret x \<longleftrightarrow> i < length xs \<and> xs ! i = x"
  by (auto simp: go_nth_def)

text \<open>The slice expression \<open>xs[lo:hi]\<close> on a slice whose capacity is its length.\<close>

definition go_slice :: "'a list \<Rightarrow> int \<Rightarrow> int \<Rightarrow> 'a list go" where
  "go_slice xs lo hi =
     (if 0 \<le> lo \<and> lo \<le> hi \<and> hi \<le> int (length xs)
      then Ret (take (nat hi - nat lo) (drop (nat lo) xs))
      else Panic SliceBoundsOutOfRange)"

section \<open>Signed 64-bit arithmetic on \<open>int\<close>\<close>

definition wrap64 :: "int \<Rightarrow> int" where
  "wrap64 n = (n + 2 ^ 63) mod 2 ^ 64 - 2 ^ 63"

definition in_i64 :: "int \<Rightarrow> bool" where
  "in_i64 n \<longleftrightarrow> - (2 ^ 63) \<le> n \<and> n < 2 ^ 63"

lemma wrap64_id [simp]: "in_i64 n \<Longrightarrow> wrap64 n = n"
  by (simp add: wrap64_def in_i64_def)

lemma wrap64_in [simp]: "in_i64 (wrap64 n)"
proof -
  have "0 \<le> (n + 2 ^ 63) mod 2 ^ 64" "(n + 2 ^ 63) mod 2 ^ 64 < (2 ^ 64 :: int)"
    by simp_all
  then show ?thesis by (simp add: wrap64_def in_i64_def)
qed

section \<open>Words as bounded naturals\<close>

lemma unat_add_no_wrap: "unat a + unat b < 2 ^ 64 \<Longrightarrow> unat (a + b :: u64) = unat a + unat b"
  by (simp add: unat_word_ariths)

lemma unat_sub_no_wrap: "b \<le> a \<Longrightarrow> unat (a - b :: u64) = unat a - unat b"
  by (simp add: unat_sub)

lemma unat_sum_list_no_wrap:
  "sum_list (map unat ws) < 2 ^ 64 \<Longrightarrow> unat (sum_list (ws :: u64 list)) = sum_list (map unat ws)"
proof (induction ws)
  case Nil
  then show ?case by simp
next
  case (Cons w ws)
  then show ?case by (simp add: unat_add_no_wrap)
qed

lemma unat_of_nat_u64: "n < 2 ^ 64 \<Longrightarrow> unat (of_nat n :: u64) = n"
  by (simp add: unat_of_nat)

section \<open>Go maps\<close>

text \<open>
  A Go map as an association list with distinct keys: \<open>m[k] = v\<close>, \<open>m[k]\<close> with its
  \<open>ok\<close> flag, and \<open>len(m)\<close>.
\<close>

type_synonym ('k, 'v) gomap = "('k \<times> 'v) list"

definition gm_put :: "'k \<Rightarrow> 'v \<Rightarrow> ('k, 'v) gomap \<Rightarrow> ('k, 'v) gomap" where
  "gm_put k v m = AList.update k v m"

definition gm_get :: "('k, 'v) gomap \<Rightarrow> 'k \<Rightarrow> 'v option" where
  "gm_get m k = map_of m k"

definition gm_len :: "('k, 'v) gomap \<Rightarrow> nat" where
  "gm_len m = length m"

definition gm_ok :: "('k, 'v) gomap \<Rightarrow> bool" where
  "gm_ok m \<longleftrightarrow> distinct (map fst m)"

text \<open>What a client of a map relies on, and the height-indexed stores built from it.\<close>

locale go_map =
  fixes empty :: 'm
    and put :: "'k \<Rightarrow> 'v \<Rightarrow> 'm \<Rightarrow> 'm"
    and get :: "'m \<Rightarrow> 'k \<Rightarrow> 'v option"
    and len :: "'m \<Rightarrow> nat"
    and ok :: "'m \<Rightarrow> bool"
  assumes ok_empty: "ok empty"
    and ok_put: "ok m \<Longrightarrow> ok (put k v m)"
    and get_empty: "get empty k = None"
    and get_put: "ok m \<Longrightarrow> get (put k v m) k' = (if k' = k then Some v else get m k')"
    and len_empty: "len empty = 0"
    and len_put: "ok m \<Longrightarrow> len (put k v m) = (if get m k = None then Suc (len m) else len m)"
begin

lemma get_put_same [simp]: "ok m \<Longrightarrow> get (put k v m) k = Some v"
  by (simp add: get_put)

lemma get_put_other: "ok m \<Longrightarrow> k' \<noteq> k \<Longrightarrow> get (put k v m) k' = get m k'"
  by (simp add: get_put)

lemma len_put_new: "ok m \<Longrightarrow> get m k = None \<Longrightarrow> len (put k v m) = Suc (len m)"
  by (simp add: len_put)

text \<open>\<open>filled key m n\<close>: the store holds exactly the keys of \<open>1 .. n\<close>.\<close>

definition filled :: "(nat \<Rightarrow> 'k) \<Rightarrow> 'm \<Rightarrow> nat \<Rightarrow> bool" where
  "filled key m n \<longleftrightarrow> ok m \<and> len m = n \<and>
     (\<forall>k. (get m k \<noteq> None) = (\<exists>i. 1 \<le> i \<and> i \<le> n \<and> k = key i))"

lemma filled_empty: "filled key empty 0"
  by (auto simp: filled_def ok_empty len_empty get_empty)

lemma filled_get:
  "filled key m n \<Longrightarrow> 1 \<le> i \<Longrightarrow> i \<le> n \<Longrightarrow> \<exists>v. get m (key i) = Some v"
  unfolding filled_def by blast

lemma filled_get_None:
  "filled key m n \<Longrightarrow> (\<And>i. 1 \<le> i \<Longrightarrow> i \<le> n \<Longrightarrow> k \<noteq> key i) \<Longrightarrow> get m k = None"
  unfolding filled_def by blast

lemma filled_put:
  assumes "filled key m n" and fresh: "\<And>i. 1 \<le> i \<Longrightarrow> i \<le> n \<Longrightarrow> key (Suc n) \<noteq> key i"
  shows "filled key (put (key (Suc n)) v m) (Suc n)"
proof -
  have ok: "ok m" and len: "len m = n"
    and dom: "\<And>k. (get m k \<noteq> None) = (\<exists>i. 1 \<le> i \<and> i \<le> n \<and> k = key i)"
    using assms(1) by (auto simp: filled_def)
  have "get m (key (Suc n)) = None"
    using assms(1) fresh by (rule filled_get_None)
  moreover have "(\<exists>i. 1 \<le> i \<and> i \<le> Suc n \<and> k = key i) \<longleftrightarrow>
      (\<exists>i. 1 \<le> i \<and> i \<le> n \<and> k = key i) \<or> k = key (Suc n)" for k
    by (metis le_Suc_eq le_numeral_extra(4) not_less_eq_eq le0 One_nat_def Suc_le_mono)
  ultimately show ?thesis
    using ok len dom by (simp add: filled_def ok_put get_put len_put)
qed

end

interpretation gm: go_map "[]" gm_put gm_get gm_len gm_ok
proof unfold_locales
  fix m :: "('a, 'b) gomap" and k k' v
  show "gm_ok m \<Longrightarrow> gm_get (gm_put k v m) k' = (if k' = k then Some v else gm_get m k')"
    by (simp add: gm_get_def gm_put_def AList.update_conv')
  show "gm_ok m \<Longrightarrow> gm_len (gm_put k v m) = (if gm_get m k = None then Suc (gm_len m) else gm_len m)"
    unfolding gm_len_def gm_get_def gm_put_def gm_ok_def
    by (induction m) auto
  show "gm_ok m \<Longrightarrow> gm_ok (gm_put k v m)"
    by (simp add: gm_ok_def gm_put_def AList.distinct_update)
qed (simp_all add: gm_ok_def gm_get_def gm_len_def)

text \<open>Heights of the prebuilt chain as keys: \<open>of_nat\<close> is injective below \<open>2 ^ 64\<close>.\<close>

lemma of_nat_u64_inj: "i < 2 ^ 64 \<Longrightarrow> j < 2 ^ 64 \<Longrightarrow> (of_nat i :: u64) = of_nat j \<longleftrightarrow> i = j"
  by (metis unat_of_nat_u64)

end
