(* ===== verification/GoFloat.thy ===== *)
theory GoFloat
  imports Prelude "HOL-Library.Log_Nat"
begin

text \<open>
  Go's \<open>float64\<close>: IEEE 754 binary64 values over exact rationals, one rounding
  function (nearest, ties to even, 53 bits, subnormals, overflow to infinity)
  and the operations the program uses, each rounded on its own. The two zeros are
  one value: no operation of the program divides by a zero or otherwise tells them apart. The
  laws of rounding that the ledger and the pager rely on are a locale,
  interpreted on this rounding function.
\<close>

section \<open>Rounding to 53 bits\<close>

text \<open>\<open>flog2 x\<close> is the exponent of a positive rational: \<open>2 ^ flog2 x \<le> x < 2 ^ (flog2 x + 1)\<close>.\<close>

definition flog2 :: "rat \<Rightarrow> int" where
  "flog2 x = (case quotient_of x of (p, q) \<Rightarrow>
     let k = bitlen p - bitlen q in if 2 powi k \<le> x then k else k - 1)"

text \<open>Round to the nearest integer, ties to even.\<close>

definition round_even :: "rat \<Rightarrow> int" where
  "round_even x =
     (let n = \<lfloor>x\<rfloor>; d = x - of_int n in
      if d < 1 / 2 then n else if 1 / 2 < d then n + 1 else if even n then n else n + 1)"

definition ulp_exp :: "rat \<Rightarrow> int" where
  "ulp_exp x = max (flog2 \<bar>x\<bar> - 52) (- 1074)"

definition fround :: "rat \<Rightarrow> rat" where
  "fround x = (if x = 0 then 0 else of_int (round_even (x / 2 powi (ulp_exp x))) * 2 powi (ulp_exp x))"

section \<open>The interface of rounding\<close>

text \<open>
  What the program's floating-point arguments rest on: rounding is monotone,
  exact on the integers up to \<open>2 ^ 53\<close>, and has relative error \<open>2 ^ -53\<close> on
  normal values.
\<close>

locale float_rounding =
  fixes fr :: "rat \<Rightarrow> rat"
  assumes fr_mono: "x \<le> y \<Longrightarrow> fr x \<le> fr y"
    and fr_of_int: "\<bar>n\<bar> \<le> 2 ^ 53 \<Longrightarrow> fr (of_int n) = of_int n"
    and fr_rel_error: "2 powi (- 1022) \<le> \<bar>x\<bar> \<Longrightarrow> \<bar>fr x - x\<bar> \<le> \<bar>x\<bar> / 2 ^ 53"
begin

lemma fr_0 [simp]: "fr 0 = 0"
  using fr_of_int [of 0] by simp

lemma fr_1 [simp]: "fr 1 = 1"
  using fr_of_int [of 1] by simp

lemma fr_nonneg: "0 \<le> x \<Longrightarrow> 0 \<le> fr x"
  using fr_mono [of 0 x] by simp

lemma fr_le_of_int: "x \<le> of_int n \<Longrightarrow> \<bar>n\<bar> \<le> 2 ^ 53 \<Longrightarrow> fr x \<le> of_int n"
  using fr_mono [of x "of_int n"] by (simp add: fr_of_int)

lemma of_int_le_fr: "of_int n \<le> x \<Longrightarrow> \<bar>n\<bar> \<le> 2 ^ 53 \<Longrightarrow> of_int n \<le> fr x"
  using fr_mono [of "of_int n" x] by (simp add: fr_of_int)

text \<open>A running sum, rounded at every addition.\<close>

primrec fr_accum :: "rat \<Rightarrow> rat list \<Rightarrow> rat" where
  "fr_accum a [] = a"
| "fr_accum a (r # rs) = fr_accum (fr (a + r)) rs"

lemma fr_accum_mono: "a \<le> b \<Longrightarrow> fr_accum a rs \<le> fr_accum b rs"
  by (induction rs arbitrary: a b) (simp_all add: fr_mono)

text \<open>
  The exact sum of the integer parts never exceeds the rounded running sum, as long as
  it stays in the range where integers are exact.
\<close>

lemma floor_sum_le_accum:
  assumes "0 \<le> N" "of_int (min N (2 ^ 53)) \<le> a" "\<And>r. r \<in> set rs \<Longrightarrow> 0 \<le> r"
  shows "of_int (min (N + (\<Sum>r\<leftarrow>rs. \<lfloor>r\<rfloor>)) (2 ^ 53)) \<le> fr_accum a rs"
  using assms
proof (induction rs arbitrary: N a)
  case Nil
  then show ?case by simp
next
  case (Cons r rs)
  have r: "0 \<le> r" "of_int \<lfloor>r\<rfloor> \<le> r" "0 \<le> \<lfloor>r\<rfloor>"
    using Cons.prems(3) by auto
  have "min (N + \<lfloor>r\<rfloor>) (2 ^ 53) \<le> min N (2 ^ 53) + \<lfloor>r\<rfloor>"
    using r(3) by linarith
  then have "(of_int (min (N + \<lfloor>r\<rfloor>) (2 ^ 53)) :: rat) \<le> of_int (min N (2 ^ 53) + \<lfloor>r\<rfloor>)"
    by (rule of_int_le_iff [THEN iffD2])
  also have "\<dots> \<le> a + r"
    using Cons.prems(2) r(2) by (simp only: of_int_add add_mono)
  finally have "of_int (min (N + \<lfloor>r\<rfloor>) (2 ^ 53)) \<le> fr (a + r)"
    by (rule of_int_le_fr) (use Cons.prems(1) r(3) in auto)
  moreover have "0 \<le> N + \<lfloor>r\<rfloor>" using Cons.prems(1) r(3) by simp
  ultimately have "of_int (min (N + \<lfloor>r\<rfloor> + (\<Sum>r\<leftarrow>rs. \<lfloor>r\<rfloor>)) (2 ^ 53)) \<le> fr_accum (fr (a + r)) rs"
    using Cons.prems(3) by (intro Cons.IH) auto
  then show ?case by (simp add: add.assoc)
qed

corollary floor_sum_bound:
  assumes "\<And>r. r \<in> set rs \<Longrightarrow> 0 \<le> r" "fr_accum 0 rs \<le> of_int T" "T < 2 ^ 53"
  shows "(\<Sum>r\<leftarrow>rs. \<lfloor>r\<rfloor>) \<le> T"
proof -
  have "(of_int (min (\<Sum>r\<leftarrow>rs. \<lfloor>r\<rfloor>) (2 ^ 53)) :: rat) \<le> of_int T"
    using floor_sum_le_accum [of 0 0 rs] assms(1,2) by simp
  then have "min (\<Sum>r\<leftarrow>rs. \<lfloor>r\<rfloor>) (2 ^ 53) \<le> T" by (simp only: of_int_le_iff)
  with assms(3) show ?thesis by linarith
qed

text \<open>Rounding a quotient of naturals below \<open>2 ^ 53\<close> does not move it across an integer.\<close>

lemma ceiling_fr_div:
  assumes "0 < b" "b < 2 ^ 64" "a < 2 ^ 53"
  shows "\<lceil>fr (rat_of_nat a / rat_of_nat b)\<rceil> = \<lceil>rat_of_nat a / rat_of_nat b\<rceil>"
proof (cases "a = 0")
  case True
  then show ?thesis by simp
next
  case False
  let ?x = "rat_of_nat a / rat_of_nat b" and ?c = "\<lceil>rat_of_nat a / rat_of_nat b\<rceil>"
  have a53: "rat_of_nat a < 2 ^ 53" and b64: "rat_of_nat b < 2 ^ 64"
    using assms(2,3) by (metis of_nat_less_iff of_nat_numeral of_nat_power)+
  have b1: "1 \<le> rat_of_nat b" and a1: "1 \<le> rat_of_nat a"
    using assms(1) False by simp_all
  have "?c \<le> \<lceil>rat_of_nat a\<rceil>"
    using b1 mult_left_mono [OF b1, of "rat_of_nat a"] by (intro ceiling_mono) (simp add: divide_le_eq)
  then have "?c \<le> int a" by simp
  moreover have "0 \<le> ?x" by simp
  then have "0 \<le> ?c" by linarith
  moreover have "int a < 2 ^ 53" using assms(3) by simp
  ultimately have "\<bar>?c\<bar> \<le> 2 ^ 53" by linarith
  then have up: "fr ?x \<le> of_int ?c" by (intro fr_le_of_int) simp_all
  have "of_int (?c - 1) < ?x" by linarith
  then have "of_int ((?c - 1) * int b) < (of_int (int a) :: rat)"
    using assms(1) by (simp add: pos_less_divide_eq)
  then have "(?c - 1) * int b + 1 \<le> int a" by (simp only: of_int_less_iff)
  then have "of_int ((?c - 1) * int b + 1) \<le> (of_int (int a) :: rat)" by (simp only: of_int_le_iff)
  then have "((of_int ?c - 1) * rat_of_nat b + 1) / rat_of_nat b \<le> ?x"
    by (intro divide_right_mono) simp_all
  then have gap: "of_int (?c - 1) + 1 / rat_of_nat b \<le> ?x"
    using assms(1) by (simp add: add_divide_distrib)
  have "(2 :: rat) powi (- 1022) \<le> 1 / 2 ^ 64"
    by (simp add: power_int_minus field_simps)
  also have "\<dots> \<le> 1 / rat_of_nat b" using b1 b64 by (simp add: frac_le)
  also have "\<dots> \<le> ?x" using a1 b1 by (simp add: divide_right_mono)
  finally have "\<bar>fr ?x - ?x\<bar> \<le> \<bar>?x\<bar> / 2 ^ 53" by (intro fr_rel_error) simp
  also have "\<bar>?x\<bar> / 2 ^ 53 < 1 / rat_of_nat b" using a53 b1 by (simp add: field_simps)
  finally have "of_int ?c - 1 < fr ?x" using gap by simp
  with up show ?thesis by (simp add: ceiling_eq_iff)
qed

end

section \<open>The rounding function meets the interface\<close>

lemma quotient_of_pos:
  assumes "0 < x" "quotient_of x = (p, q)"
  shows "0 < p" "0 < q" "x = of_int p / of_int q"
proof -
  show q: "0 < q" using quotient_of_denom_pos [OF assms(2)] .
  show x: "x = of_int p / of_int q" using quotient_of_div [OF assms(2)] .
  show "0 < p" using assms(1) q x by (simp add: zero_less_divide_iff)
qed

lemma bitlen_powi:
  assumes "0 < p"
  shows "2 powi (bitlen p - 1) \<le> (of_int p :: rat)" "(of_int p :: rat) < 2 powi bitlen p"
proof -
  have b: "2 ^ nat (bitlen p - 1) \<le> p" "p < 2 ^ nat (bitlen p)" "0 < bitlen p"
    using bitlen_bounds [OF assms] bitlen_nonneg [of p] assms bitlen_eq_zero_iff [of p] by auto
  have "(of_int (2 ^ nat (bitlen p - 1)) :: rat) \<le> of_int p"
    using b(1) by (simp only: of_int_le_iff)
  then show "2 powi (bitlen p - 1) \<le> (of_int p :: rat)"
    using b(3) by (simp add: power_int_def)
  have "(of_int p :: rat) < of_int (2 ^ nat (bitlen p))"
    using b(2) by (simp only: of_int_less_iff)
  then show "(of_int p :: rat) < 2 powi bitlen p"
    using b(3) by (simp add: power_int_def)
qed

lemma flog2_bounds:
  assumes "0 < x"
  shows "2 powi (flog2 x) \<le> x" "x < 2 powi (flog2 x + 1)"
proof -
  obtain p q where pq: "quotient_of x = (p, q)" by fastforce
  note x = quotient_of_pos [OF assms pq]
  note bp = bitlen_powi [OF x(1)] and bq = bitlen_powi [OF x(2)]
  let ?k = "bitlen p - bitlen q"
  have q0: "(0 :: rat) < of_int q" using x(2) by simp
  have "2 powi (?k - 1) * (of_int q :: rat) \<le> 2 powi (?k - 1) * 2 powi bitlen q"
    using bq(2) by (intro mult_left_mono) auto
  also have "\<dots> = 2 powi (bitlen p - 1)" by (simp flip: power_int_add)
  also have "\<dots> \<le> of_int p" by (rule bp(1))
  finally have lo: "2 powi (?k - 1) \<le> x" using x(3) q0 by (simp add: pos_le_divide_eq)
  have "(of_int p :: rat) < 2 powi bitlen p" by (rule bp(2))
  also have "\<dots> = 2 powi (?k + 1) * 2 powi (bitlen q - 1)" by (simp flip: power_int_add)
  also have "\<dots> \<le> 2 powi (?k + 1) * of_int q" using bq(1) by (intro mult_left_mono) auto
  finally have hi: "x < 2 powi (?k + 1)" using x(3) q0 by (simp add: pos_divide_less_eq)
  show "2 powi (flog2 x) \<le> x" "x < 2 powi (flog2 x + 1)"
    using lo hi by (auto simp: flog2_def pq Let_def)
qed

lemma powi2_le_iff: "(2 :: rat) powi a \<le> 2 powi b \<longleftrightarrow> a \<le> b"
  by (metis not_le one_le_numeral one_less_numeral_iff power_int_increasing
      power_int_strict_increasing semiring_norm(76))

lemma powi2_less_iff: "(2 :: rat) powi a < 2 powi b \<longleftrightarrow> a < b"
  by (simp flip: not_le add: powi2_le_iff)

lemma flog2_unique: "2 powi k \<le> x \<Longrightarrow> x < 2 powi (k + 1) \<Longrightarrow> flog2 x = k"
proof -
  assume k: "2 powi k \<le> x" "x < 2 powi (k + 1)"
  then have "0 < x" by (meson less_le_trans zero_less_power_int zero_less_numeral)
  note b = flog2_bounds [OF this]
  have "(2 :: rat) powi k < 2 powi (flog2 x + 1)" using k(1) b(2) by (rule le_less_trans)
  moreover have "(2 :: rat) powi (flog2 x) < 2 powi (k + 1)" using b(1) k(2) by (rule le_less_trans)
  ultimately show ?thesis by (simp add: powi2_less_iff)
qed

lemma flog2_mono: "0 < x \<Longrightarrow> x \<le> y \<Longrightarrow> flog2 x \<le> flog2 y"
proof -
  assume xy: "0 < x" "x \<le> y"
  have "2 powi (flog2 x) \<le> x" using flog2_bounds(1) [OF xy(1)] .
  also have "x \<le> y" by (rule xy(2))
  also have "y < 2 powi (flog2 y + 1)" using flog2_bounds(2) xy by simp
  finally show ?thesis by (simp add: powi2_less_iff)
qed

lemma round_even_of_int [simp]: "round_even (of_int n) = n"
  by (simp add: round_even_def)

lemma round_even_bounds: "\<lfloor>x\<rfloor> \<le> round_even x" "round_even x \<le> \<lfloor>x\<rfloor> + 1"
  by (auto simp: round_even_def Let_def)

lemma round_even_error: "\<bar>of_int (round_even x) - x\<bar> \<le> 1 / 2"
proof -
  have "of_int \<lfloor>x\<rfloor> \<le> x" "x < of_int \<lfloor>x\<rfloor> + 1" by linarith+
  then show ?thesis by (auto simp: round_even_def Let_def abs_le_iff)
qed

lemma round_even_mono: "x \<le> y \<Longrightarrow> round_even x \<le> round_even y"
proof (cases "\<lfloor>x\<rfloor> = \<lfloor>y\<rfloor>")
  case True
  assume "x \<le> y"
  with True show ?thesis by (auto simp: round_even_def Let_def)
next
  case False
  assume "x \<le> y"
  with False have "\<lfloor>x\<rfloor> + 1 \<le> \<lfloor>y\<rfloor>" using floor_mono [of x y] by linarith
  then show ?thesis using round_even_bounds(2) [of x] round_even_bounds(1) [of y] by linarith
qed

lemma round_even_minus: "round_even (- x) = - round_even x"
proof (cases "x = of_int \<lfloor>x\<rfloor>")
  case True
  then have "round_even (- x) = round_even (of_int (- \<lfloor>x\<rfloor>))" "round_even x = \<lfloor>x\<rfloor>"
    by (metis of_int_minus, metis round_even_of_int)
  then show ?thesis by (metis round_even_of_int)
next
  case False
  then have "\<lfloor>- x\<rfloor> = - \<lfloor>x\<rfloor> - 1" by (simp add: floor_minus ceiling_altdef)
  moreover from this have "even \<lfloor>- x\<rfloor> \<longleftrightarrow> odd \<lfloor>x\<rfloor>" by presburger
  ultimately show ?thesis by (auto simp: round_even_def Let_def)
qed

lemma fround_0 [simp]: "fround 0 = 0"
  by (simp add: fround_def)

lemma fround_uminus: "fround (- x) = - fround x"
  by (simp add: fround_def ulp_exp_def round_even_minus)

lemma ulp_exp_mono: "0 < x \<Longrightarrow> x \<le> y \<Longrightarrow> ulp_exp x \<le> ulp_exp y"
  using flog2_mono [of x y] by (simp add: ulp_exp_def)

text \<open>A value \<open>m * 2 ^ k\<close> with \<open>|m| \<le> 2 ^ 53\<close> is a \<open>float64\<close>: rounding leaves it alone.\<close>

lemma fround_exact_pos:
  assumes "0 < m" "m < 2 ^ 53" "- 1074 \<le> k"
  shows "fround (of_int m * 2 powi k) = of_int m * 2 powi k"
proof -
  let ?x = "of_int m * 2 powi k :: rat"
  have x: "0 < ?x" using assms(1) by simp
  have "(of_int m :: rat) < of_int (2 ^ 53)" using assms(2) by (simp only: of_int_less_iff)
  then have "?x < 2 powi 53 * 2 powi k" by simp
  then have "?x < 2 powi (k + 53)" by (simp add: power_int_add)
  then have "2 powi (flog2 ?x) < (2 :: rat) powi (k + 53)"
    using flog2_bounds(1) [OF x] by simp
  then have q: "ulp_exp ?x \<le> k" using x assms(3) by (simp add: ulp_exp_def powi2_less_iff)
  let ?q = "ulp_exp ?x"
  have "?x / 2 powi ?q = of_int m * 2 powi (k - ?q)" by (simp add: power_int_diff)
  also have "\<dots> = of_int (m * 2 ^ nat (k - ?q))" using q by (simp add: power_int_def)
  finally have "round_even (?x / 2 powi ?q) = m * 2 ^ nat (k - ?q)" by (metis round_even_of_int)
  then have "fround ?x = of_int (m * 2 ^ nat (k - ?q)) * 2 powi ?q" using x by (simp add: fround_def)
  also have "\<dots> = of_int m * (2 powi (k - ?q) * 2 powi ?q)" using q by (simp add: power_int_def)
  also have "\<dots> = ?x" by (simp flip: power_int_add)
  finally show ?thesis .
qed

lemma fround_pow2: "- 1074 \<le> k \<Longrightarrow> fround (2 powi k) = 2 powi k"
  using fround_exact_pos [of 1 k] by simp

lemma powi2_quotient: "k \<le> e \<Longrightarrow> (2 :: rat) powi e / 2 powi k = of_int (2 ^ nat (e - k))"
proof -
  assume "k \<le> e"
  have "(2 :: rat) powi e / 2 powi k = 2 powi (e - k)" by (simp add: power_int_diff)
  with \<open>k \<le> e\<close> show ?thesis by (simp add: power_int_def)
qed

text \<open>A power of two lies on every grid below it.\<close>

lemma powi2_on_grid: "k \<le> e \<Longrightarrow> of_int (round_even (2 powi e / 2 powi k)) * 2 powi k = (2 :: rat) powi e"
proof -
  assume k: "k \<le> e"
  have "of_int (round_even (2 powi e / 2 powi k)) = (2 :: rat) powi e / 2 powi k"
    unfolding powi2_quotient [OF k] by (simp only: round_even_of_int)
  then show ?thesis by simp
qed

lemma fround_mono_pos:
  assumes "0 < x" "x \<le> y"
  shows "fround x \<le> fround y"
proof (cases "ulp_exp x = ulp_exp y")
  case True
  have "x / 2 powi ulp_exp y \<le> y / 2 powi ulp_exp y" using assms(2) by (simp add: divide_right_mono)
  then show ?thesis
    using assms True by (simp add: fround_def round_even_mono mult_right_mono)
next
  case False
  let ?q = "ulp_exp x" and ?r = "ulp_exp y" and ?e = "flog2 y"
  have lt: "?q < ?r" using False ulp_exp_mono [OF assms] by simp
  then have r: "?r = ?e - 52" "flog2 x < ?e" using assms by (auto simp: ulp_exp_def)
  have y: "0 < y" using assms by simp
  have "x < 2 powi (flog2 x + 1)" by (rule flog2_bounds(2) [OF assms(1)])
  also have "\<dots> \<le> 2 powi ?e" using r(2) by (simp add: powi2_le_iff)
  finally have "round_even (x / 2 powi ?q) \<le> round_even (2 powi ?e / 2 powi ?q)"
    by (intro round_even_mono divide_right_mono) simp_all
  then have "fround x \<le> of_int (round_even (2 powi ?e / 2 powi ?q)) * 2 powi ?q"
    using assms(1) by (simp add: fround_def mult_right_mono)
  also have "\<dots> = of_int (round_even (2 powi ?e / 2 powi ?r)) * 2 powi ?r"
    using lt r by (simp add: powi2_on_grid)
  also have "\<dots> \<le> fround y"
    using y flog2_bounds(1) [OF y]
    by (simp add: fround_def mult_right_mono round_even_mono divide_right_mono)
  finally show ?thesis .
qed

lemma fround_pos_nonneg: "0 < x \<Longrightarrow> 0 \<le> fround x"
  using round_even_bounds(1) [of "x / 2 powi ulp_exp x"]
  by (simp add: fround_def) (meson dual_order.trans of_int_0_le_iff zero_le_floor zero_le_divide_iff
      less_imp_le zero_less_power_int zero_less_numeral mult_nonneg_nonneg)

lemma fround_mono: "x \<le> y \<Longrightarrow> fround x \<le> fround y"
proof (cases "0 < x")
  case True
  assume "x \<le> y"
  then show ?thesis using True by (rule fround_mono_pos [rotated])
next
  case x: False
  assume xy: "x \<le> y"
  have x0: "fround x \<le> 0"
    using x fround_pos_nonneg [of "- x"] by (cases "x = 0") (auto simp: fround_uminus)
  show ?thesis
  proof (cases "0 \<le> y")
    case True
    then have "0 \<le> fround y"
      using fround_pos_nonneg [of y] by (cases "y = 0") auto
    with x0 show ?thesis by simp
  next
    case False
    then have "fround (- y) \<le> fround (- x)" using xy by (intro fround_mono_pos) auto
    then show ?thesis by (simp add: fround_uminus)
  qed
qed

lemma fround_exact:
  assumes "\<bar>m\<bar> \<le> 2 ^ 53" "- 1074 \<le> k"
  shows "fround (of_int m * 2 powi k) = of_int m * 2 powi k"
proof -
  have pos: "fround (of_int n * 2 powi k) = of_int n * 2 powi k" if "0 < n" "n \<le> 2 ^ 53" for n
  proof (cases "n = 2 ^ 53")
    case True
    have "(of_int n :: rat) * 2 powi k = 2 powi 53 * 2 powi k" using True by simp
    also have "\<dots> = 2 powi (k + 53)" by (simp add: power_int_add)
    finally show ?thesis using fround_pow2 [of "k + 53"] assms(2) by simp
  next
    case False
    with that assms(2) show ?thesis by (intro fround_exact_pos) auto
  qed
  consider "0 < m" | "m = 0" | "m < 0" by linarith
  then show ?thesis
  proof cases
    case 1 then show ?thesis using pos assms(1) by simp
  next
    case 2 then show ?thesis by simp
  next
    case 3
    then show ?thesis using pos [of "- m"] assms(1) fround_uminus [of "of_int (- m) * 2 powi k"] by simp
  qed
qed

lemma fround_error: "x \<noteq> 0 \<Longrightarrow> \<bar>fround x - x\<bar> \<le> 2 powi (ulp_exp x) / 2"
proof -
  assume x: "x \<noteq> 0"
  let ?q = "ulp_exp x"
  have "fround x - x = (of_int (round_even (x / 2 powi ?q)) - x / 2 powi ?q) * 2 powi ?q"
    using x by (simp add: fround_def left_diff_distrib)
  then have "\<bar>fround x - x\<bar> = \<bar>of_int (round_even (x / 2 powi ?q)) - x / 2 powi ?q\<bar> * 2 powi ?q"
    by (simp add: abs_mult)
  also have "\<dots> \<le> 1 / 2 * 2 powi ?q"
    using round_even_error by (intro mult_right_mono) auto
  finally show ?thesis by simp
qed

lemma fround_rel_error:
  assumes "2 powi (- 1022) \<le> \<bar>x\<bar>"
  shows "\<bar>fround x - x\<bar> \<le> \<bar>x\<bar> / 2 ^ 53"
proof -
  have pos: "0 < \<bar>x\<bar>" using assms by (meson less_le_trans zero_less_power_int zero_less_numeral)
  note b = flog2_bounds [OF pos]
  have "(2 :: rat) powi (- 1022) < 2 powi (flog2 \<bar>x\<bar> + 1)" using assms b(2) by (rule le_less_trans)
  then have "- 1022 < flog2 \<bar>x\<bar> + 1" by (simp only: powi2_less_iff)
  then have q: "ulp_exp x = flog2 \<bar>x\<bar> - 52" by (simp add: ulp_exp_def)
  have "\<bar>fround x - x\<bar> \<le> 2 powi (ulp_exp x) / 2" using pos by (intro fround_error) auto
  also have "\<dots> = 2 powi (flog2 \<bar>x\<bar>) / 2 ^ 53" by (simp add: q power_int_diff)
  also have "\<dots> \<le> \<bar>x\<bar> / 2 ^ 53" using b(1) by (intro divide_right_mono) simp_all
  finally show ?thesis .
qed

interpretation fr: float_rounding fround
proof unfold_locales
  show "fround (of_int n) = of_int n" if "\<bar>n\<bar> \<le> 2 ^ 53" for n
    using fround_exact [of n 0] that by simp
qed (fact fround_mono fround_rel_error)+

text \<open>A rounded value is a \<open>float64\<close>: rounding again changes nothing.\<close>

lemma fround_idem_pos:
  assumes "0 < x"
  shows "fround (fround x) = fround x"
proof -
  let ?q = "ulp_exp x" and ?n = "round_even (x / 2 powi (ulp_exp x))"
  have q: "flog2 x - 52 \<le> ?q" "- 1074 \<le> ?q" using assms by (simp_all add: ulp_exp_def)
  have "x < 2 powi (flog2 x + 1)" by (rule flog2_bounds(2) [OF assms])
  also have "\<dots> \<le> 2 powi (?q + 53)" using q(1) by (simp only: powi2_le_iff)
  also have "\<dots> = 2 powi 53 * 2 powi ?q" by (simp add: power_int_add)
  finally have "x / 2 powi ?q \<le> of_int (2 ^ 53)" by (simp add: divide_le_eq)
  then have "?n \<le> round_even (of_int (2 ^ 53))" by (rule round_even_mono)
  moreover have "round_even (of_int 0) \<le> ?n"
    using assms by (intro round_even_mono) simp
  ultimately have "\<bar>?n\<bar> \<le> 2 ^ 53" by (simp only: round_even_of_int abs_of_nonneg)
  moreover have "fround x = of_int ?n * 2 powi ?q" using assms by (simp add: fround_def)
  ultimately show ?thesis using fround_exact [OF _ q(2), of ?n] by simp
qed

lemma fround_idem: "fround (fround x) = fround x"
proof -
  consider "0 < x" | "x = 0" | "0 < - x" by linarith
  then show ?thesis
  proof cases
    case 3
    then have "fround (fround (- x)) = fround (- x)" by (rule fround_idem_pos)
    then show ?thesis by (simp add: fround_uminus)
  qed (simp_all add: fround_idem_pos)
qed

section \<open>The type \<open>float64\<close>\<close>

datatype f64 = Fin rat | PInf | NInf | NaN

text \<open>The result of an operation: rounded, and infinite when it leaves the range.\<close>

definition rnd :: "rat \<Rightarrow> f64" where
  "rnd x = (let y = fround x in
     if y \<noteq> 0 \<and> 1024 \<le> flog2 \<bar>y\<bar> then (if 0 < y then PInf else NInf) else Fin y)"

text \<open>An untyped floating-point constant converted to \<open>float64\<close>.\<close>

abbreviation fconst :: "rat \<Rightarrow> f64" where
  "fconst q \<equiv> rnd q"

definition inf_of :: "bool \<Rightarrow> f64" where
  "inf_of pos = (if pos then PInf else NInf)"

definition fpositive :: "f64 \<Rightarrow> bool" where
  "fpositive a = (case a of Fin x \<Rightarrow> 0 \<le> x | PInf \<Rightarrow> True | _ \<Rightarrow> False)"

definition fneg :: "f64 \<Rightarrow> f64" where
  "fneg a = (case a of Fin x \<Rightarrow> Fin (- x) | PInf \<Rightarrow> NInf | NInf \<Rightarrow> PInf | NaN \<Rightarrow> NaN)"

definition fadd :: "f64 \<Rightarrow> f64 \<Rightarrow> f64" where
  "fadd a b =
     (if a = NaN \<or> b = NaN then NaN
      else case a of
        Fin x \<Rightarrow> (case b of Fin y \<Rightarrow> rnd (x + y) | _ \<Rightarrow> b)
      | PInf \<Rightarrow> (if b = NInf then NaN else PInf)
      | NInf \<Rightarrow> (if b = PInf then NaN else NInf)
      | NaN \<Rightarrow> NaN)"

definition fsub :: "f64 \<Rightarrow> f64 \<Rightarrow> f64" where
  "fsub a b = fadd a (fneg b)"

definition fmul :: "f64 \<Rightarrow> f64 \<Rightarrow> f64" where
  "fmul a b =
     (if a = NaN \<or> b = NaN then NaN
      else case (a, b) of
        (Fin x, Fin y) \<Rightarrow> rnd (x * y)
      | _ \<Rightarrow> if a = Fin 0 \<or> b = Fin 0 then NaN else inf_of (fpositive a = fpositive b))"

definition fdiv :: "f64 \<Rightarrow> f64 \<Rightarrow> f64" where
  "fdiv a b =
     (if a = NaN \<or> b = NaN then NaN
      else case (a, b) of
        (Fin x, Fin y) \<Rightarrow>
          if y = 0 then (if x = 0 then NaN else inf_of (0 < x)) else rnd (x / y)
      | (Fin x, _) \<Rightarrow> Fin 0
      | (_, Fin y) \<Rightarrow> inf_of (fpositive a = fpositive b)
      | _ \<Rightarrow> NaN)"

lemma f64_ops_Fin:
  "fneg (Fin x) = Fin (- x)"
  "fadd (Fin x) (Fin y) = rnd (x + y)"
  "fsub (Fin x) (Fin y) = rnd (x - y)"
  "fmul (Fin x) (Fin y) = rnd (x * y)"
  "y \<noteq> 0 \<Longrightarrow> fdiv (Fin x) (Fin y) = rnd (x / y)"
  by (simp_all add: fneg_def fadd_def fsub_def fmul_def fdiv_def)

text \<open>Comparisons are false when an operand is not a number.\<close>

definition flt :: "f64 \<Rightarrow> f64 \<Rightarrow> bool" where
  "flt a b =
     (if a = NaN \<or> b = NaN then False
      else case (a, b) of
        (Fin x, Fin y) \<Rightarrow> x < y
      | _ \<Rightarrow> a \<noteq> b \<and> (a = NInf \<or> b = PInf))"

definition fle :: "f64 \<Rightarrow> f64 \<Rightarrow> bool" where
  "fle a b =
     (if a = NaN \<or> b = NaN then False
      else case (a, b) of
        (Fin x, Fin y) \<Rightarrow> x \<le> y
      | _ \<Rightarrow> a = NInf \<or> b = PInf)"

definition feq :: "f64 \<Rightarrow> f64 \<Rightarrow> bool" where
  "feq a b \<longleftrightarrow> a \<noteq> NaN \<and> a = b"

text \<open>Conversions: \<open>float64(n)\<close> for an integer, and the integer part for the way back.\<close>

definition f64_of_int :: "int \<Rightarrow> f64" where
  "f64_of_int n = rnd (of_int n)"

definition f64_of_u64 :: "u64 \<Rightarrow> f64" where
  "f64_of_u64 w = f64_of_int (int (unat w))"

text \<open>
  \<open>uint64(f)\<close> truncates when the integer part fits; otherwise Go leaves the value to the
  implementation, which is the argument \<open>oor\<close>.
\<close>

definition u64_of_f64 :: "(f64 \<Rightarrow> u64) \<Rightarrow> f64 \<Rightarrow> u64" where
  "u64_of_f64 oor a =
     (case a of
        Fin x \<Rightarrow> if -1 < x \<and> x < 2 ^ 64 then of_int (if 0 \<le> x then \<lfloor>x\<rfloor> else 0) else oor a
      | _ \<Rightarrow> oor a)"

definition fceil :: "f64 \<Rightarrow> f64" where
  "fceil a = (case a of Fin x \<Rightarrow> Fin (of_int \<lceil>x\<rceil>) | _ \<Rightarrow> a)"

section \<open>Bounds and signs of results\<close>

text \<open>
  \<open>fwithin B a\<close>: the value is finite and of magnitude at most \<open>B\<close>. With an integer bound in
  the exact range (or a power of two) rounding cannot leave it, so the bounds of the
  exact operations carry over.
\<close>

definition fwithin :: "rat \<Rightarrow> f64 \<Rightarrow> bool" where
  "fwithin B a = (case a of Fin x \<Rightarrow> \<bar>x\<bar> \<le> B | _ \<Rightarrow> False)"

lemma fwithin_cases: "fwithin B a \<longleftrightarrow> (\<exists>x. a = Fin x \<and> \<bar>x\<bar> \<le> B)"
  by (cases a) (auto simp: fwithin_def)

definition exact_bound :: "rat \<Rightarrow> bool" where
  "exact_bound B \<longleftrightarrow> fround B = B \<and> 0 \<le> B \<and> B < 2 powi 1024"

lemma fwithin_Fin [simp]: "fwithin B (Fin x) \<longleftrightarrow> \<bar>x\<bar> \<le> B"
  by (simp add: fwithin_def)

lemma fwithin_mono: "fwithin B a \<Longrightarrow> B \<le> C \<Longrightarrow> fwithin C a"
  by (auto simp: fwithin_cases)

lemma flog2_ge_iff: "0 < x \<Longrightarrow> k \<le> flog2 x \<longleftrightarrow> 2 powi k \<le> x"
proof
  assume x: "0 < x" and "k \<le> flog2 x"
  then have "(2 :: rat) powi k \<le> 2 powi (flog2 x)" by (simp add: powi2_le_iff)
  also have "\<dots> \<le> x" by (rule flog2_bounds(1) [OF x])
  finally show "2 powi k \<le> x" .
next
  assume x: "0 < x" and "2 powi k \<le> x"
  then have "(2 :: rat) powi k < 2 powi (flog2 x + 1)" using flog2_bounds(2) [OF x] by simp
  then show "k \<le> flog2 x" by (simp add: powi2_less_iff)
qed

lemma rnd_eq_Fin: "\<bar>fround x\<bar> < 2 powi 1024 \<Longrightarrow> rnd x = Fin (fround x)"
  by (cases "fround x = 0") (auto simp: rnd_def Let_def flog2_ge_iff simp del: power_int_numeral)

lemma fround_abs_le: "exact_bound B \<Longrightarrow> \<bar>x\<bar> \<le> B \<Longrightarrow> \<bar>fround x\<bar> \<le> B"
  using fround_mono [of x B] fround_mono [of "- B" x] by (simp add: exact_bound_def fround_uminus abs_le_iff)

lemma rnd_within: "exact_bound B \<Longrightarrow> \<bar>x\<bar> \<le> B \<Longrightarrow> rnd x = Fin (fround x) \<and> \<bar>fround x\<bar> \<le> B"
  using fround_abs_le [of B x] by (auto simp: exact_bound_def intro!: rnd_eq_Fin)

lemma exact_bound_of_int: "0 \<le> n \<Longrightarrow> n \<le> 2 ^ 53 \<Longrightarrow> exact_bound (of_int n)"
proof -
  assume n: "0 \<le> n" "n \<le> 2 ^ 53"
  then have "(of_int n :: rat) \<le> of_int (2 ^ 53)" by (simp only: of_int_le_iff)
  also have "\<dots> = 2 powi 53" by simp
  also have "\<dots> < 2 powi 1024" by (simp only: powi2_less_iff)
  finally show ?thesis using n by (simp add: exact_bound_def fr.fr_of_int)
qed

lemma exact_bound_numeral: "(numeral n :: int) \<le> 2 ^ 53 \<Longrightarrow> exact_bound (numeral n)"
  using exact_bound_of_int [of "numeral n"] by simp

lemma exact_bound_one: "exact_bound 1"
  using exact_bound_of_int [of 1] by simp

lemma exact_bound_powi2: "- 1074 \<le> k \<Longrightarrow> k < 1024 \<Longrightarrow> exact_bound (2 powi k)"
  by (simp only: exact_bound_def fround_pow2 powi2_less_iff) simp

lemma fadd_within:
  "\<lbrakk>fwithin A a; fwithin B b; A + B \<le> C; exact_bound C\<rbrakk> \<Longrightarrow> fwithin C (fadd a b)"
proof -
  assume as: "fwithin A a" "fwithin B b" "A + B \<le> C" "exact_bound C"
  then obtain x y where "a = Fin x" "b = Fin y" "\<bar>x\<bar> \<le> A" "\<bar>y\<bar> \<le> B" by (auto simp: fwithin_cases)
  moreover from this as(3) have "\<bar>x + y\<bar> \<le> C" by linarith
  ultimately show ?thesis using rnd_within [OF as(4)] by (simp add: fadd_def)
qed

lemma fneg_within: "fwithin A a \<Longrightarrow> fwithin A (fneg a)"
  by (auto simp: fneg_def fwithin_cases)

lemma fsub_within:
  "\<lbrakk>fwithin A a; fwithin B b; A + B \<le> C; exact_bound C\<rbrakk> \<Longrightarrow> fwithin C (fsub a b)"
  unfolding fsub_def by (rule fadd_within) (auto intro: fneg_within)

lemma fmul_within:
  "\<lbrakk>fwithin A a; fwithin B b; A * B \<le> C; exact_bound C\<rbrakk> \<Longrightarrow> fwithin C (fmul a b)"
proof -
  assume as: "fwithin A a" "fwithin B b" "A * B \<le> C" "exact_bound C"
  then obtain x y where xy: "a = Fin x" "b = Fin y" "\<bar>x\<bar> \<le> A" "\<bar>y\<bar> \<le> B" by (auto simp: fwithin_cases)
  then have "\<bar>x * y\<bar> \<le> A * B" unfolding abs_mult by (intro mult_mono) auto
  then have "\<bar>x * y\<bar> \<le> C" using as(3) by (rule order_trans)
  then show ?thesis using xy rnd_within [OF as(4)] by (simp add: fmul_def)
qed

text \<open>Signs: sums and finite products of values that are not negative.\<close>

lemma fpositive_simps [simp]:
  "fpositive (Fin x) \<longleftrightarrow> 0 \<le> x" "fpositive PInf" "\<not> fpositive NInf" "\<not> fpositive NaN"
  by (simp_all add: fpositive_def)

lemma fpositive_cases: "fpositive a \<Longrightarrow> a = PInf \<or> (\<exists>x. a = Fin x \<and> 0 \<le> x)"
  by (cases a) auto

lemma rnd_nonneg: "0 \<le> x \<Longrightarrow> rnd x = PInf \<or> rnd x = Fin (fround x) \<and> 0 \<le> fround x"
  using fr.fr_nonneg [of x] by (auto simp: rnd_def Let_def)

lemma fpositive_rnd: "0 \<le> x \<Longrightarrow> fpositive (rnd x)"
  using rnd_nonneg [of x] by auto

lemma fpositive_fadd: "fpositive a \<Longrightarrow> fpositive b \<Longrightarrow> fpositive (fadd a b)"
  by (cases a; cases b) (auto simp: fadd_def fpositive_rnd)

lemma fpositive_fmul_fin: "0 \<le> x \<Longrightarrow> 0 \<le> y \<Longrightarrow> fpositive (fmul (Fin x) (Fin y))"
  by (simp add: fmul_def fpositive_rnd)

lemma fpositive_fmul_pos: "0 < x \<Longrightarrow> fpositive a \<Longrightarrow> fpositive (fmul (Fin x) a)"
  by (cases a) (auto simp: fmul_def inf_of_def fpositive_rnd)

lemma fadd_Fin_cases: "fpositive a \<Longrightarrow> fpositive b \<Longrightarrow> fadd a b = Fin z \<Longrightarrow>
    \<exists>x y. a = Fin x \<and> b = Fin y \<and> 0 \<le> x \<and> 0 \<le> y \<and> z = fround (x + y)"
  by (cases a; cases b) (auto simp: fadd_def rnd_def Let_def split: if_splits)

text \<open>
  The finite \<open>float64\<close> values lie on the grid of the smallest subnormal, and rounding a
  half of one makes it strictly smaller; repeated halving therefore reaches zero.
\<close>

definition grid_val :: "nat \<Rightarrow> rat" where
  "grid_val m = rat_of_nat m * 2 powi (- 1074)"

lemma grid_val_less_iff [simp]: "grid_val m < grid_val n \<longleftrightarrow> m < n"
  by (simp only: grid_val_def mult_less_cancel_right_pos zero_less_power_int zero_less_numeral of_nat_less_iff)

lemma grid_val_le_iff [simp]: "grid_val m \<le> grid_val n \<longleftrightarrow> m \<le> n"
  by (simp flip: not_less)

lemma fround_on_grid: "0 \<le> x \<Longrightarrow> \<exists>m. fround x = grid_val m"
proof (cases "x = 0")
  case True
  then show ?thesis by (intro exI [of _ 0]) (simp add: grid_val_def)
next
  case False
  assume "0 \<le> x"
  let ?q = "ulp_exp x" and ?n = "round_even (x / 2 powi (ulp_exp x))"
  have q: "- 1074 \<le> ?q" by (simp add: ulp_exp_def)
  have "0 \<le> fround x" using \<open>0 \<le> x\<close> by (rule fr.fr_nonneg)
  moreover have eq: "fround x = of_int ?n * 2 powi ?q" using False by (simp add: fround_def)
  moreover have "(0 :: rat) < 2 powi ?q" by simp
  ultimately have n: "0 \<le> ?n" by (metis linorder_not_less mult_neg_pos of_int_less_0_iff)
  have "(2 :: rat) powi (?q + 1074 + - 1074) = 2 powi (?q + 1074) * 2 powi (- 1074)"
    by (rule power_int_add) simp
  then have "(2 :: rat) powi ?q = 2 powi (?q + 1074) * 2 powi (- 1074)" by (simp only: add.assoc) simp
  also have "\<dots> = 2 ^ nat (?q + 1074) * 2 powi (- 1074)" using q by (simp add: power_int_def)
  finally have "fround x = rat_of_nat (nat ?n * 2 ^ nat (?q + 1074)) * 2 powi (- 1074)"
    using eq n by (simp del: power_int_minus_left)
  then show ?thesis unfolding grid_val_def by (rule exI)
qed

lemma fround_half_less:
  assumes "0 < m"
  shows "fround (grid_val m / 2) < grid_val m"
proof (cases "m = 1")
  case True
  have x: "grid_val m / 2 = 2 powi (- 1075)" using True by (simp add: grid_val_def power_int_diff flip: power_int_add)
  have "flog2 (2 powi (- 1075)) = - 1075" by (rule flog2_unique) (simp_all only: powi2_less_iff)
  then have "ulp_exp (2 powi (- 1075)) = - 1074" by (simp add: ulp_exp_def)
  then have "fround (2 powi (- 1075)) = of_int (round_even (2 powi (- 1075) / 2 powi (- 1074))) * 2 powi (- 1074)"
    by (simp add: fround_def del: power_int_minus_left)
  also have "(2 :: rat) powi (- 1075) / 2 powi (- 1074) = 1 / 2" by (simp flip: power_int_diff)
  also have "\<lfloor>1 / 2 :: rat\<rfloor> = 0" by (simp add: floor_eq_iff)
  then have "round_even (1 / 2 :: rat) = 0" by (simp add: round_even_def)
  finally show ?thesis using True x by (simp add: grid_val_def)
next
  case False
  let ?y = "grid_val m / 2"
  have y: "0 < ?y" using assms by (simp add: grid_val_def)
  have err: "fround ?y \<le> ?y + 2 powi (ulp_exp ?y) / 2" using fround_error [of ?y] y by linarith
  consider "ulp_exp ?y = - 1074" | "ulp_exp ?y = flog2 ?y - 52"
    using abs_of_pos [OF y] by (metis max_def ulp_exp_def)
  then have "2 powi (ulp_exp ?y) / 2 < ?y"
  proof cases
    case 1
    have "rat_of_nat 1 < rat_of_nat m" using assms False by (simp only: of_nat_less_iff)
    then have "1 * 2 powi (- 1074) < rat_of_nat m * (2 :: rat) powi (- 1074)"
      by (intro mult_strict_right_mono) simp_all
    then have "2 powi (- 1074) / 2 < grid_val m / 2"
      unfolding grid_val_def mult_1 by (rule divide_strict_right_mono) simp
    then show ?thesis by (simp only: 1)
  next
    case 2
    have "(2 :: rat) powi (flog2 ?y - 52) / 2 < 2 powi (flog2 ?y)"
      by (simp add: power_int_diff)
    also have "\<dots> \<le> ?y" by (rule flog2_bounds(1) [OF y])
    finally show ?thesis by (simp only: 2)
  qed
  with err show ?thesis by simp
qed

section \<open>Evaluation on literals\<close>

text \<open>
  The rewrite rules \<open>float_eval\<close> compute a rounding of a literal fraction: the exponent from
  the lengths of the binary numerals, the rest by numeral arithmetic.
\<close>

named_theorems float_eval "evaluation of float64 operations on literals"

primrec num_len :: "num \<Rightarrow> int" where
  "num_len num.One = 1"
| "num_len (num.Bit0 n) = num_len n + 1"
| "num_len (num.Bit1 n) = num_len n + 1"

lemma num_len_bounds: "2 powi (num_len n - 1) \<le> (numeral n :: rat) \<and> (numeral n :: rat) + 1 \<le> 2 powi (num_len n)"
proof (induction n)
  case One
  then show ?case by simp
next
  case (Bit0 n)
  have "(2 :: rat) powi (num_len n + 1) = 2 * 2 powi (num_len n)" by (simp add: power_int_add)
  moreover have "(2 :: rat) powi (num_len n) = 2 * 2 powi (num_len n - 1)" by (simp add: power_int_diff)
  moreover have "(numeral (num.Bit0 n) :: rat) = 2 * numeral n" by (metis mult_2 numeral_Bit0)
  ultimately show ?case using Bit0 unfolding num_len.simps add_diff_cancel_right' by linarith
next
  case (Bit1 n)
  have "(2 :: rat) powi (num_len n + 1) = 2 * 2 powi (num_len n)" by (simp add: power_int_add)
  moreover have "(2 :: rat) powi (num_len n) = 2 * 2 powi (num_len n - 1)" by (simp add: power_int_diff)
  moreover have "(numeral (num.Bit1 n) :: rat) = 2 * numeral n + 1" by (metis mult_2 numeral_Bit1)
  ultimately show ?case using Bit1 unfolding num_len.simps add_diff_cancel_right' by linarith
qed

definition flog2_lit :: "num \<Rightarrow> num \<Rightarrow> int" where
  "flog2_lit a b =
     (let k = num_len a - num_len b in if 2 powi k \<le> (numeral a / numeral b :: rat) then k else k - 1)"

lemma flog2_literal: "flog2 (numeral a / numeral b) = flog2_lit a b"
proof -
  let ?k = "num_len a - num_len b" and ?x = "numeral a / numeral b :: rat"
  have a: "2 powi (num_len a - 1) \<le> (numeral a :: rat)" "(numeral a :: rat) < 2 powi (num_len a)"
    using num_len_bounds [of a] by linarith+
  have b: "2 powi (num_len b - 1) \<le> (numeral b :: rat)" "(numeral b :: rat) < 2 powi (num_len b)"
    using num_len_bounds [of b] by linarith+
  have "2 powi (?k - 1) * (numeral b :: rat) \<le> 2 powi (?k - 1) * 2 powi (num_len b)"
    using b(2) by (intro mult_left_mono) auto
  also have "\<dots> = 2 powi (num_len a - 1)" by (simp flip: power_int_add)
  also have "\<dots> \<le> numeral a" by (rule a(1))
  finally have lo: "2 powi (?k - 1) \<le> ?x" by (simp add: pos_le_divide_eq)
  have "(numeral a :: rat) < 2 powi (num_len a)" by (rule a(2))
  also have "\<dots> = 2 powi (?k + 1) * 2 powi (num_len b - 1)" by (simp flip: power_int_add)
  also have "\<dots> \<le> 2 powi (?k + 1) * numeral b" using b(1) by (intro mult_left_mono) auto
  finally have hi: "?x < 2 powi (?k + 1)" by (simp add: pos_divide_less_eq)
  show ?thesis
    using lo hi flog2_unique [of ?k ?x] flog2_unique [of "?k - 1" ?x] by (auto simp: flog2_lit_def Let_def)
qed

definition fround_lit :: "num \<Rightarrow> num \<Rightarrow> rat" where
  "fround_lit a b =
     (let q = max (flog2_lit a b - 52) (- 1074) in
      of_int (round_even ((numeral a / numeral b) / 2 powi q)) * 2 powi q)"

lemma fround_literal: "fround (numeral a / numeral b) = fround_lit a b"
  by (simp add: fround_def ulp_exp_def fround_lit_def flog2_literal Let_def)

lemma flog2_literals [float_eval]:
  "flog2 (numeral a / numeral b) = flog2_lit a b"
  "flog2 (numeral a) = flog2_lit a num.One"
  "flog2 (1 / numeral b) = flog2_lit num.One b"
  "flog2 1 = flog2_lit num.One num.One"
  using flog2_literal [of a b] flog2_literal [of a num.One] flog2_literal [of num.One b]
    flog2_literal [of num.One num.One] by simp_all

lemma fround_literals [float_eval]:
  "fround (numeral a / numeral b) = fround_lit a b"
  "fround (numeral a) = fround_lit a num.One"
  "fround (1 / numeral b) = fround_lit num.One b"
  "fround (- x) = - fround x"
  using fround_literal [of a b] fround_literal [of a num.One] fround_literal [of num.One b]
  by (simp_all add: fround_uminus)

lemma round_even_quotient:
  assumes "0 < b"
  shows "round_even (of_int a / of_int b) =
    (let n = a div b; d = 2 * (a mod b) in
     if d < b then n else if b < d then n + 1 else if even n then n else n + 1)"
proof -
  have f: "\<lfloor>of_int a / of_int b :: rat\<rfloor> = a div b" by (rule floor_divide_of_int_eq)
  have "(of_int a :: rat) = of_int (a div b * b + a mod b)" by simp
  also have "\<dots> = of_int (a div b) * of_int b + of_int (a mod b)" by (simp only: of_int_add of_int_mult)
  finally have d: "of_int a / of_int b - of_int (a div b) = (of_int (a mod b) / of_int b :: rat)"
    using assms by (simp add: field_simps)
  have "(of_int u / of_int b < (1 / 2 :: rat)) = ((of_int (2 * u) :: rat) < of_int b)"
    "((1 / 2 :: rat) < of_int u / of_int b) = ((of_int b :: rat) < of_int (2 * u))" for u
    using assms by (auto simp: field_simps)
  then have c: "of_int u / of_int b < (1 / 2 :: rat) \<longleftrightarrow> 2 * u < b"
    "(1 / 2 :: rat) < of_int u / of_int b \<longleftrightarrow> b < 2 * u" for u
    by (simp_all only: of_int_less_iff)
  show ?thesis unfolding round_even_def f d Let_def c by simp
qed

lemma round_even_literals [float_eval]:
  "round_even (numeral a / numeral b) =
    (let n = numeral a div numeral b :: int; d = 2 * (numeral a mod numeral b) :: int in
     if d < numeral b then n else if numeral b < d then n + 1 else if even n then n else n + 1)"
  "round_even (1 / numeral b) =
    (let n = 1 div numeral b :: int; d = 2 * (1 mod numeral b) :: int in
     if d < numeral b then n else if numeral b < d then n + 1 else if even n then n else n + 1)"
  "round_even (numeral a) = numeral a" "round_even 1 = 1" "round_even 0 = 0"
  by (rule round_even_quotient [of "numeral b" "numeral a", unfolded of_int_numeral], rule zero_less_numeral,
      rule round_even_quotient [of "numeral b" 1, unfolded of_int_numeral of_int_1], rule zero_less_numeral,
      rule round_even_of_int [of "numeral a", unfolded of_int_numeral],
      rule round_even_of_int [of 1, unfolded of_int_1], rule round_even_of_int [of 0, unfolded of_int_0])

lemmas [float_eval] = f64_ops_Fin flog2_lit_def fround_lit_def Let_def rnd_def

end
