(* ===== verification/GoRand.thy ===== *)
theory GoRand
  imports GoFloat
begin

text \<open>
  The platform the generators run on, and \<open>math/rand\<close> on top of it. What Go leaves to
  the platform (the elementary functions of \<open>math\<close>, out-of-range conversions) and the
  seeded source (an additive generator driven by a table of the standard library) are
  fields of a record that every generator takes; \<open>Int63\<close>, \<open>Int31\<close>, \<open>Float64\<close> and
  \<open>Intn\<close> are modelled on the source as the library writes them.
\<close>

unbundle bit_operations_syntax

section \<open>The platform\<close>

record platform =
  pl_source :: "u64 \<Rightarrow> nat \<Rightarrow> u64"  \<comment> \<open>seed, draw number: the raw 64 bits of the source\<close>
  pl_exp :: "f64 \<Rightarrow> f64"
  pl_log :: "f64 \<Rightarrow> f64"
  pl_sqrt :: "f64 \<Rightarrow> f64"
  pl_cos :: "f64 \<Rightarrow> f64"
  pl_pow :: "f64 \<Rightarrow> f64 \<Rightarrow> f64"
  pl_conv :: "f64 \<Rightarrow> u64"            \<comment> \<open>\<open>uint64(f)\<close> for \<open>f\<close> out of range\<close>

section \<open>A seeded generator\<close>

text \<open>\<open>rand.New(rand.NewSource(seed))\<close>: the seed and the number of draws made so far.\<close>

record go_rand =
  rd_seed :: u64
  rd_pos :: nat

definition new_rand :: "u64 \<Rightarrow> go_rand" where
  "new_rand seed = \<lparr>rd_seed = seed, rd_pos = 0\<rparr>"

definition advance :: "go_rand \<Rightarrow> go_rand" where
  "advance r = r\<lparr>rd_pos := Suc (rd_pos r)\<rparr>"

definition raw63 :: "'a platform_scheme \<Rightarrow> go_rand \<Rightarrow> nat" where
  "raw63 E r = unat (pl_source E (rd_seed r) (rd_pos r) AND 0x7fffffffffffffff)"

definition int63 :: "'a platform_scheme \<Rightarrow> go_rand \<Rightarrow> nat \<times> go_rand" where
  "int63 E r = (raw63 E r, advance r)"

definition int31 :: "'a platform_scheme \<Rightarrow> go_rand \<Rightarrow> nat \<times> go_rand" where
  "int31 E r = (raw63 E r div 2 ^ 32, advance r)"

text \<open>\<open>Float64\<close> draws again in the case that the quotient rounds up to one.\<close>

definition unit_of :: "nat \<Rightarrow> f64" where
  "unit_of v = fdiv (f64_of_int (int v)) (Fin (2 ^ 63))"

partial_function (option) float64 :: "'a platform_scheme \<Rightarrow> go_rand \<Rightarrow> (f64 \<times> go_rand) option" where
  "float64 E r =
     (if feq (unit_of (raw63 E r)) (Fin 1) then float64 E (advance r)
      else Some (unit_of (raw63 E r), advance r))"

partial_function (option) int31n_reject ::
  "'a platform_scheme \<Rightarrow> nat \<Rightarrow> go_rand \<Rightarrow> (nat \<times> go_rand) option" where
  "int31n_reject E bound r =
     (case int31 E r of (v, r') \<Rightarrow>
        if bound < v then int31n_reject E bound r' else Some (v, r'))"

text \<open>
  \<open>Intn(n)\<close> for \<open>0 < n < 2 ^ 31\<close>, the only arguments the program has (all are constants):
  a mask for powers of two, else rejection above the largest multiple of \<open>n\<close>.
\<close>

definition intn :: "'a platform_scheme \<Rightarrow> nat \<Rightarrow> go_rand \<Rightarrow> (nat \<times> go_rand) option" where
  "intn E n r =
     (if (n :: nat) AND (n - 1) = 0
      then (case int31 E r of (v, r') \<Rightarrow> Some (v AND (n - 1), r'))
      else do { (v, r') \<leftarrow> int31n_reject E (2 ^ 31 - 1 - 2 ^ 31 mod n) r; Some (v mod n, r') })"

section \<open>Ranges\<close>

lemma raw63_less: "raw63 E r < 2 ^ 63"
proof -
  have "pl_source E (rd_seed r) (rd_pos r) AND 0x7fffffffffffffff \<le> (0x7fffffffffffffff :: u64)"
    by (rule word_and_le1)
  then have "raw63 E r \<le> unat (0x7fffffffffffffff :: u64)"
    unfolding raw63_def by (simp only: word_le_nat_alt)
  then show ?thesis by simp
qed

lemma int31_less: "int31 E r = (v, r') \<Longrightarrow> v < 2 ^ 31"
  using raw63_less [of E r] by (auto simp: int31_def)

lemma advance_simps [simp]:
  "rd_seed (advance r) = rd_seed r" "rd_pos (advance r) = Suc (rd_pos r)"
  by (simp_all add: advance_def)

lemma new_rand_simps [simp]: "rd_seed (new_rand s) = s" "rd_pos (new_rand s) = 0"
  by (simp_all add: new_rand_def)

text \<open>The value \<open>Float64\<close> tests: never above one, and below it for all but the top 1024 draws.\<close>

lemma unit_of_eq:
  assumes "v < 2 ^ 63"
  shows "unit_of v = Fin (fround (fround (rat_of_nat v) / 2 ^ 63))"
    "0 \<le> fround (rat_of_nat v) / 2 ^ 63" "fround (rat_of_nat v) / 2 ^ 63 \<le> 1"
proof -
  have "rat_of_nat v \<le> rat_of_nat (2 ^ 63)" using assms by (simp only: of_nat_le_iff)
  then have v: "\<bar>rat_of_nat v\<bar> \<le> 2 powi 63" by simp
  have b: "rnd (rat_of_nat v) = Fin (fround (rat_of_nat v))" "\<bar>fround (rat_of_nat v)\<bar> \<le> 2 powi 63"
    using rnd_within [OF exact_bound_powi2 v] by auto
  have n: "0 \<le> fround (rat_of_nat v)" by (rule fr.fr_nonneg) simp
  show q: "0 \<le> fround (rat_of_nat v) / 2 ^ 63" "fround (rat_of_nat v) / 2 ^ 63 \<le> 1"
    using n b(2) by simp_all
  then have "rnd (fround (rat_of_nat v) / 2 ^ 63) = Fin (fround (fround (rat_of_nat v) / 2 ^ 63))"
    using rnd_within [OF exact_bound_one, of "fround (rat_of_nat v) / 2 ^ 63"] by simp
  then show "unit_of v = Fin (fround (fround (rat_of_nat v) / 2 ^ 63))"
    using b(1) by (simp add: unit_of_def f64_of_int_def fdiv_def)
qed

lemma unit_of_range: "v < 2 ^ 63 \<Longrightarrow> \<exists>x. unit_of v = Fin x \<and> 0 \<le> x \<and> x \<le> 1"
  using unit_of_eq [of v] fr.fr_nonneg fr.fr_le_of_int [of "fround (rat_of_nat v) / 2 ^ 63" 1] by simp

lemma unit_of_less_one:
  assumes "v \<le> 2 ^ 63 - 1024"
  shows "\<exists>x. unit_of v = Fin x \<and> 0 \<le> x \<and> x < 1"
proof -
  let ?m = "of_int (2 ^ 53 - 1) :: rat"
  have v: "v < 2 ^ 63" using assms by simp
  have "rat_of_nat v \<le> rat_of_nat (2 ^ 63 - 1024)" using assms by (simp only: of_nat_le_iff)
  then have "fround (rat_of_nat v) \<le> fround (?m * 2 powi 10)" by (intro fround_mono) simp
  also have "\<dots> = ?m * 2 powi 10" by (rule fround_exact) simp_all
  finally have "fround (rat_of_nat v) / 2 ^ 63 \<le> ?m * 2 powi (- 53)" by simp
  then have "fround (fround (rat_of_nat v) / 2 ^ 63) \<le> fround (?m * 2 powi (- 53))"
    by (rule fround_mono)
  also have "\<dots> = ?m * 2 powi (- 53)" by (rule fround_exact) simp_all
  finally have "fround (fround (rat_of_nat v) / 2 ^ 63) < 1" by (rule le_less_trans) simp
  then show ?thesis using unit_of_eq(1,2) [OF v] fr.fr_nonneg by blast
qed

lemma float64_range:
  assumes "float64 E r = Some (u, r')"
  shows "(\<exists>x. u = Fin x \<and> 0 \<le> x \<and> x < 1) \<and> rd_seed r' = rd_seed r \<and> rd_pos r < rd_pos r'"
proof -
  have "\<exists>x. fst w = Fin x \<and> 0 \<le> x \<and> x < 1 \<and> rd_seed (snd w) = rd_seed r \<and> rd_pos r < rd_pos (snd w)"
    if "float64 E r = Some w" for w
  proof (rule float64.raw_induct [where P = "\<lambda>E r w. \<exists>x. fst w = Fin x \<and> 0 \<le> x \<and> x < 1 \<and>
      rd_seed (snd w) = rd_seed r \<and> rd_pos r < rd_pos (snd w)", OF _ that])
    fix f and E :: "'a platform_scheme" and r w
    assume IH: "\<And>E r w. f E r = Some w \<Longrightarrow> \<exists>x. fst w = Fin x \<and> 0 \<le> x \<and> x < 1 \<and>
        rd_seed (snd w) = rd_seed r \<and> rd_pos r < rd_pos (snd w)"
      and eq: "(if feq (unit_of (raw63 E r)) (Fin 1) then f E (advance r)
        else Some (unit_of (raw63 E r), advance r)) = Some w"
    obtain x where x: "unit_of (raw63 E r) = Fin x" "0 \<le> x" "x \<le> 1"
      using unit_of_range [OF raw63_less] by blast
    show "\<exists>x. fst w = Fin x \<and> 0 \<le> x \<and> x < 1 \<and> rd_seed (snd w) = rd_seed r \<and> rd_pos r < rd_pos (snd w)"
    proof (cases "x = 1")
      case True
      with eq x have "f E (advance r) = Some w" by (simp add: feq_def)
      from IH [OF this] show ?thesis by auto
    next
      case False
      with eq x show ?thesis by (auto simp: feq_def)
    qed
  qed
  from this [OF assms] show ?thesis by auto
qed

text \<open>
  A source is fair when, for every seed, stretches of six draws from the second quarter of
  the range keep coming. The resampling loops then always return: such a stretch covers a
  whole round of the longest of them, the one of the gamma sampler.
\<close>

definition draw63 :: "'a platform_scheme \<Rightarrow> u64 \<Rightarrow> nat \<Rightarrow> nat" where
  "draw63 E s k = raw63 E \<lparr>rd_seed = s, rd_pos = k\<rparr>"

definition quarter_draws :: "'a platform_scheme \<Rightarrow> u64 \<Rightarrow> nat \<Rightarrow> bool" where
  "quarter_draws E s k \<longleftrightarrow> (\<forall>i < 6. 2 ^ 61 \<le> draw63 E s (k + i) \<and> draw63 E s (k + i) \<le> 2 ^ 62)"

definition fair_source :: "'a platform_scheme \<Rightarrow> bool" where
  "fair_source E \<longleftrightarrow> (\<forall>s n. \<exists>k \<ge> n. quarter_draws E s k)"

lemma raw63_draw63: "raw63 E r = draw63 E (rd_seed r) (rd_pos r)"
  by (simp add: draw63_def raw63_def)

lemma fair_source_obtain:
  assumes "fair_source E"
  obtains k where "rd_pos r \<le> k" "draw63 E (rd_seed r) k \<le> 2 ^ 62"
proof -
  obtain k where "rd_pos r \<le> k" "quarter_draws E (rd_seed r) k"
    using assms unfolding fair_source_def by blast
  then show ?thesis by (intro that [of k]) (auto simp: quarter_draws_def dest: spec [of _ 0])
qed

lemma float64_accepts: "draw63 E (rd_seed r) (rd_pos r) \<le> 2 ^ 62 \<Longrightarrow>
    float64 E r = Some (unit_of (raw63 E r), advance r)"
  using unit_of_less_one [of "raw63 E r"] by (subst float64.simps) (auto simp: feq_def raw63_draw63)

lemma unit_of_low_half: "v \<le> 2 ^ 62 \<Longrightarrow> unit_of v = Fin x \<Longrightarrow> x \<le> 1 / 2"
proof -
  assume v: "v \<le> 2 ^ 62" and x: "unit_of v = Fin x"
  have "rat_of_nat v \<le> rat_of_nat (2 ^ 62)" using v by (simp only: of_nat_le_iff)
  then have "fround (rat_of_nat v) \<le> fround (2 powi 62)" by (intro fround_mono) simp
  then have "fround (rat_of_nat v) \<le> 2 powi 62" by (simp only: fround_pow2)
  then have "fround (rat_of_nat v) / 2 ^ 63 \<le> 2 powi (- 1)" by simp
  then have "fround (fround (rat_of_nat v) / 2 ^ 63) \<le> fround (2 powi (- 1))" by (rule fround_mono)
  then have "fround (fround (rat_of_nat v) / 2 ^ 63) \<le> 2 powi (- 1)" by (simp only: fround_pow2)
  then show ?thesis using unit_of_eq(1) [of v] v x by simp
qed

lemma unit_of_upper_quarters: "2 ^ 61 \<le> v \<Longrightarrow> v < 2 ^ 63 \<Longrightarrow> unit_of v = Fin x \<Longrightarrow> 1 / 4 \<le> x"
proof -
  assume v: "2 ^ 61 \<le> v" "v < 2 ^ 63" and x: "unit_of v = Fin x"
  have "rat_of_nat (2 ^ 61) \<le> rat_of_nat v" using v(1) by (simp only: of_nat_le_iff)
  then have "fround (2 powi 61) \<le> fround (rat_of_nat v)" by (intro fround_mono) simp
  then have "2 powi 61 \<le> fround (rat_of_nat v)" by (simp only: fround_pow2)
  then have "2 powi (- 2) \<le> fround (rat_of_nat v) / 2 ^ 63" by simp
  then have "fround (2 powi (- 2)) \<le> fround (fround (rat_of_nat v) / 2 ^ 63)" by (rule fround_mono)
  then have "2 powi (- 2) \<le> fround (fround (rat_of_nat v) / 2 ^ 63)" by (simp only: fround_pow2)
  then show ?thesis using unit_of_eq(1) [OF v(2)] x by simp
qed

text \<open>
  \<open>Float64\<close> returns by the next low draw \<open>k\<close>: either before it, or with that draw's value,
  which is at most one half.
\<close>

lemma float64_until:
  assumes "rd_pos r \<le> k" "draw63 E (rd_seed r) k \<le> 2 ^ 62"
  shows "\<exists>x r'. float64 E r = Some (Fin x, r') \<and> 0 \<le> x \<and> x < 1 \<and> rd_seed r' = rd_seed r \<and>
    rd_pos r < rd_pos r' \<and> rd_pos r' \<le> Suc k \<and> (rd_pos r' \<le> k \<or> x \<le> 1 / 2)"
  using assms
proof (induction "k - rd_pos r" arbitrary: r)
  case 0
  then have low: "raw63 E r \<le> 2 ^ 62" and "rd_pos r = k" by (simp_all add: raw63_draw63)
  then obtain x where "unit_of (raw63 E r) = Fin x" "0 \<le> x" "x < 1"
    using unit_of_less_one [of "raw63 E r"] by auto
  then show ?case using 0 low float64_accepts [of E r] unit_of_low_half [of "raw63 E r" x]
    by (simp add: raw63_draw63)
next
  case (Suc n)
  show ?case
  proof (cases "feq (unit_of (raw63 E r)) (Fin 1)")
    case True
    have "n = k - rd_pos (advance r)" "rd_pos (advance r) \<le> k" using Suc.hyps(2) by simp_all
    from Suc.hyps(1) [OF this] Suc.prems(2)
    obtain x r' where "float64 E (advance r) = Some (Fin x, r')" "0 \<le> x" "x < 1"
      "rd_seed r' = rd_seed r" "Suc (rd_pos r) < rd_pos r'" "rd_pos r' \<le> Suc k" "rd_pos r' \<le> k \<or> x \<le> 1 / 2"
      by (metis advance_simps)
    with True show ?thesis by (subst float64.simps) auto
  next
    case False
    then have "float64 E r = Some (unit_of (raw63 E r), advance r)" by (subst float64.simps) simp
    with float64_range [OF this] Suc.hyps(2) show ?thesis by auto
  qed
qed

lemma float64_returns:
  assumes "fair_source E"
  obtains x r' where "float64 E r = Some (Fin x, r')" "0 \<le> x" "x < 1"
    "rd_seed r' = rd_seed r" "rd_pos r < rd_pos r'"
proof -
  obtain k where "rd_pos r \<le> k" "draw63 E (rd_seed r) k \<le> 2 ^ 62"
    using fair_source_obtain [OF assms] .
  from float64_until [OF this] that show ?thesis by blast
qed

text \<open>Around a stretch of quarter draws: \<open>Float64\<close> never runs past it, and inside takes one draw.\<close>

lemma float64_window:
  assumes "quarter_draws E (rd_seed r) k" "rd_pos r < k + 6"
  shows "\<exists>x r'. float64 E r = Some (Fin x, r') \<and> 0 \<le> x \<and> x < 1 \<and> rd_seed r' = rd_seed r \<and>
    rd_pos r < rd_pos r' \<and> rd_pos r' \<le> Suc (max (rd_pos r) k) \<and> (k \<le> rd_pos r \<longrightarrow> 1 / 4 \<le> x \<and> x \<le> 1 / 2)"
proof (cases "k \<le> rd_pos r")
  case False
  have "draw63 E (rd_seed r) k \<le> 2 ^ 62"
    using assms(1) by (auto simp: quarter_draws_def dest: spec [of _ 0])
  with False float64_until [of r k E] show ?thesis by auto
next
  case True
  then have "rd_pos r = k + (rd_pos r - k)" "rd_pos r - k < 6" using assms(2) by simp_all
  then have d: "2 ^ 61 \<le> raw63 E r" "raw63 E r \<le> 2 ^ 62"
    using assms(1) unfolding quarter_draws_def raw63_draw63 by metis+
  then obtain x where x: "unit_of (raw63 E r) = Fin x" "0 \<le> x" "x < 1"
    using unit_of_less_one [of "raw63 E r"] by auto
  have "1 / 4 \<le> x" "x \<le> 1 / 2"
    using unit_of_upper_quarters [OF d(1) raw63_less x(1)] unit_of_low_half [OF d(2) x(1)] by blast+
  with x d(2) float64_accepts [of E r] show ?thesis by (auto simp: raw63_draw63)
qed

section \<open>\<open>Intn\<close>\<close>

lemma int31n_reject_returns:
  assumes "fair_source E" "2 ^ 30 \<le> bound"
  shows "\<exists>w. int31n_reject E bound r = Some w"
proof -
  obtain k where k: "rd_pos r \<le> k" "draw63 E (rd_seed r) k \<le> 2 ^ 62"
    using fair_source_obtain [OF assms(1)] .
  then show ?thesis
  proof (induction "k - rd_pos r" arbitrary: r)
    case 0
    then have "raw63 E r \<le> 2 ^ 62" by (simp add: raw63_draw63)
    then have "raw63 E r div 2 ^ 32 \<le> 2 ^ 62 div 2 ^ 32" by (rule div_le_mono)
    then have "raw63 E r div 2 ^ 32 \<le> 2 ^ 30" by simp
    with assms(2) show ?case by (subst int31n_reject.simps) (simp add: int31_def)
  next
    case (Suc n)
    then have "\<exists>w. int31n_reject E bound (advance r) = Some w" by (intro Suc.hyps(1)) auto
    then show ?case by (subst int31n_reject.simps) (simp add: int31_def)
  qed
qed

lemma rejection_bound: "0 < n \<Longrightarrow> n < 2 ^ 31 \<Longrightarrow> 2 ^ 30 \<le> (2 ^ 31 - 1 - 2 ^ 31 mod n :: nat)"
proof (cases "n \<le> 2 ^ 30")
  case True
  assume "0 < n" "n < 2 ^ 31"
  then have "2 ^ 31 mod n < n" by simp
  moreover have "(2 :: nat) ^ 31 = 2 ^ 30 + 2 ^ 30" by simp
  ultimately show ?thesis using True by linarith
next
  case False
  assume "0 < n" "n < 2 ^ 31"
  with False have "(2 ^ 31 :: nat) mod n = 2 ^ 31 - n"
    by (subst mod_if) (simp add: mod_if)
  with False show ?thesis by simp
qed

lemma intn_less: "0 < n \<Longrightarrow> intn E n r = Some (v, r') \<Longrightarrow> v < n"
proof -
  assume n: "0 < n" and v: "intn E n r = Some (v, r')"
  have "x AND (n - 1) \<le> n - 1" for x :: nat
    using AND_upper2 [of "int (n - 1)" "int x"] by (simp flip: of_nat_and_eq)
  then have "x AND (n - 1) < n" for x using n by (metis Suc_pred' le_imp_less_Suc)
  with n v show "v < n"
    by (auto simp: intn_def bind_eq_Some_conv split: if_splits prod.splits)
qed

lemma intn_returns:
  assumes "fair_source E" "0 < n" "n < 2 ^ 31"
  obtains v r' where "intn E n r = Some (v, r')" "v < n"
proof -
  obtain w where "int31n_reject E (2 ^ 31 - 1 - 2 ^ 31 mod n) r = Some w"
    using int31n_reject_returns [OF assms(1) rejection_bound [OF assms(2,3)]] by blast
  then have "\<exists>v r'. intn E n r = Some (v, r')"
    by (cases w) (auto simp: intn_def split: prod.splits)
  then show ?thesis using that intn_less [OF assms(2)] by blast
qed

end
