(* ===== verification/GoBytes.thy ===== *)
theory GoBytes
  imports Prelude "HOL-Library.Char_ord" "HOL-Library.List_Lexorder"
begin

text \<open>
  The byte-level library functions the program uses: decimal printing
  (\<open>fmt.Sprint\<close>, \<open>%d\<close>) and \<open>strconv.ParseUint\<close>, \<open>encoding/hex\<close>, big-endian words
  (\<open>binary.BigEndian.Uint64\<close>) and SHA-256, with their round trips and lengths.
\<close>

unbundle bit_operations_syntax

section \<open>Decimal numbers\<close>

definition digit_char :: "nat \<Rightarrow> char" where
  "digit_char d = char_of (48 + d)"

fun dec_nat :: "nat \<Rightarrow> string" where
  "dec_nat n = (if n < 10 then [digit_char n] else dec_nat (n div 10) @ [digit_char (n mod 10)])"

declare dec_nat.simps [simp del]

definition dec_int :: "int \<Rightarrow> string" where
  "dec_int i = (if i < 0 then CHR ''-'' # dec_nat (nat (- i)) else dec_nat (nat i))"

definition is_digit :: "char \<Rightarrow> bool" where
  "is_digit c \<longleftrightarrow> 48 \<le> (of_char c :: nat) \<and> (of_char c :: nat) \<le> 57"

definition digit_val :: "char \<Rightarrow> nat" where
  "digit_val c = of_char c - 48"

text \<open>
  \<open>strconv.ParseUint(s, 10, 64)\<close>: \<open>None\<close> for its error results (empty string, a
  character that is no digit, a value out of range).
\<close>

fun parse_digits :: "nat \<Rightarrow> string \<Rightarrow> nat option" where
  "parse_digits acc [] = Some acc"
| "parse_digits acc (c # cs) =
     (if is_digit c then parse_digits (acc * 10 + digit_val c) cs else None)"

definition parse_uint64 :: "string \<Rightarrow> u64 option" where
  "parse_uint64 s =
     (if s = [] then None
      else case parse_digits 0 s of
        None \<Rightarrow> None
      | Some n \<Rightarrow> if n < 2 ^ 64 then Some (of_nat n) else None)"

lemma of_char_digit_char [simp]: "d < 10 \<Longrightarrow> (of_char (digit_char d) :: nat) = 48 + d"
  by (simp add: digit_char_def)

lemma is_digit_digit_char [simp]: "d < 10 \<Longrightarrow> is_digit (digit_char d)"
  by (simp add: is_digit_def)

lemma digit_val_digit_char [simp]: "d < 10 \<Longrightarrow> digit_val (digit_char d) = d"
  by (simp add: digit_val_def)

lemma dec_nat_small: "n < 10 \<Longrightarrow> dec_nat n = [digit_char n]"
  by (subst dec_nat.simps) simp

lemma dec_nat_large: "10 \<le> n \<Longrightarrow> dec_nat n = dec_nat (n div 10) @ [digit_char (n mod 10)]"
  by (subst dec_nat.simps) simp

lemma dec_nat_nonempty [simp]: "dec_nat n \<noteq> []"
  by (subst dec_nat.simps) simp

lemma dec_nat_digits: "c \<in> set (dec_nat n) \<Longrightarrow> is_digit c"
proof (induction n rule: dec_nat.induct)
  case (1 n)
  show ?case
  proof (cases "n < 10")
    case True
    with 1 show ?thesis by (simp add: dec_nat_small)
  next
    case False
    with 1 show ?thesis by (auto simp: dec_nat_large)
  qed
qed

lemma parse_digits_append:
  "parse_digits acc (xs @ ys) = Option.bind (parse_digits acc xs) (\<lambda>a. parse_digits a ys)"
  by (induction xs arbitrary: acc) auto

lemma parse_digits_dec_nat: "parse_digits 0 (dec_nat n) = Some n"
proof (induction n rule: dec_nat.induct)
  case (1 n)
  show ?case
  proof (cases "n < 10")
    case True
    then show ?thesis by (simp add: dec_nat_small)
  next
    case False
    with 1 show ?thesis by (simp add: dec_nat_large parse_digits_append)
  qed
qed

lemma dec_nat_inj [simp]: "dec_nat m = dec_nat n \<longleftrightarrow> m = n"
  by (metis option.inject parse_digits_dec_nat)

lemma parse_uint64_dec: "parse_uint64 (dec_nat (unat w)) = Some w"
  using unsigned_less [of w, where 'a = nat] by (simp add: parse_uint64_def parse_digits_dec_nat)

section \<open>Bytes of strings, hexadecimal\<close>

definition bytes_of_string :: "string \<Rightarrow> bytes" where
  "bytes_of_string s = map (\<lambda>c. of_char c) s"

lemma length_bytes_of_string [simp]: "length (bytes_of_string s) = length s"
  by (simp add: bytes_of_string_def)

definition hex_char :: "nat \<Rightarrow> char" where
  "hex_char d = (if d < 10 then char_of (48 + d) else char_of (87 + d))"

definition hex_val :: "char \<Rightarrow> nat option" where
  "hex_val c =
     (let n = (of_char c :: nat) in
      if 48 \<le> n \<and> n \<le> 57 then Some (n - 48)
      else if 97 \<le> n \<and> n \<le> 102 then Some (n - 87)
      else if 65 \<le> n \<and> n \<le> 70 then Some (n - 55)
      else None)"

text \<open>\<open>hex.EncodeToString\<close>; \<open>hex.DecodeString\<close>, with \<open>None\<close> for its error.\<close>

definition hex_encode :: "bytes \<Rightarrow> string" where
  "hex_encode bs = concat (map (\<lambda>b. [hex_char (unat b div 16), hex_char (unat b mod 16)]) bs)"

fun hex_decode :: "string \<Rightarrow> bytes option" where
  "hex_decode [] = Some []"
| "hex_decode [c] = None"
| "hex_decode (c # d # cs) =
     (case (hex_val c, hex_val d) of
        (Some x, Some y) \<Rightarrow> map_option (\<lambda>bs. of_nat (16 * x + y) # bs) (hex_decode cs)
      | _ \<Rightarrow> None)"

lemma hex_val_hex_char [simp]: "d < 16 \<Longrightarrow> hex_val (hex_char d) = Some d"
  by (auto simp: hex_char_def hex_val_def)

lemma hex_decode_encode: "hex_decode (hex_encode bs) = Some bs"
proof (induction bs)
  case Nil
  then show ?case by (simp add: hex_encode_def)
next
  case (Cons b bs)
  have "unat b < 256" using unsigned_less [of b, where 'a = nat] by simp
  then have "hex_val (hex_char (unat b div 16)) = Some (unat b div 16)"
    by (intro hex_val_hex_char) linarith
  moreover have "(of_nat (16 * (unat b div 16) + unat b mod 16) :: 8 word) = b" by simp
  ultimately show ?case using Cons by (simp add: hex_encode_def)
qed

lemma hex_encode_inj: "hex_encode a = hex_encode b \<Longrightarrow> a = b"
  by (metis hex_decode_encode option.inject)

lemma hex_decode_length: "hex_decode s = Some bs \<Longrightarrow> length s = 2 * length bs"
  by (induction s arbitrary: bs rule: hex_decode.induct) (auto split: option.splits)

section \<open>Big-endian words\<close>

definition be_u64 :: "bytes \<Rightarrow> u64" where
  "be_u64 bs = of_nat (foldl (\<lambda>acc b. acc * 256 + unat b) 0 (take 8 bs))"

section \<open>SHA-256\<close>

text \<open>FIPS 180-4, on lists of 32-bit words and bytes.\<close>

definition rotr32 :: "nat \<Rightarrow> u32 \<Rightarrow> u32" where
  "rotr32 n x = drop_bit n x OR push_bit (32 - n) x"

definition sha_k :: "u32 list" where
  "sha_k =
    [1116352408, 1899447441, 3049323471, 3921009573, 961987163, 1508970993, 2453635748, 2870763221,
     3624381080, 310598401, 607225278, 1426881987, 1925078388, 2162078206, 2614888103, 3248222580,
     3835390401, 4022224774, 264347078, 604807628, 770255983, 1249150122, 1555081692, 1996064986,
     2554220882, 2821834349, 2952996808, 3210313671, 3336571891, 3584528711, 113926993, 338241895,
     666307205, 773529912, 1294757372, 1396182291, 1695183700, 1986661051, 2177026350, 2456956037,
     2730485921, 2820302411, 3259730800, 3345764771, 3516065817, 3600352804, 4094571909, 275423344,
     430227734, 506948616, 659060556, 883997877, 958139571, 1322822218, 1537002063, 1747873779,
     1955562222, 2024104815, 2227730452, 2361852424, 2428436474, 2756734187, 3204031479, 3329325298]"

datatype sha_state = Sha u32 u32 u32 u32 u32 u32 u32 u32

definition sha_init :: sha_state where
  "sha_init = Sha 1779033703 3144134277 1013904242 2773480762 1359893119 2600822924 528734635 1541459225"

definition sha_choose :: "u32 \<Rightarrow> u32 \<Rightarrow> u32 \<Rightarrow> u32" where
  "sha_choose x y z = (x AND y) XOR (NOT x AND z)"

definition sha_majority :: "u32 \<Rightarrow> u32 \<Rightarrow> u32 \<Rightarrow> u32" where
  "sha_majority x y z = (x AND y) XOR (x AND z) XOR (y AND z)"

text \<open>The message schedule: each new word from the words 2, 7, 15 and 16 before it.\<close>

definition sha_next_word :: "u32 list \<Rightarrow> u32" where
  "sha_next_word w =
     (let n = length w; x = w ! (n - 2); y = w ! (n - 15) in
      (rotr32 17 x XOR rotr32 19 x XOR drop_bit 10 x) + w ! (n - 7) +
      (rotr32 7 y XOR rotr32 18 y XOR drop_bit 3 y) + w ! (n - 16))"

fun sha_extend :: "nat \<Rightarrow> u32 list \<Rightarrow> u32 list" where
  "sha_extend 0 w = w"
| "sha_extend (Suc n) w = sha_extend n (w @ [sha_next_word w])"

fun sha_round :: "sha_state \<Rightarrow> u32 \<times> u32 \<Rightarrow> sha_state" where
  "sha_round (Sha a b c d e f g h) (k, w) =
     (let t1 = h + (rotr32 6 e XOR rotr32 11 e XOR rotr32 25 e) + sha_choose e f g + k + w;
          t2 = (rotr32 2 a XOR rotr32 13 a XOR rotr32 22 a) + sha_majority a b c
      in Sha (t1 + t2) a b c (d + t1) e f g)"

fun sha_add :: "sha_state \<Rightarrow> sha_state \<Rightarrow> sha_state" where
  "sha_add (Sha a b c d e f g h) (Sha a' b' c' d' e' f' g' h') =
     Sha (a + a') (b + b') (c + c') (d + d') (e + e') (f + f') (g + g') (h + h')"

definition sha_compress :: "sha_state \<Rightarrow> u32 list \<Rightarrow> sha_state" where
  "sha_compress s block = sha_add s (foldl sha_round s (zip sha_k (sha_extend 48 block)))"

fun be_words :: "bytes \<Rightarrow> u32 list" where
  "be_words (a # b # c # d # bs) =
     of_nat (((unat a * 256 + unat b) * 256 + unat c) * 256 + unat d) # be_words bs"
| "be_words _ = []"

definition be_bytes4 :: "u32 \<Rightarrow> bytes" where
  "be_bytes4 w = map (\<lambda>i. of_nat (unat w div 256 ^ i mod 256)) [3, 2, 1, 0]"

definition sha_pad :: "bytes \<Rightarrow> bytes" where
  "sha_pad m =
     (let n = length m in
      m @ [0x80] @ replicate ((119 - n mod 64) mod 64) 0 @
      map (\<lambda>i. of_nat (8 * n div 256 ^ i mod 256)) [7, 6, 5, 4, 3, 2, 1, 0])"

fun sha_blocks :: "nat \<Rightarrow> bytes \<Rightarrow> sha_state \<Rightarrow> sha_state" where
  "sha_blocks 0 m s = s"
| "sha_blocks (Suc n) m s = sha_blocks n (drop 64 m) (sha_compress s (be_words (take 64 m)))"

fun sha_digest :: "sha_state \<Rightarrow> bytes" where
  "sha_digest (Sha a b c d e f g h) = concat (map be_bytes4 [a, b, c, d, e, f, g, h])"

definition sha256 :: "bytes \<Rightarrow> bytes" where
  "sha256 m = (let p = sha_pad m in sha_digest (sha_blocks (length p div 64) p sha_init))"

lemma length_sha_digest: "length (sha_digest s) = 32"
  by (cases s) (simp add: be_bytes4_def)

lemma length_sha256 [simp]: "length (sha256 m) = 32"
  by (simp add: sha256_def Let_def length_sha_digest)

text \<open>Padding fills whole 64-byte blocks, so the block loop consumes all of it.\<close>

lemma length_sha_pad: "length (sha_pad m) mod 64 = 0"
proof -
  let ?r = "length m mod 64"
  have r: "?r < 64" by simp
  have "length (sha_pad m) = length m + (119 - ?r) mod 64 + 9"
    by (simp add: sha_pad_def Let_def)
  moreover have "(a + b mod 64 + 9) mod 64 = (a mod 64 + b + 9) mod (64 :: nat)" for a b
    by (rule mod_add_cong) (simp_all only: mod_add_left_eq mod_add_right_eq)
  ultimately have "length (sha_pad m) mod 64 = (?r + (119 - ?r) + 9) mod 64"
    by (simp only:)
  also have "?r + (119 - ?r) + 9 = 128" using r by linarith
  finally show ?thesis by simp
qed

end
