(* ===== verification/Distributions.thy ===== *)
theory Distributions
  imports GoRand GoBytes
begin

text \<open>
  \<open>internal/gen/distributions.go\<close>: hash-derived seeds, the samplers (Box-Muller,
  Marsaglia-Tsang gamma, Knuth's Poisson, negative binomial, log-normal,
  categorical) and the account index. A sampler returns \<open>None\<close> when its loop never
  stops; the lemmas give the ranges of the samples and show that the samplers return.
\<close>

section \<open>Seeds\<close>

text \<open>The operands of \<open>HashBytes(parts ...any)\<close> and their default formatting by \<open>fmt.Sprint\<close>.\<close>

datatype go_any = VStr string | VInt int | VUint u64 | VBool bool | VBytes bytes

fun join_sp :: "string list \<Rightarrow> string" where
  "join_sp [] = []"
| "join_sp [s] = s"
| "join_sp (s # t # ss) = s @ CHR '' '' # join_sp (t # ss)"

fun sprint :: "go_any \<Rightarrow> string" where
  "sprint (VStr s) = s"
| "sprint (VInt i) = dec_int i"
| "sprint (VUint w) = dec_nat (unat w)"
| "sprint (VBool b) = (if b then ''true'' else ''false'')"
| "sprint (VBytes bs) = CHR ''['' # join_sp (map (\<lambda>b. dec_nat (unat b)) bs) @ '']''"

definition hash_input :: "go_any list \<Rightarrow> string" where
  "hash_input parts = concat (map sprint parts)"

definition HashBytes :: "go_any list \<Rightarrow> bytes" where
  "HashBytes parts = sha256 (bytes_of_string (hash_input parts))"

definition HeightSeed :: "u64 \<Rightarrow> u64 \<Rightarrow> u64" where
  "HeightSeed baseSeed height = be_u64 (take 8 (HashBytes [VUint baseSeed, VUint height]))"

definition AddrHeightSeed :: "bytes \<Rightarrow> u64 \<Rightarrow> u64" where
  "AddrHeightSeed addr height = be_u64 (take 8 (HashBytes [VBytes addr, VUint height]))"

definition RngForHeight :: "u64 \<Rightarrow> u64 \<Rightarrow> go_rand" where
  "RngForHeight baseSeed height = new_rand (HeightSeed baseSeed height)"

definition RngForAddrHeight :: "bytes \<Rightarrow> u64 \<Rightarrow> go_rand" where
  "RngForAddrHeight addr height = new_rand (AddrHeightSeed addr height)"

text \<open>\<open>int(seed % uint64(n))\<close>, for \<open>n\<close> a slice length.\<close>

definition PickAccountIndex :: "u64 \<Rightarrow> nat \<Rightarrow> nat go" where
  "PickAccountIndex seed n =
     (if (of_nat n :: u64) = 0 then Panic IntegerDivideByZero
      else Ret (unat (seed mod of_nat n)))"

lemma length_HashBytes [simp]: "length (HashBytes parts) = 32"
  by (simp add: HashBytes_def)

lemma PickAccountIndex_in_range:
  assumes "0 < n" "n < 2 ^ 64"
  shows "\<exists>i. PickAccountIndex seed n = Ret i \<and> i < n"
proof -
  have n: "unat (of_nat n :: u64) = n" using assms(2) by (rule unat_of_nat_u64)
  then have "(of_nat n :: u64) \<noteq> 0" using assms(1) by auto
  moreover have "unat (seed mod of_nat n) < n" using n assms(1) by (simp add: unat_mod)
  ultimately show ?thesis by (simp add: PickAccountIndex_def)
qed

section \<open>Samplers\<close>

definition pi_times_2 :: rat where
  "pi_times_2 = 2 * (314159265358979323846264338327950288419716939937510582097494459 / 10 ^ 62)"

definition StandardNormal :: "'a platform_scheme \<Rightarrow> go_rand \<Rightarrow> (f64 \<times> go_rand) option" where
  "StandardNormal E r =
     do { (u1, r1) \<leftarrow> float64 E r;
          (u2, r2) \<leftarrow> float64 E r1;
          let u1 = (if flt u1 (fconst (1 / 10 ^ 12)) then fconst (1 / 10 ^ 12) else u1);
          Some (fmul (pl_sqrt E (fmul (Fin (- 2)) (pl_log E u1)))
                     (pl_cos E (fmul (fconst pi_times_2) u2)), r2) }"

text \<open>The inner loop of \<open>sampleGamma\<close> (a normal deviate with \<open>1 + c * x > 0\<close>) and the outer one.\<close>

partial_function (option) gamma_normal ::
  "'a platform_scheme \<Rightarrow> f64 \<Rightarrow> go_rand \<Rightarrow> ((f64 \<times> f64) \<times> go_rand) option" where
  "gamma_normal E c r =
     do { (x, r1) \<leftarrow> StandardNormal E r;
          if flt (Fin 0) (fadd (Fin 1) (fmul c x)) then Some ((x, fadd (Fin 1) (fmul c x)), r1)
          else gamma_normal E c r1 }"

definition gamma_quick :: "f64 \<Rightarrow> f64 \<Rightarrow> bool" where
  "gamma_quick u x =
     flt u (fsub (Fin 1) (fmul (fmul (fmul (fmul (fconst (331 / 10000)) x) x) x) x))"

definition gamma_slow :: "'a platform_scheme \<Rightarrow> f64 \<Rightarrow> f64 \<Rightarrow> f64 \<Rightarrow> f64 \<Rightarrow> bool" where
  "gamma_slow E d u x v =
     flt (pl_log E u)
       (fadd (fmul (fmul (fconst (1 / 2)) x) x)
             (fmul d (fadd (fsub (Fin 1) v) (pl_log E v))))"

partial_function (option) gamma_loop ::
  "'a platform_scheme \<Rightarrow> f64 \<Rightarrow> f64 \<Rightarrow> f64 \<Rightarrow> go_rand \<Rightarrow> (f64 \<times> go_rand) option" where
  "gamma_loop E d c scale r =
     do { ((x, v), r1) \<leftarrow> gamma_normal E c r;
          (u, r2) \<leftarrow> float64 E r1;
          if gamma_quick u x then Some (fmul (fmul d (fmul (fmul v v) v)) scale, r2)
          else if gamma_slow E d u x (fmul (fmul v v) v)
          then Some (fmul (fmul d (fmul (fmul v v) v)) scale, r2)
          else gamma_loop E d c scale r2 }"

partial_function (option) sampleGamma ::
  "'a platform_scheme \<Rightarrow> go_rand \<Rightarrow> f64 \<Rightarrow> f64 \<Rightarrow> (f64 \<times> go_rand) option" where
  "sampleGamma E r shape scale =
     (if flt shape (Fin 1)
      then do { (u, r1) \<leftarrow> float64 E r;
                (g, r2) \<leftarrow> sampleGamma E r1 (fadd shape (Fin 1)) scale;
                Some (fmul g (pl_pow E u (fdiv (Fin 1) shape)), r2) }
      else gamma_loop E (fsub shape (fconst (1 / 3)))
             (fdiv (Fin 1) (pl_sqrt E (fmul (Fin 9) (fsub shape (fconst (1 / 3)))))) scale r)"

partial_function (option) poisson_loop ::
  "'a platform_scheme \<Rightarrow> f64 \<Rightarrow> nat \<Rightarrow> f64 \<Rightarrow> go_rand \<Rightarrow> (nat \<times> go_rand) option" where
  "poisson_loop E l k p r =
     do { (u, r1) \<leftarrow> float64 E r;
          if fle (fmul p u) l then Some (Suc k - 1, r1)
          else poisson_loop E l (Suc k) (fmul p u) r1 }"

definition samplePoisson :: "'a platform_scheme \<Rightarrow> go_rand \<Rightarrow> f64 \<Rightarrow> (nat \<times> go_rand) option" where
  "samplePoisson E r lambda =
     (if fle lambda (Fin 0) then Some (0, r)
      else poisson_loop E (pl_exp E (fneg lambda)) 0 (Fin 1) r)"

definition sampleNegBinomial ::
  "'a platform_scheme \<Rightarrow> go_rand \<Rightarrow> f64 \<Rightarrow> f64 \<Rightarrow> (nat \<times> go_rand) option" where
  "sampleNegBinomial E rng r mean =
     (let p = fdiv r (fadd r mean) in
      do { (lambda, rng1) \<leftarrow> sampleGamma E rng r (fdiv (fsub (Fin 1) p) p);
           samplePoisson E rng1 lambda })"

definition z75 :: rat where
  "z75 = 6744897501960817 / 10 ^ 16"

definition z25 :: rat where
  "z25 = - (6744897501960817 / 10 ^ 16)"

definition fitLogNormal :: "'a platform_scheme \<Rightarrow> f64 \<Rightarrow> f64 \<Rightarrow> f64 \<Rightarrow> f64 \<times> f64" where
  "fitLogNormal E p25 median p75 =
     (pl_log E median, fdiv (fsub (pl_log E p75) (pl_log E p25)) (fconst (z75 - z25)))"

definition sampleLogNormal ::
  "'a platform_scheme \<Rightarrow> go_rand \<Rightarrow> f64 \<times> f64 \<Rightarrow> (f64 \<times> go_rand) option" where
  "sampleLogNormal E r fit =
     (case fit of (mu, sigma) \<Rightarrow>
        do { (z, r1) \<leftarrow> StandardNormal E r; Some (pl_exp E (fadd mu (fmul sigma z)), r1) })"

record weighted_option =
  wo_label :: string
  wo_weight :: f64

definition categorical_total :: "weighted_option list \<Rightarrow> f64" where
  "categorical_total options = foldl (\<lambda>t w. fadd t (wo_weight w)) (Fin 0) options"

fun categorical_scan :: "f64 \<Rightarrow> f64 \<Rightarrow> weighted_option list \<Rightarrow> string option" where
  "categorical_scan r cum [] = None"
| "categorical_scan r cum (w # ws) =
     (if fle r (fadd cum (wo_weight w)) then Some (wo_label w)
      else categorical_scan r (fadd cum (wo_weight w)) ws)"

definition sampleCategorical ::
  "'a platform_scheme \<Rightarrow> go_rand \<Rightarrow> weighted_option list \<Rightarrow> (string \<times> go_rand) option" where
  "sampleCategorical E r options =
     (if options = [] then Some ('''', r)
      else do { (u, r1) \<leftarrow> float64 E r;
                Some (case categorical_scan (fmul u (categorical_total options)) (Fin 0) options of
                        Some l \<Rightarrow> l
                      | None \<Rightarrow> wo_label (last options), r1) })"

section \<open>The mathematical functions\<close>

text \<open>
  What the samplers rely on in Go's \<open>math\<close>: coarse bounds on finite arguments in the ranges
  the program uses, which every conforming implementation meets.
\<close>

definition math_ok :: "'a platform_scheme \<Rightarrow> bool" where
  "math_ok E \<longleftrightarrow>
     (\<forall>x. 2 powi (- 40) \<le> x \<and> x \<le> 1 \<longrightarrow> (\<exists>y. pl_log E (Fin x) = Fin y \<and> - 28 \<le> y \<and> y \<le> 0)) \<and>
     (\<forall>x. 1 \<le> x \<and> x \<le> 2 powi 64 \<longrightarrow> (\<exists>y. pl_log E (Fin x) = Fin y \<and> 0 \<le> y \<and> y \<le> 45)) \<and>
     (\<forall>x. 0 \<le> x \<and> x \<le> 64 \<longrightarrow> (\<exists>y. pl_sqrt E (Fin x) = Fin y \<and> 0 \<le> y \<and> y \<le> 8)) \<and>
     (\<forall>x. fwithin 1 (pl_cos E (Fin x))) \<and>
     (\<forall>x n. \<bar>x\<bar> \<le> rat_of_nat n \<and> n \<le> 500 \<longrightarrow>
        (\<exists>y. pl_exp E (Fin x) = Fin y \<and> 2 powi (- 2 * int n) \<le> y \<and> y \<le> 2 powi (2 * int n))) \<and>
     (\<forall>x. x \<le> 0 \<longrightarrow> (\<exists>y. pl_exp E (Fin x) = Fin y \<and> 0 \<le> y \<and> y \<le> 1)) \<and>
     (\<forall>x. 1 / 4 \<le> x \<and> x \<le> 1 \<longrightarrow> (\<exists>y. pl_log E (Fin x) = Fin y \<and> - 3 / 2 \<le> y \<and> y \<le> 0)) \<and>
     (\<forall>x. 0 \<le> x \<and> x \<le> 3 \<longrightarrow> (\<exists>y. pl_sqrt E (Fin x) = Fin y \<and> 0 \<le> y \<and> y \<le> 7 / 4)) \<and>
     (\<forall>x. 137 / 2 \<le> x \<and> x \<le> 81 \<longrightarrow> (\<exists>y. pl_sqrt E (Fin x) = Fin y \<and> 33 / 4 \<le> y \<and> y \<le> 9))"

lemma math_okD:
  assumes "math_ok E"
  shows "2 powi (- 40) \<le> x \<Longrightarrow> x \<le> 1 \<Longrightarrow> \<exists>y. pl_log E (Fin x) = Fin y \<and> - 28 \<le> y \<and> y \<le> 0"
    and "1 \<le> x \<Longrightarrow> x \<le> 2 powi 64 \<Longrightarrow> \<exists>y. pl_log E (Fin x) = Fin y \<and> 0 \<le> y \<and> y \<le> 45"
    and "0 \<le> x \<Longrightarrow> x \<le> 64 \<Longrightarrow> \<exists>y. pl_sqrt E (Fin x) = Fin y \<and> 0 \<le> y \<and> y \<le> 8"
    and "fwithin 1 (pl_cos E (Fin x))"
    and "\<bar>x\<bar> \<le> rat_of_nat n \<Longrightarrow> n \<le> 500 \<Longrightarrow>
      \<exists>y. pl_exp E (Fin x) = Fin y \<and> 2 powi (- 2 * int n) \<le> y \<and> y \<le> 2 powi (2 * int n)"
    and "x \<le> 0 \<Longrightarrow> \<exists>y. pl_exp E (Fin x) = Fin y \<and> 0 \<le> y \<and> y \<le> 1"
    and "1 / 4 \<le> x \<Longrightarrow> x \<le> 1 \<Longrightarrow> \<exists>y. pl_log E (Fin x) = Fin y \<and> - 3 / 2 \<le> y \<and> y \<le> 0"
    and "0 \<le> x \<Longrightarrow> x \<le> 3 \<Longrightarrow> \<exists>y. pl_sqrt E (Fin x) = Fin y \<and> 0 \<le> y \<and> y \<le> 7 / 4"
    and "137 / 2 \<le> x \<Longrightarrow> x \<le> 81 \<Longrightarrow> \<exists>y. pl_sqrt E (Fin x) = Fin y \<and> 33 / 4 \<le> y \<and> y \<le> 9"
  using assms unfolding math_ok_def by blast+

section \<open>Ranges of the samples\<close>

lemma clamp_u1:
  assumes "0 \<le> x" "x < 1"
  shows "\<exists>y. (if flt (Fin x) (fconst (1 / 10 ^ 12)) then fconst (1 / 10 ^ 12) else Fin x) = Fin y \<and>
    2 powi (- 40) \<le> y \<and> y \<le> 1"
proof -
  let ?c = "1 / 10 ^ 12 :: rat"
  have c: "rnd ?c = Fin (fround ?c)" "\<bar>fround ?c\<bar> \<le> 1"
    using rnd_within [OF exact_bound_one, of ?c] by auto
  have "fround (2 powi (- 40)) \<le> fround ?c" by (intro fround_mono) simp
  then have "2 powi (- 40) \<le> fround ?c" by (simp only: fround_pow2)
  with c assms show ?thesis by (auto simp: flt_def)
qed

text \<open>
  The Box-Muller product, given a bound \<open>a\<close> on the logarithm's magnitude and a bound \<open>b\<close> on
  the square root of twice it.
\<close>

lemma box_muller_bound:
  assumes "math_ok E" "pl_log E (Fin u) = Fin l" "- a \<le> l" "l \<le> 0" "exact_bound (2 * a)" "exact_bound b"
    "\<And>x. 0 \<le> x \<Longrightarrow> x \<le> 2 * a \<Longrightarrow> \<exists>y. pl_sqrt E (Fin x) = Fin y \<and> 0 \<le> y \<and> y \<le> b" "0 \<le> y" "y < 1"
  shows "\<exists>z. fmul (pl_sqrt E (fmul (Fin (- 2)) (pl_log E (Fin u)))) (pl_cos E (fmul (fconst pi_times_2) (Fin y))) = Fin z \<and>
    \<bar>z\<bar> \<le> b"
proof -
  have "\<bar>- 2 * l\<bar> \<le> 2 * a" using assms(3,4) by simp
  from rnd_within [OF assms(5) this] have m: "fmul (Fin (- 2)) (Fin l) = Fin (fround (- 2 * l))" "fround (- 2 * l) \<le> 2 * a"
    by (auto simp: fmul_def)
  have "0 \<le> fround (- 2 * l)" using assms(4) by (intro fr.fr_nonneg) simp
  from assms(7) [OF this m(2)] obtain s where s: "pl_sqrt E (Fin (fround (- 2 * l))) = Fin s" "0 \<le> s" "s \<le> b"
    by blast
  have p: "fwithin 7 (fconst pi_times_2)"
    using rnd_within [OF exact_bound_of_int [of 7], of pi_times_2] by (simp add: pi_times_2_def)
  have "fwithin 7 (fmul (fconst pi_times_2) (Fin y))"
    by (rule fmul_within [OF p, of 1]) (use assms(8,9) exact_bound_of_int [of 7] in auto)
  then obtain c where c: "fmul (fconst pi_times_2) (Fin y) = Fin c" by (auto simp: fwithin_cases)
  have "fwithin b (fmul (Fin s) (pl_cos E (Fin c)))"
    by (rule fmul_within [OF _ math_okD(4) [OF assms(1)], of b]) (use s assms(6) in auto)
  then show ?thesis unfolding assms(2) m(1) s(1) c by (auto simp: fwithin_cases)
qed

lemma StandardNormal_eq:
  assumes "math_ok E" "float64 E r = Some (Fin x, r1)" "float64 E r1 = Some (Fin y, r2)"
    "0 \<le> x" "x < 1" "0 \<le> y" "y < 1"
  shows "\<exists>z. StandardNormal E r = Some (Fin z, r2) \<and> \<bar>z\<bar> \<le> 8"
proof -
  let ?u = "if flt (Fin x) (fconst (1 / 10 ^ 12)) then fconst (1 / 10 ^ 12) else Fin x"
  obtain u where u: "?u = Fin u" "2 powi (- 40) \<le> u" "u \<le> 1" using clamp_u1 [OF assms(4,5)] by blast
  obtain l where l: "pl_log E (Fin u) = Fin l" "- 28 \<le> l" "l \<le> 0"
    using math_okD(1) [OF assms(1) u(2,3)] by blast
  have b: "exact_bound (2 * 28)" "exact_bound 8" by (simp_all add: exact_bound_numeral)
  have "\<exists>y. pl_sqrt E (Fin t) = Fin y \<and> 0 \<le> y \<and> y \<le> 8" if "0 \<le> t" "t \<le> 2 * 28" for t
    using that by (intro math_okD(3) [OF assms(1)]) simp_all
  from box_muller_bound [OF assms(1) l b this assms(6,7)] show ?thesis
    using assms(2,3) u(1) by (auto simp: StandardNormal_def Let_def)
qed

text \<open>A first draw from the second quarter keeps the deviate below 7/4.\<close>

lemma StandardNormal_quarter:
  assumes "math_ok E" "float64 E r = Some (Fin x, r1)" "float64 E r1 = Some (Fin y, r2)"
    "1 / 4 \<le> x" "x \<le> 1 / 2" "0 \<le> y" "y < 1"
  shows "\<exists>z. StandardNormal E r = Some (Fin z, r2) \<and> \<bar>z\<bar> \<le> 7 / 4"
proof -
  have "\<not> flt (Fin x) (fconst (1 / 10 ^ 12))" using assms(4) by (simp add: float_eval flt_def)
  moreover obtain l where l: "pl_log E (Fin x) = Fin l" "- (3 / 2) \<le> l" "l \<le> 0"
    using math_okD(7) [OF assms(1,4)] assms(5) by auto
  moreover have b: "exact_bound (2 * (3 / 2))" "exact_bound (7 / 4)"
    by (simp_all add: exact_bound_numeral) (simp add: exact_bound_def float_eval)
  have "\<exists>y. pl_sqrt E (Fin t) = Fin y \<and> 0 \<le> y \<and> y \<le> 7 / 4" if "0 \<le> t" "t \<le> 2 * (3 / 2)" for t
    using that by (intro math_okD(8) [OF assms(1)]) simp_all
  from box_muller_bound [OF assms(1) l b this assms(6,7)] have
    "\<exists>z. fmul (pl_sqrt E (fmul (Fin (- 2)) (pl_log E (Fin x)))) (pl_cos E (fmul (fconst pi_times_2) (Fin y))) = Fin z \<and>
      \<bar>z\<bar> \<le> 7 / 4" .
  ultimately show ?thesis using assms(2,3) by (auto simp: StandardNormal_def Let_def)
qed

lemma StandardNormal_returns:
  assumes "math_ok E" "fair_source E"
  obtains z r' where "StandardNormal E r = Some (Fin z, r')" "\<bar>z\<bar> \<le> 8"
proof -
  obtain x r1 where 1: "float64 E r = Some (Fin x, r1)" "0 \<le> x" "x < 1"
    by (rule float64_returns [OF assms(2)])
  obtain y r2 where 2: "float64 E r1 = Some (Fin y, r2)" "0 \<le> y" "y < 1"
    by (rule float64_returns [OF assms(2)])
  from StandardNormal_eq [OF assms(1) 1(1) 2(1) 1(2,3) 2(2,3)] that show ?thesis by blast
qed

lemma fitLogNormal_bounds:
  assumes "math_ok E" "1 \<le> a" "a \<le> 2 powi 64" "1 \<le> b" "b \<le> 2 powi 64" "1 \<le> c" "c \<le> 2 powi 64"
  obtains mu sigma where "fitLogNormal E (Fin a) (Fin b) (Fin c) = (Fin mu, Fin sigma)"
    "\<bar>mu\<bar> \<le> 45" "\<bar>sigma\<bar> \<le> 45"
proof -
  obtain la lb lc where l: "pl_log E (Fin a) = Fin la" "0 \<le> la" "la \<le> 45"
    "pl_log E (Fin b) = Fin lb" "0 \<le> lb" "lb \<le> 45" "pl_log E (Fin c) = Fin lc" "0 \<le> lc" "lc \<le> 45"
    using math_okD(2) [OF assms(1)] assms(2-7) by meson
  have d: "fsub (Fin lc) (Fin la) = Fin (fround (lc - la))" "\<bar>fround (lc - la)\<bar> \<le> 45"
    using rnd_within [OF exact_bound_of_int [of 45], of "lc - la"] l
    by (auto simp: fsub_def fadd_def fneg_def abs_le_iff)
  have z: "rnd (z75 - z25) = Fin (fround (z75 - z25))" "1 \<le> fround (z75 - z25)"
    using rnd_within [OF exact_bound_of_int [of 2], of "z75 - z25"]
      fr.of_int_le_fr [of 1 "z75 - z25"] by (auto simp: z75_def z25_def)
  let ?q = "fround (lc - la) / fround (z75 - z25)"
  have "\<bar>?q\<bar> \<le> \<bar>fround (lc - la)\<bar> / 1"
    unfolding abs_divide using z(2) by (intro divide_left_mono) auto
  then have "\<bar>?q\<bar> \<le> 45" using d(2) by simp
  then have "rnd ?q = Fin (fround ?q)" "\<bar>fround ?q\<bar> \<le> 45"
    using rnd_within [OF exact_bound_of_int [of 45], of ?q] by auto
  moreover have "fitLogNormal E (Fin a) (Fin b) (Fin c) = (Fin lb, rnd ?q)"
    using l d(1) z by (auto simp: fitLogNormal_def fdiv_def)
  ultimately show ?thesis using that l(5,6) by simp
qed

lemma sampleLogNormal_returns:
  assumes "math_ok E" "fair_source E" "\<bar>mu\<bar> \<le> 45" "\<bar>sigma\<bar> \<le> 45"
  obtains v r' where "sampleLogNormal E r (Fin mu, Fin sigma) = Some (Fin v, r')"
    "2 powi (- 810) \<le> v" "v \<le> 2 powi 810"
proof -
  obtain z r' where z: "StandardNormal E r = Some (Fin z, r')" "\<bar>z\<bar> \<le> 8"
    by (rule StandardNormal_returns [OF assms(1,2)])
  have "fwithin 360 (fmul (Fin sigma) (Fin z))"
    by (rule fmul_within [of 45 _ 8]) (use assms(4) z(2) exact_bound_of_int [of 360] in auto)
  then have "fwithin 405 (fadd (Fin mu) (fmul (Fin sigma) (Fin z)))"
    by (rule fadd_within [of 45 _ 360, rotated]) (use assms(3) exact_bound_of_int [of 405] in auto)
  then obtain a where a: "fadd (Fin mu) (fmul (Fin sigma) (Fin z)) = Fin a" "\<bar>a\<bar> \<le> rat_of_nat 405"
    by (auto simp: fwithin_cases)
  from math_okD(5) [OF assms(1) a(2)] obtain v where "pl_exp E (Fin a) = Fin v"
    "2 powi (- 810) \<le> v" "v \<le> 2 powi 810" by auto
  with z a that show ?thesis by (simp add: sampleLogNormal_def)
qed

section \<open>Knuth's Poisson loop stops\<close>

text \<open>
  The running product is a \<open>float64\<close> on the subnormal grid. It never grows, and a draw of
  at most one half makes it strictly smaller, so on a fair source it reaches any
  threshold that is not negative: induction on the grid index, and inside it on the
  distance to the next low draw.
\<close>

lemma poisson_product:
  assumes "0 \<le> x" "x < 1" "fround (grid_val m) = grid_val m" "m \<le> 2 ^ 1074"
  shows "\<exists>m'. fmul (Fin (grid_val m)) (Fin x) = Fin (grid_val m') \<and> fround (grid_val m') = grid_val m' \<and>
    m' \<le> m \<and> (0 < m \<and> x \<le> 1 / 2 \<longrightarrow> m' < m)"
proof -
  have g: "0 \<le> grid_val m" by (simp add: grid_val_def)
  have "rat_of_nat m \<le> rat_of_nat (2 ^ 1074)" using assms(4) by (simp only: of_nat_le_iff)
  then have "grid_val m \<le> 2 powi 1074 * 2 powi (- 1074)"
    unfolding grid_val_def by (intro mult_right_mono) simp_all
  then have g1: "grid_val m \<le> 1" by simp
  have le: "grid_val m * x \<le> grid_val m" using assms(2) g by (simp add: mult_left_le)
  have gx: "0 \<le> grid_val m * x" using g assms(1) by simp
  obtain m' where m': "fround (grid_val m * x) = grid_val m'" using fround_on_grid [OF gx] by blast
  have idem: "fround (grid_val m') = grid_val m'"
    using m' fround_idem [of "grid_val m * x"] by simp
  have "fround (grid_val m * x) \<le> fround (grid_val m)" using le by (rule fround_mono)
  then have 1: "m' \<le> m" using m' assms(3) by simp
  have 2: "m' < m" if "0 < m" "x \<le> 1 / 2"
  proof -
    have "grid_val m * x \<le> grid_val m * (1 / 2)" using that(2) g by (rule mult_left_mono)
    then have "fround (grid_val m * x) \<le> fround (grid_val m / 2)" by (intro fround_mono) simp
    also have "\<dots> < grid_val m" by (rule fround_half_less [OF that(1)])
    finally show ?thesis using m' by simp
  qed
  have "rnd (grid_val m * x) = Fin (grid_val m')"
    using rnd_within [OF exact_bound_one, of "grid_val m * x"] le g1 gx m' by simp
  then have "fmul (Fin (grid_val m)) (Fin x) = Fin (grid_val m')" by (simp add: fmul_def)
  with idem 1 2 show ?thesis by blast
qed

lemma poisson_loop_returns:
  assumes "fair_source E" "0 \<le> l" "fround (grid_val m) = grid_val m" "m \<le> 2 ^ 1074"
  shows "\<exists>n r'. poisson_loop E (Fin l) k (Fin (grid_val m)) r = Some (n, r')"
  using assms(3,4)
proof (induction m arbitrary: k r rule: less_induct)
  case (less m)
  obtain t where t: "rd_pos r \<le> t" "draw63 E (rd_seed r) t \<le> 2 ^ 62"
    using fair_source_obtain [OF assms(1)] .
  from t less.prems show ?case
  proof (induction "t - rd_pos r" arbitrary: k r rule: less_induct)
    case inner: less
    obtain x r1 where x: "float64 E r = Some (Fin x, r1)" "0 \<le> x" "x < 1" "rd_seed r1 = rd_seed r"
      "rd_pos r < rd_pos r1" "rd_pos r1 \<le> t \<or> x \<le> 1 / 2"
      using float64_until [OF inner.prems(1,2)] by blast
    obtain m' where m': "fmul (Fin (grid_val m)) (Fin x) = Fin (grid_val m')"
      "fround (grid_val m') = grid_val m'" "m' \<le> m" "0 < m \<Longrightarrow> x \<le> 1 / 2 \<Longrightarrow> m' < m"
      using poisson_product [OF x(2,3) inner.prems(3,4)] by blast
    show ?case
    proof (cases "fle (Fin (grid_val m')) (Fin l)")
      case True
      then show ?thesis using x(1) m'(1) by (subst poisson_loop.simps) simp
    next
      case False
      then have "0 < m'" using assms(2) by (cases m') (auto simp: fle_def grid_val_def)
      with m'(3,4) have dec: "m' < m \<or> (m' = m \<and> rd_pos r1 \<le> t)" using x(6) by auto
      have "\<exists>n r'. poisson_loop E (Fin l) (Suc k) (Fin (grid_val m')) r1 = Some (n, r')"
      proof (cases "m' < m")
        case True
        then show ?thesis using m'(2) inner.prems(4) by (intro less.IH) auto
      next
        case same: False
        with dec have eq: "m' = m" and "rd_pos r1 \<le> t" by auto
        with x inner.prems show ?thesis unfolding eq by (intro inner.hyps) auto
      qed
      then show ?thesis using x(1) m'(1) False by (subst poisson_loop.simps) simp
    qed
  qed
qed

lemma samplePoisson_returns:
  assumes "fair_source E" "fle lambda (Fin 0) \<or> (\<exists>l. pl_exp E (fneg lambda) = Fin l \<and> 0 \<le> l)"
  obtains n r' where "samplePoisson E r lambda = Some (n, r')"
proof -
  have one: "Fin 1 = Fin (grid_val (2 ^ 1074))" by (simp add: grid_val_def)
  have "\<exists>n r'. poisson_loop E (Fin l) 0 (Fin 1) r = Some (n, r')" if "0 \<le> l" for l
    unfolding one using that by (intro poisson_loop_returns [OF assms(1)]) (simp_all add: grid_val_def)
  with assms(2) that show ?thesis unfolding samplePoisson_def by (metis (full_types))
qed

section \<open>Categorical draws\<close>

lemma categorical_scan_label:
  "categorical_scan r cum ws = Some l \<Longrightarrow> l \<in> wo_label ` set ws"
  by (induction ws arbitrary: cum) (auto split: if_splits)

lemma sampleCategorical_label:
  "options \<noteq> [] \<Longrightarrow> sampleCategorical E r options = Some (l, r') \<Longrightarrow> l \<in> wo_label ` set options"
  by (auto simp: sampleCategorical_def bind_eq_Some_conv split: option.splits
      dest: categorical_scan_label)

lemma sampleCategorical_returns:
  assumes "fair_source E"
  obtains l r' where "sampleCategorical E r options = Some (l, r')"
proof -
  obtain x r1 where "float64 E r = Some (Fin x, r1)" by (rule float64_returns [OF assms])
  then show ?thesis using that by (cases "options = []") (auto simp: sampleCategorical_def)
qed

end
