(* ===== verification/Profiles.thy ===== *)
theory Profiles
  imports Distributions
begin

text \<open>
  \<open>internal/gen/profile.go\<close>, \<open>ratetable.go\<close> and \<open>scale.go\<close>: the busy and quiet traffic
  profiles and their constants, the diurnal rate table, and the named run modes.
\<close>

section \<open>Profiles\<close>

datatype Profile = ProfileBusy | ProfileQuiet

definition ProfileForChain :: "u64 \<Rightarrow> Profile" where
  "ProfileForChain chainID = (if chainID = 1 then ProfileBusy else ProfileQuiet)"

record profile_params =
  txCountR :: f64
  txCountMean :: f64
  zeroTxChance :: f64
  txTypeWeights :: "weighted_option list"

definition wopt :: "string \<Rightarrow> rat \<Rightarrow> weighted_option" where
  "wopt l q = \<lparr>wo_label = l, wo_weight = fconst q\<rparr>"

definition busyParams :: profile_params where
  "busyParams =
     \<lparr>txCountR = fconst 8, txCountMean = fconst (9169 / 100), zeroTxChance = fconst 0,
      txTypeWeights =
        [wopt ''send'' (753 / 10), wopt ''dexLimitOrder'' (105 / 10), wopt ''editStake'' (93 / 10),
         wopt ''certResults'' (33 / 10), wopt ''dexLiqDeposit'' (16 / 10), wopt ''stake'' (1 / 10),
         wopt ''unstake'' (1 / 10), wopt ''dexLiqWithdraw'' (1 / 10)]\<rparr>"

definition quietParams :: profile_params where
  "quietParams =
     \<lparr>txCountR = fconst 4, txCountMean = fconst (8 / 10), zeroTxChance = fconst (54 / 100),
      txTypeWeights =
        [wopt ''dexLiqDeposit'' (646 / 10), wopt ''editStake'' (343 / 10),
         wopt ''dexLimitOrder'' (11 / 10)]\<rparr>"

definition ParamsForProfile :: "Profile \<Rightarrow> profile_params" where
  "ParamsForProfile p = (if p = ProfileBusy then busyParams else quietParams)"

definition type_labels :: "Profile \<Rightarrow> string list" where
  "type_labels p = map wo_label (txTypeWeights (ParamsForProfile p))"

lemma wopt_simps [simp]: "wo_label (wopt l q) = l" "wo_weight (wopt l q) = fconst q"
  by (simp_all add: wopt_def)

lemma type_labels_simps:
  "type_labels ProfileBusy =
     [''send'', ''dexLimitOrder'', ''editStake'', ''certResults'', ''dexLiqDeposit'', ''stake'',
      ''unstake'', ''dexLiqWithdraw'']"
  "type_labels ProfileQuiet = [''dexLiqDeposit'', ''editStake'', ''dexLimitOrder'']"
  by (simp_all add: type_labels_def ParamsForProfile_def busyParams_def quietParams_def)

lemma txTypeWeights_nonempty: "txTypeWeights (ParamsForProfile p) \<noteq> []"
  by (simp add: ParamsForProfile_def busyParams_def quietParams_def)

section \<open>The diurnal rate table\<close>

definition blocksPerHour :: u64 where
  "blocksPerHour = 180"

definition busyHourlyRateRatioRaw :: "f64 list" where
  "busyHourlyRateRatioRaw = map (\<lambda>n. fconst (of_int n / 100))
     [55, 50, 60, 90, 191, 185, 130, 115, 105, 100, 95, 95, 100, 105, 105, 100,
      105, 110, 105, 100, 90, 80, 65, 50]"

definition normalizeRateTable :: "f64 list \<Rightarrow> f64 list" where
  "normalizeRateTable raw =
     (let avg = fdiv (foldl fadd (Fin 0) raw) (Fin 24) in map (\<lambda>v. fdiv v avg) raw)"

definition busyHourlyRateRatio :: "f64 list" where
  "busyHourlyRateRatio = normalizeRateTable busyHourlyRateRatioRaw"

definition HourOfHeight :: "u64 \<Rightarrow> nat" where
  "HourOfHeight height = unat ((height div blocksPerHour) mod 24)"

definition busyMeanAt :: "u64 \<Rightarrow> f64 \<Rightarrow> f64" where
  "busyMeanAt height baseMean = fmul baseMean (busyHourlyRateRatio ! HourOfHeight height)"

lemma HourOfHeight_less: "HourOfHeight height < 24"
  by (simp add: HourOfHeight_def unat_mod)

lemma busyHourlyRateRatioRaw_value:
  "busyHourlyRateRatioRaw =
    [Fin (2476979795053773 / 4503599627370496), Fin (1 / 2),
     Fin (5404319552844595 / 9007199254740992), Fin (8106479329266893 / 9007199254740992),
     Fin (8601875288277647 / 4503599627370496), Fin (4165829655317709 / 2251799813685248),
     Fin (5854679515581645 / 4503599627370496), Fin (2589569785738035 / 2251799813685248),
     Fin (4728779608739021 / 4503599627370496), Fin 1, Fin (4278419646001971 / 4503599627370496),
     Fin (4278419646001971 / 4503599627370496), Fin 1, Fin (4728779608739021 / 4503599627370496),
     Fin (4728779608739021 / 4503599627370496), Fin 1, Fin (4728779608739021 / 4503599627370496),
     Fin (2476979795053773 / 2251799813685248), Fin (4728779608739021 / 4503599627370496), Fin 1,
     Fin (8106479329266893 / 9007199254740992), Fin (3602879701896397 / 4503599627370496),
     Fin (5854679515581645 / 9007199254740992), Fin (1 / 2)]"
  by (simp add: busyHourlyRateRatioRaw_def float_eval)

lemma busyHourlyRateRatioRaw_sum: "foldl fadd (Fin 0) busyHourlyRateRatioRaw = Fin (6715992944316253 / 281474976710656)"
  by (simp add: busyHourlyRateRatioRaw_value float_eval)

lemma busyHourlyRateRatio_value:
  "busyHourlyRateRatio =
    [Fin (2491513624530199 / 4503599627370496), Fin (4530024771873089 / 9007199254740992),
     Fin (2718014863123853 / 4503599627370496), Fin (1019255573671445 / 1125899906842624),
     Fin (8652347314277599 / 4503599627370496), Fin (4190272913982607 / 2251799813685248),
     Fin (5889032203435015 / 4503599627370496), Fin (1302382121913513 / 1125899906842624),
     Fin (4756526010466743 / 4503599627370496), Fin (4530024771873089 / 4503599627370496),
     Fin (2151761766639717 / 2251799813685248), Fin (2151761766639717 / 2251799813685248),
     Fin (4530024771873089 / 4503599627370496), Fin (4756526010466743 / 4503599627370496),
     Fin (4756526010466743 / 4503599627370496), Fin (4530024771873089 / 4503599627370496),
     Fin (4756526010466743 / 4503599627370496), Fin (2491513624530199 / 2251799813685248),
     Fin (4756526010466743 / 4503599627370496), Fin (4530024771873089 / 4503599627370496),
     Fin (1019255573671445 / 1125899906842624), Fin (3624019817498471 / 4503599627370496),
     Fin (5889032203435015 / 9007199254740992), Fin (4530024771873089 / 9007199254740992)]"
proof -
  have "fdiv (Fin (6715992944316253 / 281474976710656)) (Fin 24) = Fin (8954657259088337 / 9007199254740992)" by (simp add: float_eval)
  then have "busyHourlyRateRatio = map (\<lambda>v. fdiv v (Fin (8954657259088337 / 9007199254740992))) busyHourlyRateRatioRaw"
    by (simp only: busyHourlyRateRatio_def normalizeRateTable_def busyHourlyRateRatioRaw_sum Let_def)
  then show ?thesis by (simp add: busyHourlyRateRatioRaw_value float_eval)
qed

text \<open>Every hourly mean of the busy profile lies in the measured range, and the table averages to one.\<close>

definition fbetween :: "rat \<Rightarrow> rat \<Rightarrow> f64 \<Rightarrow> bool" where
  "fbetween lo hi a = (case a of Fin x \<Rightarrow> lo \<le> x \<and> x \<le> hi | _ \<Rightarrow> False)"

lemma busy_mean_table:
  "list_all (\<lambda>t. fbetween 46 177 (fmul (txCountMean busyParams) t)) busyHourlyRateRatio"
  by (simp add: busyHourlyRateRatio_value busyParams_def fbetween_def float_eval)

lemma busyMeanAt_range: "fbetween 46 177 (busyMeanAt height (txCountMean busyParams))"
proof -
  have "length busyHourlyRateRatio = 24" by (simp add: busyHourlyRateRatio_value)
  then show ?thesis
    using busy_mean_table HourOfHeight_less [of height]
    by (simp add: list_all_length busyMeanAt_def)
qed

lemma rate_table_average:
  "fbetween (999 / 1000) (1001 / 1000) (fdiv (foldl fadd (Fin 0) busyHourlyRateRatio) (Fin 24))"
  by (simp add: busyHourlyRateRatio_value fbetween_def float_eval)

section \<open>Run modes\<close>

type_synonym RunMode = string

definition RunModeDefault :: RunMode where "RunModeDefault = ''default''"
definition RunModeSparse :: RunMode where "RunModeSparse = ''sparse''"
definition RunModeLoad :: RunMode where "RunModeLoad = ''load''"

record run_mode_params =
  ChainIDs :: "u64 list"
  NumAccounts :: nat
  NumValidators :: nat

definition RunModeConfig :: "RunMode \<Rightarrow> run_mode_params" where
  "RunModeConfig mode =
     (if mode = RunModeSparse then \<lparr>ChainIDs = [1, 100, 101], NumAccounts = 10, NumValidators = 10\<rparr>
      else if mode = RunModeLoad then \<lparr>ChainIDs = [1, 100, 101], NumAccounts = 100000, NumValidators = 5000\<rparr>
      else \<lparr>ChainIDs = [1, 100, 101], NumAccounts = 200, NumValidators = 30\<rparr>)"

end
