(* ===== verification/Gamma.thy ===== *)
theory Gamma
  imports Distributions
begin

text \<open>
  Marsaglia and Tsang's gamma sampler of \<open>internal/gen/distributions.go\<close> returns. Its inner
  loop is left at the first deviate, since these are bounded, and a round whose three draws
  fall into a stretch of quarter draws is accepted.
\<close>

section \<open>One round\<close>

lemma StandardNormal_window:
  assumes "math_ok E" "quarter_draws E (rd_seed r) k" "rd_pos r < k + 5"
  obtains z r' where "StandardNormal E r = Some (Fin z, r')" "\<bar>z\<bar> \<le> 8" "rd_seed r' = rd_seed r"
    "rd_pos r < rd_pos r'" "rd_pos r' \<le> max (rd_pos r) k + 2" "k \<le> rd_pos r \<Longrightarrow> \<bar>z\<bar> \<le> 7 / 4"
proof -
  obtain x r1 where x: "float64 E r = Some (Fin x, r1)" "0 \<le> x" "x < 1" "rd_seed r1 = rd_seed r"
    "rd_pos r < rd_pos r1" "rd_pos r1 \<le> Suc (max (rd_pos r) k)" "k \<le> rd_pos r \<longrightarrow> 1 / 4 \<le> x \<and> x \<le> 1 / 2"
    using float64_window [OF assms(2)] assms(3) by auto
  have "rd_pos r1 < k + 6" using x(6) assms(3) by simp
  then obtain y r2 where y: "float64 E r1 = Some (Fin y, r2)" "0 \<le> y" "y < 1" "rd_seed r2 = rd_seed r"
    "rd_pos r1 < rd_pos r2" "rd_pos r2 \<le> Suc (max (rd_pos r1) k)"
    using float64_window [of E r1 k] assms(2) x(4) by auto
  obtain z where z: "StandardNormal E r = Some (Fin z, r2)" "\<bar>z\<bar> \<le> 8"
    using StandardNormal_eq [OF assms(1) x(1) y(1) x(2,3) y(2,3)] by blast
  moreover have "\<bar>z\<bar> \<le> 7 / 4" if "k \<le> rd_pos r"
    using StandardNormal_quarter [OF assms(1) x(1) y(1) _ _ y(2,3)] x(7) that z(1) by auto
  ultimately show ?thesis using x y by (intro that [of z r2]) auto
qed

text \<open>With \<open>c\<close> below an eighth the inner loop takes the first deviate: \<open>1 + c * x\<close> is positive.\<close>

lemma exact_fractions: "exact_bound (63 / 64)" "exact_bound (1 / 16)" "exact_bound (1 / 8)" "exact_bound (1 / 4)"
  "exact_bound (7 / 16)"
  by (simp_all add: exact_bound_def float_eval)

lemma gamma_normal_first:
  assumes "StandardNormal E r = Some (Fin z, r')" "\<bar>z\<bar> \<le> 8" "fwithin (63 / 512) c"
  obtains v where "gamma_normal E c r = Some ((Fin z, Fin v), r')" "0 < v" "v \<le> 2"
proof -
  have "fwithin (63 / 64) (fmul c (Fin z))"
    by (rule fmul_within [OF assms(3), of 8]) (use assms(2) exact_fractions in auto)
  then obtain t where t: "fmul c (Fin z) = Fin t" "\<bar>t\<bar> \<le> 63 / 64" by (auto simp: fwithin_cases)
  have "fround (1 / 64) \<le> fround (1 + t)" using t(2) by (intro fround_mono) linarith
  then have "1 / 64 \<le> fround (1 + t)" by (simp add: float_eval)
  moreover have "\<bar>1 + t\<bar> \<le> of_int 2" using t(2) by (auto simp: abs_le_iff)
  then have "rnd (1 + t) = Fin (fround (1 + t))" "fround (1 + t) \<le> 2"
    using rnd_within [OF exact_bound_of_int [of 2], of "1 + t"] by auto
  ultimately show ?thesis using assms(1) t(1)
    by (intro that [of "fround (1 + t)"]) (subst gamma_normal.simps, auto simp: fadd_def flt_def)
qed

text \<open>The quick test accepts a deviate below 7/4 with a draw of at most one half.\<close>

lemma gamma_quick_accepts:
  assumes "\<bar>x\<bar> \<le> 7 / 4" "u \<le> 1 / 2"
  shows "gamma_quick (Fin u) (Fin x)"
proof -
  let ?k = "fconst (331 / 10000)"
  have x: "fwithin (7 / 4) (Fin x)" using assms(1) by simp
  have "fwithin (331 / 9900) ?k" by (simp add: float_eval)
  from fmul_within [OF this x, of "1 / 16"] have "fwithin (1 / 16) (fmul ?k (Fin x))" by (simp add: exact_fractions)
  from fmul_within [OF this x, of "1 / 8"] have "fwithin (1 / 8) (fmul (fmul ?k (Fin x)) (Fin x))"
    by (simp add: exact_fractions)
  from fmul_within [OF this x, of "1 / 4"] have "fwithin (1 / 4) (fmul (fmul (fmul ?k (Fin x)) (Fin x)) (Fin x))"
    by (simp add: exact_fractions)
  from fmul_within [OF this x, of "7 / 16"]
  have "fwithin (7 / 16) (fmul (fmul (fmul (fmul ?k (Fin x)) (Fin x)) (Fin x)) (Fin x))"
    by (simp add: exact_fractions)
  then obtain t where t: "fmul (fmul (fmul (fmul ?k (Fin x)) (Fin x)) (Fin x)) (Fin x) = Fin t" "\<bar>t\<bar> \<le> 7 / 16"
    by (auto simp: fwithin_cases)
  have "fround (9 / 16) \<le> fround (1 - t)" using t(2) by (intro fround_mono) linarith
  then have "9 / 16 \<le> fround (1 - t)" by (simp add: float_eval)
  moreover have "rnd (1 - t) = Fin (fround (1 - t))"
    using rnd_within [OF exact_bound_of_int [of 2], of "1 - t"] t(2) by auto
  ultimately show ?thesis using t(1) assms(2)
    by (simp add: gamma_quick_def fsub_def fadd_def fneg_def flt_def)
qed

section \<open>The sampler returns\<close>

lemma gamma_sample_finite:
  assumes "fwithin 8 d" "\<bar>v\<bar> \<le> 2" "fwithin 32 scale"
  shows "\<exists>g. fmul (fmul d (fmul (fmul (Fin v) (Fin v)) (Fin v))) scale = Fin g"
proof -
  have v: "fwithin 2 (Fin v)" using assms(2) by simp
  have "fwithin 4 (fmul (Fin v) (Fin v))" by (rule fmul_within [OF v v]) (simp_all add: exact_bound_numeral)
  then have "fwithin 8 (fmul (fmul (Fin v) (Fin v)) (Fin v))"
    by (rule fmul_within [OF _ v]) (simp_all add: exact_bound_numeral)
  then have "fwithin 64 (fmul d (fmul (fmul (Fin v) (Fin v)) (Fin v)))"
    by (rule fmul_within [OF assms(1)]) (simp_all add: exact_bound_numeral)
  then have "fwithin 2048 (fmul (fmul d (fmul (fmul (Fin v) (Fin v)) (Fin v))) scale)"
    by (rule fmul_within [OF _ assms(3)]) (simp_all add: exact_bound_numeral)
  then show ?thesis by (auto simp: fwithin_cases)
qed

lemma gamma_loop_window:
  assumes "math_ok E" "fwithin 8 d" "fwithin (63 / 512) c" "fwithin 32 scale"
  shows "quarter_draws E (rd_seed r) k \<Longrightarrow> rd_pos r \<le> k + 3 \<Longrightarrow> \<exists>g r'. gamma_loop E d c scale r = Some (Fin g, r')"
proof (induction "k + 3 - rd_pos r" arbitrary: r rule: less_induct)
  case less
  have "rd_pos r < k + 5" using less.prems(2) by simp
  then obtain z r1 where z: "StandardNormal E r = Some (Fin z, r1)" "\<bar>z\<bar> \<le> 8" "rd_seed r1 = rd_seed r"
    "rd_pos r < rd_pos r1" "rd_pos r1 \<le> max (rd_pos r) k + 2" "k \<le> rd_pos r \<Longrightarrow> \<bar>z\<bar> \<le> 7 / 4"
    using StandardNormal_window [OF assms(1) less.prems(1)] by metis
  obtain v where v: "gamma_normal E c r = Some ((Fin z, Fin v), r1)" "0 < v" "v \<le> 2"
    using gamma_normal_first [OF z(1,2) assms(3)] .
  have "rd_pos r1 < k + 6" using z(5) less.prems(2) by simp
  then obtain u r2 where u: "float64 E r1 = Some (Fin u, r2)" "rd_seed r2 = rd_seed r" "rd_pos r1 < rd_pos r2"
    "rd_pos r2 \<le> Suc (max (rd_pos r1) k)" "k \<le> rd_pos r1 \<longrightarrow> u \<le> 1 / 2"
    using float64_window [of E r1 k] less.prems(1) z(3) by auto
  obtain g where g: "fmul (fmul d (fmul (fmul (Fin v) (Fin v)) (Fin v))) scale = Fin g"
    using gamma_sample_finite [OF assms(2) _ assms(4), of v] v by auto
  show ?case
  proof (cases "gamma_quick (Fin u) (Fin z) \<or> gamma_slow E d (Fin u) (Fin z) (fmul (fmul (Fin v) (Fin v)) (Fin v))")
    case True
    then show ?thesis using v(1) u(1) g by (subst gamma_loop.simps) auto
  next
    case False
    then have "rd_pos r < k" using gamma_quick_accepts [of z u] z(4,6) u(5) by (meson less_imp_le order_trans not_le)
    then have "rd_pos r2 \<le> k + 3" "k + 3 - rd_pos r2 < k + 3 - rd_pos r" using z(4,5) u(3,4) by auto
    with less.hyps [of r2] less.prems(1) u(2) obtain g' r' where "gamma_loop E d c scale r2 = Some (Fin g', r')"
      by auto
    with False v(1) u(1) show ?thesis by (subst gamma_loop.simps) auto
  qed
qed

lemma gamma_loop_returns:
  assumes "math_ok E" "fair_source E" "fwithin 8 d" "fwithin (63 / 512) c" "fwithin 32 scale"
  obtains g r' where "gamma_loop E d c scale r = Some (Fin g, r')"
proof -
  obtain k where "rd_pos r \<le> k" "quarter_draws E (rd_seed r) k"
    using assms(2) unfolding fair_source_def by blast
  then show ?thesis using gamma_loop_window [OF assms(1,3-5), of r k] that by auto
qed

text \<open>The shape of the busy profile is 8; its \<open>d\<close> and \<open>c\<close> meet the bounds.\<close>

lemma sampleGamma_8_returns:
  assumes "math_ok E" "fair_source E" "fwithin 32 scale"
  obtains g r' where "sampleGamma E r (Fin 8) scale = Some (Fin g, r')"
proof -
  let ?d = "fsub (Fin 8) (fconst (1 / 3))"
  have n: "fmul (Fin 9) ?d = Fin 69" and d: "fwithin 8 ?d" by (simp_all add: float_eval)
  obtain s where s: "pl_sqrt E (Fin 69) = Fin s" "33 / 4 \<le> s" "s \<le> 9" using math_okD(9) [OF assms(1), of 69] by auto
  have "1 / s \<le> 1 / (33 / 4)" using s(2) by (intro divide_left_mono) auto
  then have "\<bar>1 / s\<bar> \<le> 63 / 512" using s(2) by auto
  moreover have "exact_bound (63 / 512)" by (simp add: exact_bound_def float_eval)
  ultimately have "fwithin (63 / 512) (fdiv (Fin 1) (Fin s))"
    using rnd_within [of "63 / 512" "1 / s"] s(2) by (auto simp: fdiv_def)
  then obtain g r' where "gamma_loop E ?d (fdiv (Fin 1) (Fin s)) scale r = Some (Fin g, r')"
    using gamma_loop_returns [OF assms(1,2) d _ assms(3)] by metis
  then show ?thesis using n s(1) that by (subst (asm) sampleGamma.simps, simp add: flt_def)
qed

section \<open>Every count the Poisson and negative binomial samplers are asked for\<close>

lemma poisson_finite_returns:
  assumes "math_ok E" "fair_source E"
  obtains n r' where "samplePoisson E r (Fin x) = Some (n, r')"
proof -
  have "fle (Fin x) (Fin 0) \<or> (\<exists>l. pl_exp E (fneg (Fin x)) = Fin l \<and> 0 \<le> l)"
    using math_okD(6) [OF assms(1), of "- x"] by (cases "x \<le> 0") (auto simp: fle_def fneg_def)
  from samplePoisson_returns [OF assms(2) this] that show ?thesis by blast
qed

end
