(* ===== verification/TxEvents.thy ===== *)
theory TxEvents
  imports Profiles Gamma
begin

text \<open>
  \<open>internal/gen/txgen.go\<close>, \<open>eventgen.go\<close> and \<open>lifecycle.go\<close>: how many transactions and
  events a height has, their types, and the scheduled unstaking of a validator. All are
  closed-form draws from a generator seeded by the height.
\<close>

unbundle bit_operations_syntax

section \<open>Transactions\<close>

definition TxCountAt :: "'a platform_scheme \<Rightarrow> u64 \<Rightarrow> Profile \<Rightarrow> u64 \<Rightarrow> nat option" where
  "TxCountAt E chainID profile height =
     (let params = ParamsForProfile profile; rng = RngForHeight chainID height in
      if profile = ProfileQuiet
      then do { (u, rng1) \<leftarrow> float64 E rng;
                if flt u (zeroTxChance params) then Some 0
                else do { (k, _) \<leftarrow> samplePoisson E rng1 (txCountMean params); Some (1 + k) } }
      else do { (count, _) \<leftarrow> sampleNegBinomial E rng (txCountR params)
                               (busyMeanAt height (txCountMean params));
                Some (if count = 0 then 1 else count) })"

definition TxTypeMixAt :: "'a platform_scheme \<Rightarrow> u64 \<Rightarrow> Profile \<Rightarrow> u64 \<Rightarrow> string option" where
  "TxTypeMixAt E chainID profile height =
     map_option fst (sampleCategorical E (RngForHeight chainID height)
                       (txTypeWeights (ParamsForProfile profile)))"

lemma TxCountAt_busy_pos: "TxCountAt E chainID ProfileBusy height = Some n \<Longrightarrow> 1 \<le> n"
  by (auto simp: TxCountAt_def Let_def bind_eq_Some_conv split: if_splits)

lemma TxTypeMixAt_label: "TxTypeMixAt E chainID p height = Some l \<Longrightarrow> l \<in> set (type_labels p)"
  using sampleCategorical_label [OF txTypeWeights_nonempty]
  by (fastforce simp: TxTypeMixAt_def type_labels_def)

lemma TxTypeMixAt_returns: "fair_source E \<Longrightarrow> \<exists>l. TxTypeMixAt E chainID p height = Some l"
  by (rule sampleCategorical_returns [of E "RngForHeight chainID height" "txTypeWeights (ParamsForProfile p)"])
    (auto simp: TxTypeMixAt_def)

lemma TxCountAt_quiet_returns:
  assumes "fair_source E" "math_ok E"
  shows "\<exists>n. TxCountAt E chainID ProfileQuiet height = Some n"
proof -
  obtain x r1 where x: "float64 E (RngForHeight chainID height) = Some (Fin x, r1)"
    by (rule float64_returns [OF assms(1)])
  let ?m = "3602879701896397 / 4503599627370496 :: rat"
  have m: "txCountMean quietParams = Fin ?m" by (simp add: quietParams_def float_eval)
  obtain l where "pl_exp E (Fin (- ?m)) = Fin l" "2 powi (- 2 * int 1) \<le> l"
    using math_okD(5) [OF assms(2), of "- ?m" 1] by auto
  then have "pl_exp E (fneg (Fin ?m)) = Fin l" "0 \<le> l" by (auto simp: fneg_def power_int_minus)
  then obtain n r' where "samplePoisson E r1 (Fin ?m) = Some (n, r')"
    using samplePoisson_returns [OF assms(1)] by blast
  then show ?thesis using x m by (simp add: TxCountAt_def ParamsForProfile_def)
qed

text \<open>
  The busy count: with a mean between 46 and 177 the scale handed to the gamma sampler is at
  most 32, and the Poisson sampler takes whatever rate comes out.
\<close>

lemma negative_binomial_scale:
  assumes "fbetween 46 177 mean"
  shows "fwithin 32 (fdiv (fsub (Fin 1) (fdiv (Fin 8) (fadd (Fin 8) mean))) (fdiv (Fin 8) (fadd (Fin 8) mean)))"
proof -
  obtain m where m: "mean = Fin m" "46 \<le> m" "m \<le> 177" using assms by (cases mean) (auto simp: fbetween_def)
  define a where "a = fround (8 + m)"
  have "\<bar>8 + m\<bar> \<le> of_int 185" using m by simp
  then have s: "fadd (Fin 8) mean = Fin a" "a \<le> 185" "54 \<le> a"
    using rnd_within [OF exact_bound_of_int [of 185], of "8 + m"] fr.of_int_le_fr [of 54 "8 + m"] m
    by (auto simp: fadd_def a_def)
  define q where "q = fround (8 / a)"
  have "8 / 185 \<le> 8 / a" "8 / a \<le> 8 / 54" using s divide_left_mono [of a 185 8] divide_left_mono [of 54 a 8] by simp_all
  then have b: "1 / 32 \<le> 8 / a" "8 / a \<le> 1 / 4" by simp_all
  have q: "1 / 32 \<le> q" "q \<le> 1 / 4"
    using fround_mono [OF b(1)] fround_mono [OF b(2)] by (simp_all add: float_eval q_def)
  have "\<bar>8 / a\<bar> \<le> 1" using s b(2) by simp
  then have p: "fdiv (Fin 8) (fadd (Fin 8) mean) = Fin q"
    using rnd_within [OF exact_bound_one, of "8 / a"] s by (simp add: fdiv_def q_def)
  have d: "fsub (Fin 1) (Fin q) = Fin (fround (1 - q))" "\<bar>fround (1 - q)\<bar> \<le> 1"
    using rnd_within [OF exact_bound_one, of "1 - q"] q by (auto simp: fsub_def fadd_def fneg_def)
  have "\<bar>fround (1 - q) / q\<bar> \<le> 1 / (1 / 32)"
    unfolding abs_divide using q d(2) by (intro frac_le) auto
  then have "fwithin 32 (fdiv (Fin (fround (1 - q))) (Fin q))"
    using rnd_within [OF exact_bound_of_int [of 32], of "fround (1 - q) / q"] q by (auto simp: fdiv_def)
  then show ?thesis by (simp only: p d(1))
qed

lemma TxCountAt_returns:
  assumes "fair_source E" "math_ok E"
  shows "\<exists>n. TxCountAt E chainID p height = Some n"
proof (cases p)
  case ProfileQuiet
  then show ?thesis using TxCountAt_quiet_returns [OF assms] by simp
next
  case ProfileBusy
  let ?mean = "busyMeanAt height (txCountMean busyParams)"
  let ?p = "fdiv (Fin 8) (fadd (Fin 8) ?mean)"
  have r: "txCountR busyParams = Fin 8" by (simp add: busyParams_def float_eval)
  obtain g r1 where g: "sampleGamma E (RngForHeight chainID height) (Fin 8) (fdiv (fsub (Fin 1) ?p) ?p) = Some (Fin g, r1)"
    by (rule sampleGamma_8_returns [OF assms(2,1) negative_binomial_scale [OF busyMeanAt_range [of height]]])
  obtain k r2 where "samplePoisson E r1 (Fin g) = Some (k, r2)"
    by (rule poisson_finite_returns [OF assms(2,1)])
  with g ProfileBusy r show ?thesis
    by (simp add: TxCountAt_def ParamsForProfile_def sampleNegBinomial_def Let_def)
qed

section \<open>Events\<close>

definition busyEventWeights :: "weighted_option list" where
  "busyEventWeights =
     [wopt ''reward'' (538 / 10), wopt ''dexSwap'' (440 / 10), wopt ''dexLiquidityDeposit'' (21 / 10),
      wopt ''other'' (1 / 10)]"

definition quietEventWeights :: "weighted_option list" where
  "quietEventWeights =
     [wopt ''dexSwap'' (600 / 10), wopt ''reward'' (370 / 10), wopt ''dexLiquidityDeposit'' (30 / 10)]"

definition EventWeightsForProfile :: "Profile \<Rightarrow> weighted_option list" where
  "EventWeightsForProfile p = (if p = ProfileBusy then busyEventWeights else quietEventWeights)"

definition event_salt :: u64 where
  "event_salt = 0x6576656e74"

definition EventTypeMixAt :: "'a platform_scheme \<Rightarrow> u64 \<Rightarrow> Profile \<Rightarrow> u64 \<Rightarrow> string option" where
  "EventTypeMixAt E chainID profile height =
     map_option fst (sampleCategorical E (RngForHeight (chainID XOR event_salt) height)
                       (EventWeightsForProfile profile))"

definition EventCountAt :: "'a platform_scheme \<Rightarrow> u64 \<Rightarrow> Profile \<Rightarrow> u64 \<Rightarrow> nat option" where
  "EventCountAt E chainID profile height =
     map_option fst (samplePoisson E (RngForHeight (chainID XOR event_salt) height)
       (if profile = ProfileQuiet then fconst (6 / 10) else fconst (15 / 10)))"

lemma EventTypeMixAt_label:
  "EventTypeMixAt E chainID p height = Some l \<Longrightarrow> l \<in> wo_label ` set (EventWeightsForProfile p)"
  by (auto simp: EventTypeMixAt_def EventWeightsForProfile_def busyEventWeights_def quietEventWeights_def
      dest!: sampleCategorical_label [rotated] split: if_splits)

lemma EventTypeMixAt_returns: "fair_source E \<Longrightarrow> \<exists>l. EventTypeMixAt E chainID p height = Some l"
  by (rule sampleCategorical_returns [of E "RngForHeight (chainID XOR event_salt) height" "EventWeightsForProfile p"])
    (auto simp: EventTypeMixAt_def)

lemma EventCountAt_returns:
  assumes "fair_source E" "math_ok E"
  shows "\<exists>n. EventCountAt E chainID p height = Some n"
proof -
  define mean where "mean = (if p = ProfileQuiet then fconst (6 / 10) else fconst (15 / 10))"
  have "fbetween 0 2 mean" by (simp add: mean_def fbetween_def float_eval)
  then obtain m where m: "mean = Fin m" "0 \<le> m" "m \<le> 2" by (cases mean) (auto simp: fbetween_def)
  then obtain l where "pl_exp E (Fin (- m)) = Fin l" "2 powi (- 2 * int 2) \<le> l"
    using math_okD(5) [OF assms(2), of "- m" 2] by auto
  then have "pl_exp E (fneg mean) = Fin l" "0 \<le> l" using m by (auto simp: fneg_def power_int_minus)
  then obtain n r' where "samplePoisson E (RngForHeight (chainID XOR event_salt) height) mean = Some (n, r')"
    using samplePoisson_returns [OF assms(1)] by blast
  then show ?thesis by (simp add: EventCountAt_def mean_def)
qed

section \<open>Validator lifecycle\<close>

datatype ValidatorStatus = ValidatorActive | ValidatorUnstaked

definition UnstakeHeightFor :: "'a platform_scheme \<Rightarrow> bytes \<Rightarrow> u64 \<Rightarrow> u64 option" where
  "UnstakeHeightFor E addr genesisHeight =
     do { (u, rng) \<leftarrow> float64 E (RngForAddrHeight addr 0);
          if flt u (fconst (9 / 10)) then Some (genesisHeight + 1000000000)
          else do { (k, _) \<leftarrow> intn E 9900 rng; Some (genesisHeight + of_nat (100 + k)) } }"

definition ValidatorStatusAt ::
  "'a platform_scheme \<Rightarrow> bytes \<Rightarrow> u64 \<Rightarrow> u64 \<Rightarrow> ValidatorStatus option" where
  "ValidatorStatusAt E addr genesisHeight height =
     map_option (\<lambda>u. if height < u then ValidatorActive else ValidatorUnstaked)
       (UnstakeHeightFor E addr genesisHeight)"

lemma UnstakeHeightFor_returns: "fair_source E \<Longrightarrow> \<exists>u. UnstakeHeightFor E addr g = Some u"
proof -
  assume fair: "fair_source E"
  obtain x r where "float64 E (RngForAddrHeight addr 0) = Some (Fin x, r)"
    by (rule float64_returns [OF fair])
  moreover obtain k r' where "intn E 9900 r = Some (k, r')"
    by (rule intn_returns [OF fair, of 9900 r]) auto
  ultimately show ?thesis by (auto simp: UnstakeHeightFor_def)
qed

lemma UnstakeHeightFor_genesis_range:
  assumes "UnstakeHeightFor E addr 0 = Some u"
  shows "unat u = 1000000000 \<or> 100 \<le> unat u \<and> unat u < 10000"
proof -
  from assms consider "u = 1000000000" | k rng rng' where "intn E 9900 rng = Some (k, rng')" "u = of_nat (100 + k)"
    by (auto simp: UnstakeHeightFor_def bind_eq_Some_conv split: if_splits)
  then show ?thesis
  proof cases
    case 1
    then show ?thesis by simp
  next
    case 2
    have k: "k < 9900" using _ 2(1) by (rule intn_less) simp
    then have "100 + k < 2 ^ 64" by simp
    then have "unat u = 100 + k" unfolding 2(2) by (rule unat_of_nat_u64)
    with k show ?thesis by simp
  qed
qed

text \<open>The values of the Go constants order the statuses; a validator only moves up in that order.\<close>

definition status_rank :: "ValidatorStatus \<Rightarrow> nat" where
  "status_rank s = (case s of ValidatorActive \<Rightarrow> 0 | ValidatorUnstaked \<Rightarrow> 1)"

lemma status_rank_inj: "status_rank s = status_rank t \<Longrightarrow> s = t"
  by (cases s; cases t) (simp_all add: status_rank_def)

instantiation ValidatorStatus :: linorder
begin

definition less_eq_ValidatorStatus :: "ValidatorStatus \<Rightarrow> ValidatorStatus \<Rightarrow> bool" where
  "s \<le> t \<longleftrightarrow> status_rank s \<le> status_rank t"

definition less_ValidatorStatus :: "ValidatorStatus \<Rightarrow> ValidatorStatus \<Rightarrow> bool" where
  "s < t \<longleftrightarrow> status_rank s < status_rank t"

instance
  by standard (auto simp: less_eq_ValidatorStatus_def less_ValidatorStatus_def intro: status_rank_inj)

end

lemma ValidatorStatus_le [simp]: "ValidatorActive \<le> s" "s \<le> ValidatorUnstaked"
  by (cases s, simp_all add: less_eq_ValidatorStatus_def status_rank_def)+

lemma ValidatorStatusAt_mono:
  "\<lbrakk>ValidatorStatusAt E addr g h = Some s; ValidatorStatusAt E addr g h' = Some s'; h \<le> h'\<rbrakk> \<Longrightarrow> s \<le> s'"
  by (auto simp: ValidatorStatusAt_def)

lemma ValidatorStatusAt_unstaked:
  "UnstakeHeightFor E addr g = Some u \<Longrightarrow> ValidatorStatusAt E addr g h = Some ValidatorUnstaked \<longleftrightarrow> u \<le> h"
  by (auto simp: ValidatorStatusAt_def)

end
