(* ===== verification/Ledger.thy ===== *)
theory Ledger
  imports TxEvents
begin

text \<open>
  \<open>internal/gen/ledger.go\<close>: the closed-form ledger. Every address has a height-independent
  base value, perturbed at the heights where it is active; all but the largest holder
  are priced at a fixed rate, and the largest (the residual) gets what is left of the
  supply of that height. The main results: the snapshot returns, conserves the supply
  exactly and without wrap-around outside the fallback branch, and leaves an inactive
  account untouched.
\<close>

section \<open>Raw values\<close>

definition balanceFit :: "'a platform_scheme \<Rightarrow> f64 \<times> f64" where
  "balanceFit E = fitLogNormal E (fconst 20000000) (fconst 87900000) (fconst 398000000)"

definition baseValue :: "'a platform_scheme \<Rightarrow> bytes \<Rightarrow> f64 option" where
  "baseValue E addr = map_option fst (sampleLogNormal E (RngForAddrHeight addr 0) (balanceFit E))"

definition addrActiveAtHeight :: "'a platform_scheme \<Rightarrow> bytes \<Rightarrow> u64 \<Rightarrow> bool option" where
  "addrActiveAtHeight E addr height =
     map_option (\<lambda>(u, _). flt u (fconst (2 / 100))) (float64 E (RngForAddrHeight addr height))"

definition rawValue :: "'a platform_scheme \<Rightarrow> bytes \<Rightarrow> u64 \<Rightarrow> f64 option" where
  "rawValue E addr height =
     do { active \<leftarrow> addrActiveAtHeight E addr height;
          if \<not> active then baseValue E addr
          else do { (noise, _) \<leftarrow> StandardNormal E (RngForAddrHeight addr height);
                    b \<leftarrow> baseValue E addr;
                    Some (fmul b (pl_exp E (fmul (fconst (15 / 100)) noise))) } }"

definition TotalSupplyAt :: "'a platform_scheme \<Rightarrow> u64 \<Rightarrow> u64 \<Rightarrow> u64" where
  "TotalSupplyAt E chainID height =
     (let scale = (if chainID \<noteq> 1 then fconst (5 / 100) else Fin 1) in
      u64_of_f64 (pl_conv E)
        (fmul (fmul (fconst 1400000000) scale)
              (fadd (Fin 1) (fmul (fconst (5 / 10000000)) (f64_of_u64 height)))))"

section \<open>Pricing\<close>

definition exchangeRate :: "'a platform_scheme \<Rightarrow> bytes list \<Rightarrow> u64 \<Rightarrow> f64 option" where
  "exchangeRate E addrs chainID =
     do { bases \<leftarrow> opt_mapM (baseValue E) addrs;
          let sum = foldl fadd (Fin 0) bases in
          Some (if feq sum (Fin 0) then Fin 0
                else fdiv (f64_of_u64 (TotalSupplyAt E chainID 0)) sum) }"

text \<open>The scan of \<open>residualIndex\<close>: the index of the first largest base value.\<close>

fun residual_scan :: "nat \<Rightarrow> nat \<Rightarrow> f64 \<Rightarrow> f64 list \<Rightarrow> nat" where
  "residual_scan i best bestVal [] = best"
| "residual_scan i best bestVal (v # vs) =
     (if flt bestVal v then residual_scan (Suc i) i v vs else residual_scan (Suc i) best bestVal vs)"

definition residualIndex :: "'a platform_scheme \<Rightarrow> bytes list \<Rightarrow> nat option" where
  "residualIndex E addrs =
     map_option (residual_scan 0 0 (Fin (- 1))) (opt_mapM (baseValue E) addrs)"

text \<open>The loops over \<open>i, a := range addrs\<close> that skip \<open>i == residual\<close>.\<close>

definition others :: "nat \<Rightarrow> 'a list \<Rightarrow> 'a list" where
  "others residual xs = map snd (filter (\<lambda>(i, _). i \<noteq> residual) (enumerate 0 xs))"

definition raws_of ::
  "'a platform_scheme \<Rightarrow> bytes list \<Rightarrow> u64 \<Rightarrow> nat \<Rightarrow> f64 \<Rightarrow> f64 list option" where
  "raws_of E addrs height residual rate =
     opt_mapM (\<lambda>(i, a). if i = residual then Some (Fin 0)
                        else map_option (\<lambda>v. fmul v rate) (rawValue E a height))
       (enumerate 0 addrs)"

text \<open>The fallback branch: everything but the residual scaled down, the residual left at zero.\<close>

definition fallback_balances :: "(f64 \<Rightarrow> u64) \<Rightarrow> nat \<Rightarrow> f64 \<Rightarrow> f64 \<Rightarrow> f64 list \<Rightarrow> u64 list" where
  "fallback_balances oor residual supplyF sumOthers raws =
     (let scale = fdiv supplyF sumOthers in
      map (\<lambda>(i, v). if i \<noteq> residual then u64_of_f64 oor (fmul v scale) else 0) (enumerate 0 raws))"

text \<open>The normal branch: truncated prices, and the residual as the difference to the supply.\<close>

definition priced_balances :: "(f64 \<Rightarrow> u64) \<Rightarrow> nat \<Rightarrow> u64 \<Rightarrow> f64 list \<Rightarrow> u64 list" where
  "priced_balances oor residual supply raws =
     (let out = map (\<lambda>(i, v). if i \<noteq> residual then u64_of_f64 oor v else 0) (enumerate 0 raws);
          sum = foldl (+) 0 (others residual out) in
      out[residual := supply - sum])"

definition SnapshotBalancesAt :: "'a platform_scheme \<Rightarrow> bytes list \<Rightarrow> u64 \<Rightarrow> u64 \<Rightarrow> u64 list option" where
  "SnapshotBalancesAt E addrs chainID height =
     (if addrs = [] then Some []
      else if length addrs = 1 then Some [TotalSupplyAt E chainID height]
      else do { residual \<leftarrow> residualIndex E addrs;
                rate \<leftarrow> exchangeRate E addrs chainID;
                raws \<leftarrow> raws_of E addrs height residual rate;
                let sumOthers = foldl fadd (Fin 0) (others residual raws);
                    supplyF = f64_of_u64 (TotalSupplyAt E chainID height) in
                Some (if flt supplyF sumOthers
                      then fallback_balances (pl_conv E) residual supplyF sumOthers raws
                      else priced_balances (pl_conv E) residual (TotalSupplyAt E chainID height) raws) })"

text \<open>\<open>BalanceAt\<close>: the balance of the first position holding the address, else zero.\<close>

fun balance_lookup :: "bytes \<Rightarrow> bytes list \<Rightarrow> u64 list \<Rightarrow> u64" where
  "balance_lookup addr (a # as) (b # bs) = (if a = addr then b else balance_lookup addr as bs)"
| "balance_lookup addr _ _ = 0"

definition BalanceAt :: "'a platform_scheme \<Rightarrow> bytes \<Rightarrow> bytes list \<Rightarrow> u64 \<Rightarrow> u64 \<Rightarrow> u64 option" where
  "BalanceAt E addr addrs chainID height =
     map_option (balance_lookup addr addrs) (SnapshotBalancesAt E addrs chainID height)"

section \<open>Stakes\<close>

definition stakeFit :: "'a platform_scheme \<Rightarrow> f64 \<times> f64" where
  "stakeFit E = fitLogNormal E (fconst 500000) (fconst 931000) (fconst (931000 * 10))"

definition StakeAt :: "'a platform_scheme \<Rightarrow> bytes \<Rightarrow> u64 \<Rightarrow> u64 \<Rightarrow> u64 option" where
  "StakeAt E addr chainID height =
     do { (base, _) \<leftarrow> sampleLogNormal E (RngForAddrHeight addr 0) (stakeFit E);
          (noise, _) \<leftarrow> StandardNormal E (RngForAddrHeight (addr @ [ucast chainID]) height);
          Some (u64_of_f64 (pl_conv E) (fmul base (pl_exp E (fmul (fconst (1 / 10)) noise)))) }"

section \<open>The supply curve\<close>

definition supply_factor :: "u64 \<Rightarrow> rat" where
  "supply_factor chainID = (if chainID = 1 then 1400000000 else 70000000)"

definition supply_curve :: "rat \<Rightarrow> rat \<Rightarrow> rat" where
  "supply_curve c n =
     fround (c * fround (1 + fround (4722366482869645 / 9444732965739290427392 * fround n)))"

lemma supply_curve_mono: "0 \<le> c \<Longrightarrow> m \<le> n \<Longrightarrow> supply_curve c m \<le> supply_curve c n"
  unfolding supply_curve_def by (intro fround_mono mult_left_mono add_left_mono) simp_all

lemma supply_factor_bounds: "70000000 \<le> supply_factor c" "supply_factor c \<le> 2 ^ 31"
  by (simp_all add: supply_factor_def)

lemma rnd_of_nat: "n \<le> 2 ^ 53 \<Longrightarrow> rnd (rat_of_nat n) = Fin (rat_of_nat n)"
  using rnd_within [OF exact_bound_of_int [of "int n"], of "rat_of_nat n"] fr.fr_of_int [of "int n"]
  by simp

lemma f64_of_u64_exact: "unat w \<le> 2 ^ 53 \<Longrightarrow> f64_of_u64 w = Fin (rat_of_nat (unat w))"
  unfolding f64_of_u64_def f64_of_int_def of_int_of_nat_eq by (rule rnd_of_nat)

lemma nat_le_exact: "n \<le> 2 ^ 40 \<Longrightarrow> \<bar>int n\<bar> \<le> 2 ^ 53"
  by simp

lemma nat_of_floor_le: "n = nat k \<Longrightarrow> 70000000 \<le> k \<Longrightarrow> k \<le> 2 ^ 52 \<Longrightarrow> 70000000 \<le> n \<and> n \<le> 2 ^ 52 \<and> int n = k"
  by (simp add: nat_le_iff)

lemma TotalSupplyAt_curve:
  fixes E :: "'a platform_scheme"
  assumes "unat height \<le> 2 ^ 40"
  shows "TotalSupplyAt E chainID height =
      of_int \<lfloor>supply_curve (supply_factor chainID) (rat_of_nat (unat height))\<rfloor>"
    "supply_factor chainID \<le> supply_curve (supply_factor chainID) (rat_of_nat (unat height))"
    "supply_curve (supply_factor chainID) (rat_of_nat (unat height)) \<le> 2 ^ 52"
proof -
  define n where "n = rat_of_nat (unat height)"
  let ?n = n and ?k = "4722366482869645 / 9444732965739290427392 :: rat" and ?c = "supply_factor chainID"
  have "?n \<le> rat_of_nat (2 ^ 40)" unfolding n_def using assms by (simp only: of_nat_le_iff)
  then have n1: "?n \<le> 2 ^ 40" by simp
  have n0: "0 \<le> ?n" unfolding n_def by (rule of_nat_0_le_iff)
  note n = n0 n1
  have h: "f64_of_u64 height = Fin n" using assms by (simp only: n_def) (intro f64_of_u64_exact, simp)
  have "fround (rat_of_int (int (unat height))) = rat_of_int (int (unat height))"
    using nat_le_exact [OF assms] by (rule fr.fr_of_int)
  then have r0: "fround ?n = n" unfolding n_def of_int_of_nat_eq .
  let ?a = "?k * fround ?n"
  have "?a \<le> ?k * 2 ^ 40" unfolding r0 using n by (intro mult_left_mono) simp_all
  then have a: "0 \<le> ?a" "?a \<le> 2 ^ 20" using n by (simp_all add: r0)
  have r1: "rnd ?a = Fin (fround ?a)" "0 \<le> fround ?a" "fround ?a \<le> 2 ^ 20"
    using rnd_within [OF exact_bound_of_int [of "2 ^ 20"], of ?a] fr.fr_nonneg [OF a(1)] a by auto
  let ?b = "1 + fround ?a"
  have b: "1 \<le> ?b" "?b \<le> 2 ^ 21" using r1 by simp_all
  have r2: "rnd ?b = Fin (fround ?b)" "1 \<le> fround ?b" "fround ?b \<le> 2 ^ 21"
    using rnd_within [OF exact_bound_of_int [of "2 ^ 21"], of ?b] fr.of_int_le_fr [of 1 ?b] b by auto
  have c: "?c * fround ?b \<le> 2 ^ 31 * 2 ^ 21"
    using supply_factor_bounds [of chainID] r2 by (intro mult_mono) simp_all
  have c0: "?c * 1 \<le> ?c * fround ?b"
    using supply_factor_bounds(1) [of chainID] r2(2) by (intro mult_left_mono) linarith+
  have "0 \<le> ?c * fround ?b" using c0 supply_factor_bounds(1) [of chainID] by linarith
  then have "\<bar>?c * fround ?b\<bar> \<le> of_int (2 ^ 52)" using c by simp
  from rnd_within [OF exact_bound_of_int this]
  have r3: "rnd (?c * fround ?b) = Fin (supply_curve ?c ?n)" "supply_curve ?c ?n \<le> 2 ^ 52"
    by (auto simp: supply_curve_def dest: abs_le_D1)
  show "supply_curve ?c (rat_of_nat (unat height)) \<le> 2 ^ 52" using r3(2) by (simp only: n_def)
  have "fround ?c = ?c" using fr.fr_of_int [of 1400000000] fr.fr_of_int [of 70000000]
    by (simp add: supply_factor_def)
  then have lo: "?c \<le> supply_curve ?c ?n"
    using fround_mono [OF c0] by (simp add: supply_curve_def)
  then show "?c \<le> supply_curve ?c (rat_of_nat (unat height))" by (simp only: n_def)
  have "fmul (fconst 1400000000) (if chainID \<noteq> 1 then fconst (5 / 100) else Fin 1) = Fin ?c"
    by (simp add: supply_factor_def float_eval)
  moreover have "fconst (5 / 10000000) = Fin ?k" by (simp add: float_eval)
  ultimately have "TotalSupplyAt E chainID height = u64_of_f64 (pl_conv E) (Fin (supply_curve ?c ?n))"
    using h r0 r1(1) r2(1) r3(1) by (simp add: TotalSupplyAt_def Let_def f64_ops_Fin)
  then have "TotalSupplyAt E chainID height = of_int \<lfloor>supply_curve ?c n\<rfloor>"
    using lo r3(2) supply_factor_bounds(1) [of chainID] by (simp add: u64_of_f64_def)
  then show "TotalSupplyAt E chainID height = of_int \<lfloor>supply_curve ?c (rat_of_nat (unat height))\<rfloor>"
    by (simp only: n_def)
qed

lemma unat_of_int_u64: "0 \<le> n \<Longrightarrow> n < 2 ^ 64 \<Longrightarrow> unat (of_int n :: u64) = nat n"
  by (simp add: unsigned_of_int take_bit_int_eq_self)

lemma TotalSupplyAt_bounds:
  assumes "unat height \<le> 2 ^ 40"
  shows "70000000 \<le> unat (TotalSupplyAt E chainID height)" "unat (TotalSupplyAt E chainID height) \<le> 2 ^ 52"
    "int (unat (TotalSupplyAt E chainID height)) = \<lfloor>supply_curve (supply_factor chainID) (rat_of_nat (unat height))\<rfloor>"
proof -
  let ?x = "supply_curve (supply_factor chainID) (rat_of_nat (unat height))"
  note c = TotalSupplyAt_curve(1) [OF assms, of E chainID] TotalSupplyAt_curve(2,3) [OF assms, of chainID]
  have x: "70000000 \<le> ?x" using c(2) supply_factor_bounds(1) [of chainID] by linarith
  have f: "70000000 \<le> \<lfloor>?x\<rfloor>" "\<lfloor>?x\<rfloor> \<le> 2 ^ 52" using x c(3) by (simp_all add: le_floor_iff floor_le_iff)
  have "unat (TotalSupplyAt E chainID height) = nat \<lfloor>?x\<rfloor>"
    unfolding c(1) using f(1) order_le_less_trans [OF f(2), of "2 ^ 64"] by (intro unat_of_int_u64) simp_all
  from nat_of_floor_le [OF this f] show "70000000 \<le> unat (TotalSupplyAt E chainID height)"
    "unat (TotalSupplyAt E chainID height) \<le> 2 ^ 52" "int (unat (TotalSupplyAt E chainID height)) = \<lfloor>?x\<rfloor>"
    by blast+
qed

section \<open>The residual\<close>

lemma residual_scan_less: "best < i \<or> best = 0 \<Longrightarrow> residual_scan i best b vs < i + length vs \<or> residual_scan i best b vs = 0"
proof (induction vs arbitrary: i best b)
  case Nil
  then show ?case by auto
next
  case (Cons v vs)
  then show ?case using Cons.IH [of i "Suc i" v] Cons.IH [of best "Suc i" b] by auto
qed

lemma residualIndex_less:
  "residualIndex E addrs = Some r \<Longrightarrow> addrs \<noteq> [] \<Longrightarrow> r < length addrs"
proof -
  assume r: "residualIndex E addrs = Some r" and "addrs \<noteq> []"
  then obtain bs where bs: "opt_mapM (baseValue E) addrs = Some bs" "r = residual_scan 0 0 (Fin (- 1)) bs"
    by (auto simp: residualIndex_def)
  with residual_scan_less [of 0 0 "Fin (- 1)" bs] opt_mapM_length [OF bs(1)] \<open>addrs \<noteq> []\<close>
  show ?thesis by auto
qed

lemma others_eq: "r < length xs \<Longrightarrow> others r xs = take r xs @ drop (Suc r) xs"
proof -
  assume r: "r < length xs"
  have *: "map snd (filter (\<lambda>(i, _). i \<noteq> r) (enumerate n ys)) = ys"
    if "n + length ys \<le> r \<or> r < n" for n and ys :: "'a list"
  proof -
    have "filter (\<lambda>(i, _). i \<noteq> r) (enumerate n ys) = enumerate n ys"
      using that by (intro filter_True) (auto simp: in_set_enumerate_eq)
    then show ?thesis by simp
  qed
  have "xs = take r xs @ xs ! r # drop (Suc r) xs" using r by (rule id_take_nth_drop)
  then have "others r xs = others r (take r xs @ xs ! r # drop (Suc r) xs)" by (rule arg_cong)
  then show ?thesis using r * [of 0 "take r xs"] * [of "Suc r" "drop (Suc r) xs"]
    by (simp add: others_def enumerate_append_eq)
qed


section \<open>Conservation\<close>

text \<open>
  A running float sum of values that are not negative either passes the limit or is the
  rounded running sum of finite values: an infinity cannot be compensated later.
\<close>

lemma foldl_fadd_PInf: "list_all fpositive rs \<Longrightarrow> foldl fadd PInf rs = PInf"
proof (induction rs)
  case Nil
  then show ?case by simp
next
  case (Cons r rs)
  then show ?case by (cases r) (auto simp: fadd_def)
qed

lemma foldl_fadd_below:
  assumes "list_all fpositive rs" "0 \<le> a" "\<not> flt (Fin T) (foldl fadd (Fin a) rs)"
  shows "\<exists>xs. rs = map Fin xs \<and> (\<forall>x \<in> set xs. 0 \<le> x) \<and> fr.fr_accum a xs \<le> T"
  using assms
proof (induction rs arbitrary: a)
  case Nil
  then show ?case by (simp add: flt_def)
next
  case (Cons r rs)
  have "fadd (Fin a) r \<noteq> PInf" using Cons.prems foldl_fadd_PInf [of rs] by (auto simp: flt_def)
  then obtain x where x: "r = Fin x" "0 \<le> x" "fadd (Fin a) r = Fin (fround (a + x))"
    using Cons.prems(1,2) by (cases r) (auto simp: fadd_def dest: rnd_nonneg [OF add_nonneg_nonneg])
  have "\<exists>xs. rs = map Fin xs \<and> (\<forall>x \<in> set xs. 0 \<le> x) \<and> fr.fr_accum (fround (a + x)) xs \<le> T"
    using Cons.prems x fr.fr_nonneg by (intro Cons.IH) auto
  then obtain xs where "rs = map Fin xs" "\<forall>x \<in> set xs. 0 \<le> x" "fr.fr_accum (fround (a + x)) xs \<le> T"
    by blast
  with x show ?case by (intro exI [of _ "x # xs"]) simp
qed

lemma foldl_fadd_nonneg: "list_all fpositive rs \<Longrightarrow> fpositive a \<Longrightarrow> fpositive (foldl fadd a rs)"
  by (induction rs arbitrary: a) (auto simp: fpositive_fadd)

lemma sum_list_floor_nonneg: "(\<forall>x \<in> set xs. 0 \<le> x) \<Longrightarrow> 0 \<le> (\<Sum>x\<leftarrow>xs. \<lfloor>x :: rat\<rfloor>)"
  by (induction xs) auto

lemma unat_less_u64: "unat (w :: u64) < 2 ^ 64"
  using unsigned_less [of w, where 'a = nat] by simp

lemma int_unat_less: "int (unat (w :: u64)) < 2 ^ 64"
  using uint_lt2p [of w] by simp

text \<open>The prices of the other accounts never add up to more than the supply.\<close>

lemma priced_sum_le:
  assumes "list_all fpositive rs" "unat supply \<le> 2 ^ 52"
    "\<not> flt (f64_of_u64 supply) (foldl fadd (Fin 0) rs)"
  shows "(\<Sum>r\<leftarrow>rs. unat (u64_of_f64 oor r)) \<le> unat supply"
proof -
  have "f64_of_u64 supply = Fin (rat_of_nat (unat supply))"
    using assms(2) by (intro f64_of_u64_exact) (erule order_trans, simp)
  with assms foldl_fadd_below [of rs 0 "rat_of_nat (unat supply)"]
  obtain xs where xs: "rs = map Fin xs" "\<And>x. x \<in> set xs \<Longrightarrow> 0 \<le> x"
    "fr.fr_accum 0 xs \<le> rat_of_nat (unat supply)"
    by auto
  have "int n < 2 ^ 53" if "n \<le> 2 ^ 52" for n using that by simp
  from this [OF assms(2)] have le: "(\<Sum>x\<leftarrow>xs. \<lfloor>x\<rfloor>) \<le> int (unat supply)"
    using xs(2,3) by (intro fr.floor_sum_bound) (simp_all only: of_int_of_nat_eq)
  have bound: "\<lfloor>x\<rfloor> \<le> (\<Sum>y\<leftarrow>xs. \<lfloor>y\<rfloor>)" if "x \<in> set xs" for x
    using that xs(2) by (intro member_le_sum_list) auto
  have "int (unat (u64_of_f64 oor (Fin x))) = \<lfloor>x\<rfloor>" if "x \<in> set xs" for x
  proof -
    have f: "0 \<le> \<lfloor>x\<rfloor>" "\<lfloor>x\<rfloor> < 2 ^ 64"
      using xs(2) [OF that] order_le_less_trans [OF order_trans [OF bound [OF that] le] int_unat_less] by simp_all
    then have "x < 2 ^ 64" by (metis floor_less_iff of_int_numeral of_int_power)
    with xs(2) [OF that] f show ?thesis by (simp add: u64_of_f64_def unat_of_int_u64 del: of_nat_unat)
  qed
  then have "(\<Sum>x\<leftarrow>xs. int (unat (u64_of_f64 oor (Fin x)))) = (\<Sum>x\<leftarrow>xs. \<lfloor>x\<rfloor>)"
    by (intro arg_cong [of _ _ sum_list] map_cong) simp_all
  moreover have "int (\<Sum>r\<leftarrow>rs. unat (u64_of_f64 oor r)) = (\<Sum>x\<leftarrow>xs. int (unat (u64_of_f64 oor (Fin x))))"
    unfolding xs(1) by (induction xs) simp_all
  ultimately show ?thesis using le by linarith
qed

lemma foldl_plus_sum_list: "foldl (+) a ws = a + sum_list (ws :: u64 list)"
  by (induction ws arbitrary: a) (simp_all add: add.assoc)

lemma others_map_enumerate:
  assumes "r < length xs"
  shows "others r (map (\<lambda>(i, v). if i \<noteq> r then f v else c) (enumerate 0 xs)) = map f (others r xs)"
proof -
  let ?ys = "map (\<lambda>(i, v). if i \<noteq> r then f v else c) (enumerate 0 xs)"
  have "take r ?ys = map f (take r xs)" "drop (Suc r) ?ys = map f (drop (Suc r) xs)"
    using assms by (auto intro!: nth_equalityI simp: nth_enumerate_eq)
  with assms show ?thesis by (simp add: others_eq del: take_map drop_map)
qed

lemma sum_list_update_others:
  "r < length xs \<Longrightarrow> sum_list (map f (xs[r := v])) = f v + (\<Sum>x\<leftarrow>others r xs. (f x :: nat))"
  by (simp add: others_eq upd_conv_take_nth_drop)

lemma others_update: "r < length xs \<Longrightarrow> others r (xs[r := v]) = others r xs"
  by (simp add: others_eq)

lemma priced_balances_conserves:
  assumes "r < length raws" "list_all fpositive (others r raws)" "unat supply \<le> 2 ^ 52"
    "\<not> flt (f64_of_u64 supply) (foldl fadd (Fin 0) (others r raws))"
  shows "sum_list (map unat (priced_balances oor r supply raws)) = unat supply"
    "length (priced_balances oor r supply raws) = length raws"
proof -
  let ?out = "map (\<lambda>(i, v). if i \<noteq> r then u64_of_f64 oor v else 0) (enumerate 0 raws)"
  have len: "length ?out = length raws" by simp
  then show "length (priced_balances oor r supply raws) = length raws"
    by (simp add: priced_balances_def Let_def)
  have o: "others r ?out = map (u64_of_f64 oor) (others r raws)" using assms(1) by (rule others_map_enumerate)
  let ?s = "\<Sum>x\<leftarrow>others r ?out. unat x"
  have s: "?s \<le> unat supply"
    using priced_sum_le [OF assms(2,3,4), of oor] unfolding o by (simp add: o_def)
  then have "?s < 2 ^ 64" by (rule order_le_less_trans) (rule unat_less_u64)
  then have w: "unat (sum_list (others r ?out)) = ?s" by (rule unat_sum_list_no_wrap)
  with s have "unat (supply - sum_list (others r ?out)) = unat supply - ?s"
    by (subst unat_sub_no_wrap) (simp_all add: word_le_nat_alt)
  with s show "sum_list (map unat (priced_balances oor r supply raws)) = unat supply"
    using assms(1) len by (simp add: priced_balances_def Let_def foldl_plus_sum_list sum_list_update_others)
qed

section \<open>The snapshot returns\<close>

lemma fmul_between:
  assumes "2 powi a \<le> x" "x \<le> 2 powi b" "2 powi c \<le> y" "y \<le> 2 powi d" "- 1074 \<le> a + c" "b + d < 1024"
  shows "\<exists>z. fmul (Fin x) (Fin y) = Fin z \<and> 2 powi (a + c) \<le> z \<and> z \<le> 2 powi (b + d)"
proof -
  have pos: "0 < x" "0 < y"
    using assms(1,3) by (meson less_le_trans zero_less_power_int zero_less_numeral)+
  have "2 powi a * 2 powi c \<le> x * y" using assms(1,3) pos by (intro mult_mono) auto
  then have lo: "2 powi (a + c) \<le> x * y" by (simp add: power_int_add)
  have "x * y \<le> 2 powi b * 2 powi d" using assms(2,4) pos by (intro mult_mono) auto
  then have hi: "x * y \<le> 2 powi (b + d)" by (simp add: power_int_add)
  have "a < b + 1" using assms(1,2) order_trans [of "2 powi a" x "2 powi b"] by (simp add: powi2_le_iff)
  moreover have "c < d + 1" using assms(3,4) order_trans [of "2 powi c" y "2 powi d"] by (simp add: powi2_le_iff)
  ultimately have "- 1074 \<le> b + d" using assms(5) by linarith
  then have "rnd (x * y) = Fin (fround (x * y)) \<and> \<bar>fround (x * y)\<bar> \<le> 2 powi (b + d)"
    using pos hi assms(6) by (intro rnd_within exact_bound_powi2) auto
  moreover have "2 powi (a + c) \<le> fround (x * y)"
    using fround_mono [OF lo] fround_pow2 [OF assms(5)] by simp
  ultimately show ?thesis by (auto simp: f64_ops_Fin dest: abs_le_D1)
qed

lemma fit_returns:
  assumes "math_ok E" "fair_source E" "1 \<le> a" "a \<le> 2 powi 64" "1 \<le> b" "b \<le> 2 powi 64" "1 \<le> c" "c \<le> 2 powi 64"
  obtains v r' where "sampleLogNormal E r (fitLogNormal E (Fin a) (Fin b) (Fin c)) = Some (Fin v, r')"
    "2 powi (- 810) \<le> v" "v \<le> 2 powi 810"
proof -
  obtain mu sigma where "fitLogNormal E (Fin a) (Fin b) (Fin c) = (Fin mu, Fin sigma)" "\<bar>mu\<bar> \<le> 45" "\<bar>sigma\<bar> \<le> 45"
    using fitLogNormal_bounds [OF assms(1,3-8)] .
  with sampleLogNormal_returns [OF assms(1,2)] that show ?thesis by metis
qed

lemma baseValue_returns:
  assumes "math_ok E" "fair_source E"
  obtains v where "baseValue E addr = Some (Fin v)" "2 powi (- 810) \<le> v" "v \<le> 2 powi 810"
proof -
  have f: "balanceFit E = fitLogNormal E (Fin 20000000) (Fin 87900000) (Fin 398000000)"
    by (simp add: balanceFit_def float_eval)
  obtain v r' where "sampleLogNormal E (RngForAddrHeight addr 0) (balanceFit E) = Some (Fin v, r')"
    "2 powi (- 810) \<le> v" "v \<le> 2 powi 810"
    unfolding f by (rule fit_returns [OF assms, of 20000000 87900000 398000000]) auto
  with that show ?thesis by (simp add: baseValue_def)
qed

text \<open>A noise factor \<open>exp (sigma * z)\<close> with \<open>sigma\<close> at most a half is within \<open>2 ^ 8\<close> of one.\<close>

lemma noise_factor:
  assumes "math_ok E" "\<bar>z\<bar> \<le> 8" "\<bar>s\<bar> \<le> 1 / 2"
  shows "\<exists>n. pl_exp E (fmul (fconst s) (Fin z)) = Fin n \<and> 2 powi (- 8) \<le> n \<and> n \<le> 2 powi 8"
proof -
  have "exact_bound (1 / 2)" using exact_bound_powi2 [of "- 1"] by (simp add: power_int_minus)
  then have "fwithin (1 / 2) (fconst s)" using rnd_within [of "1 / 2" s] assms(3) by auto
  then have "fwithin 4 (fmul (fconst s) (Fin z))"
    by (rule fmul_within [of _ _ 8]) (use assms(2) exact_bound_of_int [of 4] in auto)
  then obtain y where "fmul (fconst s) (Fin z) = Fin y" "\<bar>y\<bar> \<le> rat_of_nat 4" by (auto simp: fwithin_cases)
  with math_okD(5) [OF assms(1), of y 4] show ?thesis by auto
qed

lemma rawValue_returns:
  assumes "math_ok E" "fair_source E"
  obtains v where "rawValue E addr height = Some (Fin v)" "0 < v" "v \<le> 2 powi 818"
proof -
  obtain b where b: "baseValue E addr = Some (Fin b)" "2 powi (- 810) \<le> b" "b \<le> 2 powi 810"
    by (rule baseValue_returns [OF assms])
  obtain z r' where z: "StandardNormal E (RngForAddrHeight addr height) = Some (Fin z, r')" "\<bar>z\<bar> \<le> 8"
    by (rule StandardNormal_returns [OF assms])
  obtain u r1 where u: "float64 E (RngForAddrHeight addr height) = Some (Fin u, r1)"
    by (rule float64_returns [OF assms(2)])
  obtain n where n: "pl_exp E (fmul (fconst (15 / 100)) (Fin z)) = Fin n" "2 powi (- 8) \<le> n" "n \<le> 2 powi 8"
    using noise_factor [OF assms(1) z(2), of "15 / 100"] by auto
  obtain p where p: "fmul (Fin b) (Fin n) = Fin p" "2 powi (- 818) \<le> p" "p \<le> 2 powi 818"
    using fmul_between [OF b(2,3) n(2,3)] by auto
  have pos: "0 < p" "0 < b" using p(2) b(2) by (meson less_le_trans zero_less_power_int zero_less_numeral)+
  have "b \<le> 2 powi 818" using b(3) by (rule order_trans) (simp only: powi2_le_iff)
  with b z u n p pos that show ?thesis
    by (cases "flt (Fin u) (fconst (2 / 100))") (auto simp: rawValue_def addrActiveAtHeight_def)
qed

lemma exchangeRate_returns:
  assumes "math_ok E" "fair_source E"
  shows "\<exists>rate. exchangeRate E addrs chainID = Some rate \<and> fpositive rate"
proof -
  have pos: "(0 :: rat) < 2 powi (- 810)" by simp
  have "\<exists>y. baseValue E a = Some y" for a using baseValue_returns [OF assms] by metis
  then obtain bases where bases: "opt_mapM (baseValue E) addrs = Some bases"
    using opt_mapM_total [of addrs "baseValue E"] by blast
  then have "list_all2 (\<lambda>x y. baseValue E x = Some y) addrs bases" by (simp only: opt_mapM_eq_Some)
  then have "list_all fpositive bases"
  proof (induction rule: list_all2_induct)
    case (Cons x xs y ys)
    obtain v where "baseValue E x = Some (Fin v)" "2 powi (- 810) \<le> v" using baseValue_returns [OF assms] .
    with Cons less_le_trans [OF pos, of v] show ?case by auto
  qed simp
  then have s: "fpositive (foldl fadd (Fin 0) bases)" by (rule foldl_fadd_nonneg) simp
  have n: "unat (TotalSupplyAt E chainID 0) \<le> 2 ^ 52" by (rule TotalSupplyAt_bounds) simp
  then have t: "f64_of_u64 (TotalSupplyAt E chainID 0) = Fin (rat_of_nat (unat (TotalSupplyAt E chainID 0)))"
    by (intro f64_of_u64_exact) (erule order_trans, simp)
  have "fpositive (if feq s (Fin 0) then Fin 0 else fdiv (Fin (rat_of_nat m)) s)" if "fpositive s" for s m
    using that by (cases s) (auto simp: feq_def fdiv_def intro: fpositive_rnd)
  from this [OF s] show ?thesis by (simp only: exchangeRate_def bases t Let_def) simp
qed

text \<open>Whether a height is one of the rare ones at which every balance is scaled down.\<close>

definition snapshot_falls_back :: "'a platform_scheme \<Rightarrow> bytes list \<Rightarrow> u64 \<Rightarrow> u64 \<Rightarrow> bool option" where
  "snapshot_falls_back E addrs chainID height =
     do { residual \<leftarrow> residualIndex E addrs;
          rate \<leftarrow> exchangeRate E addrs chainID;
          raws \<leftarrow> raws_of E addrs height residual rate;
          Some (1 < length addrs \<and> flt (f64_of_u64 (TotalSupplyAt E chainID height))
                  (foldl fadd (Fin 0) (others residual raws))) }"

lemma raws_of_nth:
  assumes "raws_of E addrs height r rate = Some raws"
  shows "length raws = length addrs"
    "i < length addrs \<Longrightarrow> i \<noteq> r \<Longrightarrow> \<exists>v. rawValue E (addrs ! i) height = Some v \<and> raws ! i = fmul v rate"
  using opt_mapM_length [OF assms [unfolded raws_of_def]] opt_mapM_nth [OF assms [unfolded raws_of_def], of i]
  by (auto simp: nth_enumerate_eq)

lemma set_others: "r < length xs \<Longrightarrow> set (others r xs) = {xs ! i |i. i < length xs \<and> i \<noteq> r}"
proof -
  have "set (others r xs) = {x. \<exists>i. i < length xs \<and> i \<noteq> r \<and> xs ! i = x}"
    by (force simp: others_def in_set_enumerate_eq image_iff)
  then show ?thesis by auto
qed

lemma snapshot_parts:
  assumes "math_ok E" "fair_source E" "addrs \<noteq> []"
  obtains residual rate raws where
    "residualIndex E addrs = Some residual" "residual < length addrs"
    "exchangeRate E addrs chainID = Some rate"
    "raws_of E addrs height residual rate = Some raws" "length raws = length addrs"
    "list_all fpositive (others residual raws)"
proof -
  have "\<exists>y. baseValue E a = Some y" for a using baseValue_returns [OF assms(1,2)] by metis
  then obtain bases where "opt_mapM (baseValue E) addrs = Some bases"
    using opt_mapM_total [of addrs "baseValue E"] by blast
  then obtain residual where r: "residualIndex E addrs = Some residual" by (simp add: residualIndex_def)
  then have rl: "residual < length addrs" using assms(3) by (rule residualIndex_less)
  obtain rate where rate: "exchangeRate E addrs chainID = Some rate" "fpositive rate"
    using exchangeRate_returns [OF assms(1,2)] by blast
  have "\<exists>y. rawValue E a height = Some y" for a using rawValue_returns [OF assms(1,2)] by metis
  then have "\<exists>raws. raws_of E addrs height residual rate = Some raws"
    unfolding raws_of_def by (intro opt_mapM_total) fastforce
  then obtain raws where raws: "raws_of E addrs height residual rate = Some raws" by blast
  note nth = raws_of_nth [OF raws]
  have "fpositive (raws ! i)" if i: "i < length raws" "i \<noteq> residual" for i
  proof -
    obtain v where "rawValue E (addrs ! i) height = Some (Fin v)" "0 < v"
      by (rule rawValue_returns [OF assms(1,2)])
    with nth(2) [of i] i nth(1) rate(2) show ?thesis by (auto intro: fpositive_fmul_pos)
  qed
  then have "list_all fpositive (others residual raws)"
    using rl nth(1) by (auto simp: list_all_iff set_others)
  with that r rl rate(1) raws nth(1) show ?thesis by blast
qed

lemma SnapshotBalancesAt_many:
  assumes "residualIndex E addrs = Some residual" "exchangeRate E addrs chainID = Some rate"
    "raws_of E addrs height residual rate = Some raws" "1 < length addrs"
  shows "SnapshotBalancesAt E addrs chainID height =
      Some (if flt (f64_of_u64 (TotalSupplyAt E chainID height)) (foldl fadd (Fin 0) (others residual raws))
            then fallback_balances (pl_conv E) residual (f64_of_u64 (TotalSupplyAt E chainID height))
                   (foldl fadd (Fin 0) (others residual raws)) raws
            else priced_balances (pl_conv E) residual (TotalSupplyAt E chainID height) raws)"
    "snapshot_falls_back E addrs chainID height =
      Some (flt (f64_of_u64 (TotalSupplyAt E chainID height)) (foldl fadd (Fin 0) (others residual raws)))"
  using assms by (auto simp: SnapshotBalancesAt_def snapshot_falls_back_def Let_def)

lemma snapshot_conservation:
  assumes "math_ok E" "fair_source E" "addrs \<noteq> []" "unat height \<le> 2 ^ 40"
  shows "\<exists>bs fb. SnapshotBalancesAt E addrs chainID height = Some bs \<and> length bs = length addrs \<and>
    snapshot_falls_back E addrs chainID height = Some fb \<and>
    (\<not> fb \<longrightarrow> sum_list (map unat bs) = unat (TotalSupplyAt E chainID height))"
proof -
  obtain residual rate raws where p: "residualIndex E addrs = Some residual" "residual < length addrs"
    "exchangeRate E addrs chainID = Some rate" "raws_of E addrs height residual rate = Some raws"
    "length raws = length addrs" "list_all fpositive (others residual raws)"
    by (rule snapshot_parts [OF assms(1-3)])
  consider a where "addrs = [a]" | "1 < length addrs"
    using assms(3) by (cases addrs; cases "tl addrs") auto
  then show ?thesis
  proof cases
    case 1
    then show ?thesis using p by (auto simp: SnapshotBalancesAt_def snapshot_falls_back_def)
  next
    case 2
    note e = SnapshotBalancesAt_many [OF p(1,3,4) 2]
    have r: "residual < length raws" using p(2,5) by simp
    show ?thesis
    proof (cases "flt (f64_of_u64 (TotalSupplyAt E chainID height)) (foldl fadd (Fin 0) (others residual raws))")
      case True
      then show ?thesis using e p(5) by (intro exI [of _ True] exI) (auto simp: fallback_balances_def Let_def)
    next
      case False
      from priced_balances_conserves [OF r p(6) TotalSupplyAt_bounds(2) [OF assms(4)] False] False e p(5)
      show ?thesis by (intro exI [of _ False] exI) auto
    qed
  qed
qed

text \<open>Off the residual slot the balance of a priced height is the truncated price of that address alone.\<close>

lemma priced_nth: "i < length raws \<Longrightarrow> i \<noteq> r \<Longrightarrow> priced_balances oor r supply raws ! i = u64_of_f64 oor (raws ! i)"
  by (simp add: priced_balances_def Let_def nth_enumerate_eq)

lemma inactive_balance_price:
  assumes "SnapshotBalancesAt E addrs chainID height = Some bs" "snapshot_falls_back E addrs chainID height = Some False"
    "residualIndex E addrs = Some residual" "i < length addrs" "i \<noteq> residual" "1 < length addrs"
    "addrActiveAtHeight E (addrs ! i) height = Some False"
  shows "\<exists>b rate. baseValue E (addrs ! i) = Some b \<and> exchangeRate E addrs chainID = Some rate \<and>
    bs ! i = u64_of_f64 (pl_conv E) (fmul b rate)"
proof -
  obtain rate raws where p: "exchangeRate E addrs chainID = Some rate"
    "raws_of E addrs height residual rate = Some raws"
    using assms(2,3) by (auto simp: snapshot_falls_back_def bind_eq_Some_conv)
  note e = SnapshotBalancesAt_many [OF assms(3) p assms(6)]
  have "bs = priced_balances (pl_conv E) residual (TotalSupplyAt E chainID height) raws"
    using e assms(1,2) by simp
  moreover note raws_of_nth(1) [OF p(2)] raws_of_nth(2) [OF p(2) assms(4,5)]
  ultimately show ?thesis
    using p(1) assms(4,5,7) by (auto simp: priced_nth rawValue_def)
qed

lemma inactive_balance_stable:
  assumes "SnapshotBalancesAt E addrs chainID h = Some bs" "snapshot_falls_back E addrs chainID h = Some False"
    "SnapshotBalancesAt E addrs chainID h' = Some bs'" "snapshot_falls_back E addrs chainID h' = Some False"
    "residualIndex E addrs = Some residual" "i < length addrs" "i \<noteq> residual"
    "addrActiveAtHeight E (addrs ! i) h = Some False" "addrActiveAtHeight E (addrs ! i) h' = Some False"
  shows "bs ! i = bs' ! i"
proof -
  have "residual < length addrs" using assms(5,6) by (intro residualIndex_less) auto
  with assms(6,7) have n: "1 < length addrs" by linarith
  from inactive_balance_price [OF assms(1,2,5,6,7) n assms(8)]
    inactive_balance_price [OF assms(3,4,5,6,7) n assms(9)]
  show ?thesis by auto
qed

text \<open>The residual holds the largest base value.\<close>

lemma residual_scan_max:
  assumes "bs = us @ map Fin xs" "best < length us \<and> bs ! best = Fin b \<or> best = 0 \<and> us = [] \<and> b = - 1"
    "\<And>i. i < length us \<Longrightarrow> fle (bs ! i) (Fin b)" "\<forall>x \<in> set xs. - 1 < x"
    "r = residual_scan (length us) best (Fin b) (map Fin xs)" "j < length bs"
  shows "fle (bs ! j) (bs ! r)"
  using assms
proof (induction xs arbitrary: us best b)
  case Nil
  then show ?case by (cases "us = []") auto
next
  case (Cons x xs)
  show ?case
  proof (cases "b < x")
    case True
    show ?thesis
    proof (rule Cons.IH [of "us @ [Fin x]" "length us" x])
      show "fle (bs ! i) (Fin x)" if "i < length (us @ [Fin x])" for i
        using that Cons.prems(1) Cons.prems(3) [of i] True
        by (cases "i < length us") (cases "bs ! i", auto simp: fle_def nth_append less_Suc_eq)
    qed (use Cons.prems True in \<open>auto simp: flt_def nth_append\<close>)
  next
    case False
    show ?thesis
    proof (rule Cons.IH [of "us @ [Fin x]" best b])
      show "fle (bs ! i) (Fin b)" if "i < length (us @ [Fin x])" for i
        using that Cons.prems(1) Cons.prems(3) [of i] False
        by (cases "i < length us") (auto simp: fle_def nth_append less_Suc_eq)
    qed (use Cons.prems False in \<open>auto simp: flt_def nth_append\<close>)
  qed
qed

lemma residualIndex_largest:
  assumes "math_ok E" "fair_source E" "residualIndex E addrs = Some r" "j < length addrs"
  shows "\<exists>bj br. baseValue E (addrs ! j) = Some bj \<and> baseValue E (addrs ! r) = Some br \<and> fle bj br"
proof -
  obtain bs where bs: "opt_mapM (baseValue E) addrs = Some bs" "r = residual_scan 0 0 (Fin (- 1)) bs"
    using assms(3) by (auto simp: residualIndex_def)
  note len = opt_mapM_length [OF bs(1)]
  have r: "r < length addrs" using assms(3,4) by (intro residualIndex_less) auto
  have "\<exists>x. b = Fin x \<and> - 1 < x" if b: "b \<in> set bs" for b
  proof -
    obtain i where i: "i < length addrs" "b = bs ! i" using b len by (auto simp: in_set_conv_nth)
    obtain v where "baseValue E (addrs ! i) = Some (Fin v)" "2 powi (- 810) \<le> v"
      by (rule baseValue_returns [OF assms(1,2)])
    moreover have "(0 :: rat) < 2 powi (- 810)" by simp
    ultimately have "- 1 < v" "b = Fin v" using opt_mapM_nth [OF bs(1) i(1)] i(2) by (linarith, simp)
    then show ?thesis by blast
  qed
  then obtain f where f: "\<And>b. b \<in> set bs \<Longrightarrow> b = Fin (f b) \<and> - 1 < f b" by metis
  have "bs = map Fin (map f bs)" using f by (induction bs) auto
  then have "fle (bs ! j) (bs ! r)"
    using f assms(4) len bs(2) by (intro residual_scan_max [of bs "[]" "map f bs" 0 "- 1"]) auto
  then show ?thesis using opt_mapM_nth [OF bs(1)] assms(4) r by blast
qed

section \<open>Supply over time\<close>

lemma TotalSupplyAt_mono:
  assumes "unat h \<le> unat h'" "unat h' \<le> 2 ^ 40"
  shows "TotalSupplyAt E chainID h \<le> TotalSupplyAt E chainID h'"
proof -
  have h: "unat h \<le> 2 ^ 40" using assms by (rule order_trans)
  have "rat_of_nat (unat h) \<le> rat_of_nat (unat h')" using assms(1) by (simp only: of_nat_le_iff)
  moreover have "0 \<le> supply_factor chainID" by (simp add: supply_factor_def)
  ultimately have "int (unat (TotalSupplyAt E chainID h)) \<le> int (unat (TotalSupplyAt E chainID h'))"
    unfolding TotalSupplyAt_bounds(3) [OF h] TotalSupplyAt_bounds(3) [OF assms(2)]
    by (intro floor_mono supply_curve_mono)
  then show ?thesis by (simp only: of_nat_le_iff word_le_nat_alt)
qed


section \<open>The fallback and the stakes\<close>

text \<open>
  The scaled-down balances are truncated one by one and nothing takes up the remainder: with
  two other accounts priced 7 and 8 against a supply of 10, the snapshot adds up to 9.
\<close>

lemma fallback_example: "fallback_balances oor 2 (Fin 10) (Fin 15) [Fin 7, Fin 8, Fin 0] = [4, 5, 0]"
proof -
  have "\<lfloor>2627099782632789 / 562949953421312 :: rat\<rfloor> = 4" "\<lfloor>6004799503160661 / 1125899906842624 :: rat\<rfloor> = 5"
    by (simp_all add: floor_eq_iff)
  then show ?thesis by (simp add: fallback_balances_def float_eval u64_of_f64_def)
qed

lemma fallback_residual_zero:
  "r < length raws \<Longrightarrow> fallback_balances oor r t s raws ! r = 0"
  by (simp add: fallback_balances_def Let_def nth_enumerate_eq)

lemma StakeAt_returns:
  assumes "math_ok E" "fair_source E"
  shows "\<exists>s. StakeAt E addr chainID height = Some s"
proof -
  have f: "stakeFit E = fitLogNormal E (Fin 500000) (Fin 931000) (Fin 9310000)"
    by (simp add: stakeFit_def float_eval)
  obtain v r' where "sampleLogNormal E (RngForAddrHeight addr 0) (stakeFit E) = Some (Fin v, r')"
    unfolding f by (rule fit_returns [OF assms, of 500000 931000 9310000]) auto
  moreover obtain z r'' where "StandardNormal E (RngForAddrHeight (addr @ [ucast chainID]) height) = Some (Fin z, r'')"
    by (rule StandardNormal_returns [OF assms])
  ultimately show ?thesis by (simp add: StakeAt_def)
qed

text \<open>The chain enters a stake only through its low byte.\<close>

lemma StakeAt_chain_byte:
  "(ucast c :: 8 word) = ucast c' \<Longrightarrow> StakeAt E addr c height = StakeAt E addr c' height"
  by (simp add: StakeAt_def)

text \<open>On distinct addresses \<open>BalanceAt\<close> reads the snapshot position of the address.\<close>

lemma BalanceAt_nth:
  assumes "SnapshotBalancesAt E addrs chainID height = Some bs" "distinct addrs" "i < length addrs" "length bs = length addrs"
  shows "BalanceAt E (addrs ! i) addrs chainID height = Some (bs ! i)"
proof -
  have "balance_lookup (as ! i) as cs = cs ! i" if "distinct as" "i < length as" "length cs = length as" for as cs i
    using that
  proof (induction as cs arbitrary: i rule: list_induct2')
    case (4 a as c cs)
    then show ?case by (cases i) auto
  qed auto
  with assms show ?thesis by (simp add: BalanceAt_def)
qed

end
