(* ===== verification/LibTypes.thy ===== *)
theory LibTypes
  imports Prelude
begin

text \<open>
  The wire types of the Canopy packages \<open>lib\<close> and \<open>fsm\<close> behind blocks, certificates,
  transactions, events and dex batches, again with exactly the fields the repository
  sets or reads. A slice that may be \<open>nil\<close> where the program can tell is an \<open>option\<close>.
\<close>

section \<open>Shared parts\<close>

record pool_points =
  pt_Address :: bytes
  pt_Points :: u64

record double_signer =
  ds_Id :: bytes
  ds_Heights :: "u64 list"

record payment_percents =
  pp_Address :: bytes
  pp_Percent :: u64
  pp_ChainId :: u64

section \<open>Dex batches and certificates\<close>

record dex_limit_order =
  lo_AmountForSale :: u64

record dex_deposit =
  de_Amount :: u64
  de_Address :: bytes

record dex_withdraw =
  wi_Percent :: u64
  wi_Address :: bytes

record dex_batch =
  db_Committee :: u64
  db_ReceiptHash :: bytes
  db_Orders :: "dex_limit_order list option"
  db_Deposits :: "dex_deposit list option"
  db_Withdrawals :: "dex_withdraw list option"
  db_PoolSize :: u64
  db_CounterPoolSize :: u64
  db_PoolPoints :: "pool_points list"
  db_TotalPoolPoints :: u64
  db_Receipts :: "u64 list"
  db_LockedHeight :: u64
  db_LivenessFallback :: bool

record dex_price =
  dp_LocalChainId :: u64
  dp_RemoteChainId :: u64
  dp_LocalPool :: u64
  dp_RemotePool :: u64
  dp_E6ScaledPrice :: u64

record view =
  vw_NetworkId :: u64
  vw_ChainId :: u64
  vw_Height :: u64
  vw_RootHeight :: u64
  vw_Round :: u64
  vw_Phase :: string

record certificate_result =
  cr_PaymentPercents :: "payment_percents list"
  cr_NumberOfSamples :: u64
  cr_Orders :: "unit option"              \<comment> \<open>\<open>Orders\<close>: absent, or present with empty lists\<close>
  cr_CheckpointHeight :: u64
  cr_CheckpointBlockHash :: bytes
  cr_DexBatch :: "dex_batch option"
  cr_DoubleSigners :: "double_signer list option"

record quorum_certificate =
  qc_Header :: view
  qc_Results :: certificate_result
  qc_ResultsHash :: bytes
  qc_Block :: bytes
  qc_BlockHash :: bytes
  qc_ProposerKey :: bytes
  qc_Signature :: bytes
  qc_Bitmap :: bytes

section \<open>Transactions, events, blocks\<close>

datatype fsm_message =
    MessageSend (ms_From: bytes) (ms_To: bytes) (ms_Amount: u64)
  | MessageDexLimitOrder (mo_ChainId: u64) (mo_AmountForSale: u64) (mo_RequestedAmount: u64) (mo_Address: bytes)
  | MessageEditStake (me_Address: bytes) (me_Amount: u64) (me_Committees: "u64 list") (me_NetAddress: string)
      (me_Output: bytes) (me_Compound: bool) (me_Signer: bytes)
  | MessageCertificateResults (mc_Qc: quorum_certificate)
  | MessageDexLiquidityDeposit (md_ChainId: u64) (md_Amount: u64) (md_Address: bytes)
  | MessageDexLiquidityWithdraw (mw_ChainId: u64) (mw_Percent: u64) (mw_Address: bytes)
  | MessageStake (mk_PublicKey: bytes) (mk_Amount: u64) (mk_Committees: "u64 list") (mk_NetAddress: string)
      (mk_Output: bytes) (mk_Delegate: bool) (mk_Compound: bool) (mk_Signer: bytes)
  | MessageUnstake (mu_Address: bytes)

datatype message_kind =
    SendMsg | DexLimitOrderMsg | EditStakeMsg | CertificateResultsMsg | DexLiquidityDepositMsg
  | DexLiquidityWithdrawMsg | StakeMsg | UnstakeMsg

fun kind_of :: "fsm_message \<Rightarrow> message_kind" where
  "kind_of (MessageSend _ _ _) = SendMsg"
| "kind_of (MessageDexLimitOrder _ _ _ _) = DexLimitOrderMsg"
| "kind_of (MessageEditStake _ _ _ _ _ _ _) = EditStakeMsg"
| "kind_of (MessageCertificateResults _) = CertificateResultsMsg"
| "kind_of (MessageDexLiquidityDeposit _ _ _) = DexLiquidityDepositMsg"
| "kind_of (MessageDexLiquidityWithdraw _ _ _) = DexLiquidityWithdrawMsg"
| "kind_of (MessageStake _ _ _ _ _ _ _ _) = StakeMsg"
| "kind_of (MessageUnstake _) = UnstakeMsg"

record transaction =
  tx_MessageType :: string
  tx_Msg :: "bytes option"                \<comment> \<open>the packed message, \<open>None\<close> for nil\<close>
  tx_CreatedHeight :: u64
  tx_Time :: u64
  tx_Fee :: u64
  tx_NetworkId :: u64
  tx_ChainId :: u64

record tx_result =
  tr_Sender :: bytes
  tr_MessageType :: string
  tr_Height :: u64
  tr_Index :: u64
  tr_Transaction :: transaction
  tr_TxHash :: string

datatype event_msg =
    EventReward u64
  | EventSlash u64
  | EventDexSwap u64 u64 bool bool
  | EventDexLiquidityDeposit u64 u64
  | EventDexLiquidityWithdrawal bytes
  | EventOrderBookSwap bytes
  | EventAutoPause bytes
  | EventAutoBeginUnstaking bytes
  | EventFinishUnstaking bytes

datatype event_kind = RewardEvent | SlashEvent | DexSwapEvent | DexLiquidityDepositEvent

record event =
  ev_EventType :: string
  ev_Msg :: "event_msg option"
  ev_Height :: u64
  ev_Reference :: string
  ev_ChainId :: u64
  ev_BlockHeight :: u64
  ev_BlockHash :: bytes
  ev_Address :: bytes

record block_header =
  bh_Height :: u64
  bh_Hash :: bytes
  bh_NetworkId :: u64
  bh_Time :: u64
  bh_NumTxs :: u64
  bh_TotalTxs :: u64
  bh_TotalVdfIterations :: u64
  bh_LastBlockHash :: bytes
  bh_StateRoot :: bytes
  bh_TransactionRoot :: bytes
  bh_ValidatorRoot :: bytes
  bh_NextValidatorRoot :: bytes
  bh_ProposerAddress :: bytes

record block_meta =
  bm_Size :: u64
  bm_Took :: u64

record block_result =
  br_BlockHeader :: block_header
  br_Transactions :: "tx_result list"
  br_Events :: "event list"
  br_Meta :: "block_meta option"

end
