(* ===== verification/FsmTypes.thy ===== *)
theory FsmTypes
  imports LibTypes
begin

text \<open>
  The state types of the Canopy package \<open>fsm\<close> that the repository builds and reads, with
  exactly the fields it sets or reads (every other field keeps its zero value).
\<close>

section \<open>Ledger entities\<close>

record account =
  ac_Address :: bytes
  ac_Amount :: u64

record pool =
  po_Id :: u64
  po_Amount :: u64
  po_Points :: "pool_points list"
  po_TotalPoolPoints :: u64

record validator =
  va_Address :: bytes
  va_PublicKey :: bytes
  va_NetAddress :: string
  va_StakedAmount :: u64
  va_Committees :: "u64 list"
  va_MaxPausedHeight :: u64
  va_UnstakingHeight :: u64
  va_Output :: bytes
  va_Delegate :: bool
  va_Compound :: bool

record supply_info =
  su_Total :: u64
  su_Staked :: u64
  su_DelegatedOnly :: u64
  su_CommitteeStaked :: "pool list"
  su_CommitteeDelegatedOnly :: "pool list"

record non_signer =
  ns_Address :: bytes
  ns_Counter :: u64

record sell_order =
  so_Id :: bytes
  so_Committee :: u64
  so_Data :: bytes
  so_AmountForSale :: u64
  so_RequestedAmount :: u64
  so_SellerReceiveAddress :: bytes
  so_BuyerSendAddress :: bytes
  so_BuyerReceiveAddress :: bytes
  so_BuyerChainDeadline :: u64
  so_SellersSendAddress :: bytes

record order_book =
  ob_ChainId :: u64
  ob_Orders :: "sell_order option list"   \<comment> \<open>pointers, \<open>None\<close> for nil\<close>

record order_books =
  obs_OrderBooks :: "order_book option list"

record committee_data =
  cd_ChainId :: u64
  cd_LastRootHeightUpdated :: u64
  cd_LastChainHeightUpdated :: u64
  cd_PaymentPercents :: "payment_percents list"
  cd_NumberOfSamples :: u64

record committees_data =
  cds_List :: "committee_data list"

end
