(* ===== verification/ParamTypes.thy ===== *)
theory ParamTypes
  imports Prelude
begin

text \<open>
  The parameter and governance types of the Canopy package \<open>fsm\<close>, with exactly the fields
  the repository sets.
\<close>

section \<open>Parameters\<close>

record consensus_params =
  cp_BlockSize :: u64
  cp_ProtocolVersion :: string
  cp_RootChainId :: u64
  cp_Retired :: u64

record validator_params =
  vp_UnstakingBlocks :: u64
  vp_MaxPauseBlocks :: u64
  vp_DoubleSignSlashPercentage :: u64
  vp_NonSignSlashPercentage :: u64
  vp_MaxNonSign :: u64
  vp_NonSignWindow :: u64
  vp_MaxCommittees :: u64
  vp_MaxCommitteeSize :: u64
  vp_EarlyWithdrawalPenalty :: u64
  vp_DelegateUnstakingBlocks :: u64
  vp_MinimumOrderSize :: u64
  vp_StakePercentForSubsidizedCommittee :: u64
  vp_MaxSlashPerCommittee :: u64
  vp_DelegateRewardPercentage :: u64
  vp_BuyDeadlineBlocks :: u64
  vp_LockOrderFeeMultiplier :: u64
  vp_MinimumStakeForValidators :: u64
  vp_MinimumStakeForDelegates :: u64
  vp_MaximumDelegatesPerCommittee :: u64

record fee_params =
  fp_SendFee :: u64
  fp_StakeFee :: u64
  fp_EditStakeFee :: u64
  fp_UnstakeFee :: u64
  fp_PauseFee :: u64
  fp_UnpauseFee :: u64
  fp_ChangeParameterFee :: u64
  fp_DaoTransferFee :: u64
  fp_CertificateResultsFee :: u64
  fp_SubsidyFee :: u64
  fp_CreateOrderFee :: u64
  fp_EditOrderFee :: u64
  fp_DeleteOrderFee :: u64
  fp_DexLimitOrderFee :: u64
  fp_DexLiquidityDepositFee :: u64
  fp_DexLiquidityWithdrawFee :: u64

record params =
  pa_Consensus :: consensus_params
  pa_Validator :: validator_params
  pa_Fee :: fee_params
  pa_DaoRewardPercentage :: u64          \<comment> \<open>the only field of \<open>Governance\<close>\<close>

section \<open>Governance\<close>

record vote_stats =
  vs_ApproveTokens :: u64
  vs_RejectTokens :: u64
  vs_TotalVotedTokens :: u64
  vs_TotalTokens :: u64
  vs_ApprovePercentage :: u64
  vs_RejectPercentage :: u64
  vs_VotedPercentage :: u64

record poll_result =
  pr_ProposalHash :: string
  pr_ProposalURL :: string
  pr_Accounts :: vote_stats
  pr_Validators :: vote_stats

record proposal =
  gp_Proposal :: string
  gp_Approve :: bool

end
