(* ===== verification/Messages.thy ===== *)
theory Messages
  imports Ledger FsmTypes ParamTypes
begin

text \<open>
  Snapshots, indexer blobs, and the operations of the Canopy packages and of the
  signature scheme that the program calls, as the fields of an environment record that
  extends the platform.
\<close>

section \<open>Snapshots and blobs\<close>

record genesis_state =
  gs_Time :: u64
  gs_Pools :: "pool list"
  gs_Accounts :: "account list"
  gs_Validators :: "validator list"
  gs_Params :: params
  gs_Supply :: supply_info
  gs_Committees :: committees_data
  gs_OrderBooks :: order_books
  gs_NonSigners :: "non_signer list option"
  gs_DoubleSigners :: "double_signer list option"
  gs_RetiredCommittees :: "u64 list"

record indexer_blob =
  ib_Block :: bytes
  ib_Accounts :: "bytes list"
  ib_Pools :: "bytes list"
  ib_Validators :: "bytes list"
  ib_Params :: bytes
  ib_Supply :: bytes
  ib_Orders :: bytes
  ib_CommitteesData :: bytes
  ib_SubsidizedCommittees :: "u64 list"
  ib_RetiredCommittees :: "u64 list"
  ib_TotalValidatorsActive :: u32
  ib_TotalValidatorsPaused :: u32
  ib_TotalValidatorsUnstaking :: u32

record indexer_blobs =
  ibs_Current :: "indexer_blob option"
  ibs_Previous :: "indexer_blob option"

datatype proto_value =
    PBlock block_result
  | PAccount account
  | PPool pool
  | PValidator validator
  | PParams params
  | PSupply supply_info
  | POrderBooks order_books
  | PCommittees committees_data
  | PBlobs indexer_blobs

section \<open>The environment\<close>

text \<open>
  Code outside the repository: Ed25519 keys, the address and key encodings of \<open>lib/crypto\<close>,
  the constants of \<open>fsm\<close>, Protocol Buffers marshalling (\<open>None\<close> or \<open>Inl\<close> for an error),
  \<open>SafeMulDiv\<close>, \<open>RemovePoints\<close>, \<open>DeltaIndexerBlobs\<close>.
\<close>

record env = platform +
  en_ed25519_public :: "bytes \<Rightarrow> bytes"
  en_new_public_key :: "bytes \<Rightarrow> bytes option"   \<comment> \<open>\<open>NewPublicKeyFromBytes(b)\<close>, then \<open>Bytes()\<close>\<close>
  en_key_address :: "bytes \<Rightarrow> bytes"             \<comment> \<open>\<open>Address().Bytes()\<close> of that key\<close>
  en_address_size :: nat
  en_holding_addend :: u64
  en_liquidity_addend :: u64
  en_message_name :: "message_kind \<Rightarrow> string"
  en_event_name :: "event_kind \<Rightarrow> string"
  en_phase_precommit_vote :: string
  en_any_new :: "fsm_message \<Rightarrow> bytes option"
  en_marshal :: "proto_value \<Rightarrow> string + bytes"
  en_safe_mul_div :: "u64 \<Rightarrow> u64 \<Rightarrow> u64 \<Rightarrow> u64"
  en_remove_points :: "pool \<Rightarrow> bytes \<Rightarrow> u64 \<Rightarrow> pool"
  en_delta_blobs :: "indexer_blobs \<Rightarrow> string + indexer_blobs"

text \<open>
  What the chain builder relies on: a 32-byte Ed25519 public key is a valid key of
  \<open>lib/crypto\<close>, and addresses are not longer than a SHA-256 digest.
\<close>

definition env_ok :: "'a env_scheme \<Rightarrow> bool" where
  "env_ok E \<longleftrightarrow> (\<forall>seed. length seed = 32 \<longrightarrow> en_new_public_key E (en_ed25519_public E seed) \<noteq> None)
     \<and> en_address_size E \<le> 32"

lemma env_okD:
  "env_ok E \<Longrightarrow> length seed = 32 \<Longrightarrow> \<exists>k. en_new_public_key E (en_ed25519_public E seed) = Some k"
  "env_ok E \<Longrightarrow> en_address_size E \<le> 32"
  by (auto simp: env_ok_def)

text \<open>The validator's key pair of a seed: \<open>ed25519.NewKeyFromSeed\<close> panics on other lengths.\<close>

definition public_key_of_seed :: "'a env_scheme \<Rightarrow> bytes \<Rightarrow> bytes go" where
  "public_key_of_seed E seed =
     (if length seed \<noteq> 32 then Panic BadSeedLength
      else case en_new_public_key E (en_ed25519_public E seed) of
             None \<Rightarrow> Panic NilDereference | Some k \<Rightarrow> Ret k)"

lemma public_key_of_seed_returns:
  "env_ok E \<Longrightarrow> length seed = 32 \<Longrightarrow> \<exists>k. public_key_of_seed E seed = Ret k"
  using env_okD(1) [of E seed] by (auto simp: public_key_of_seed_def)

definition opt_len :: "'a list option \<Rightarrow> nat" where
  "opt_len xs = (case xs of None \<Rightarrow> 0 | Some ys \<Rightarrow> length ys)"

end
