(* ===== verification/GoJson.thy ===== *)
theory GoJson
  imports GoBytes
begin

text \<open>
  What the program uses of \<open>encoding/json\<close>: values as trees (a number keeps its literal),
  the compact rendering of \<open>json.Marshal\<close> for maps, and \<open>json.Unmarshal\<close> of an object into
  the integer and boolean fields of a struct: keys match exactly or under case folding, a
  value of the wrong type or out of range leaves its field, and later members still count.
  The grammar that turns bytes into a tree is a parameter of the request handling.
\<close>

datatype json =
    JNull
  | JBool bool
  | JNum string
  | JStr string
  | JArr "json list"
  | JObj "(string \<times> json) list"

section \<open>Rendering\<close>

definition json_escape_char :: "char \<Rightarrow> string" where
  "json_escape_char c =
     (let n = (of_char c :: nat) in
      if c = CHR 0x22 \<or> c = CHR 0x5C then [CHR 0x5C, c]
      else if n = 8 then [CHR 0x5C, CHR ''b''] else if n = 12 then [CHR 0x5C, CHR ''f'']
      else if n = 10 then [CHR 0x5C, CHR ''n''] else if n = 13 then [CHR 0x5C, CHR ''r'']
      else if n = 9 then [CHR 0x5C, CHR ''t'']
      else if n < 32 \<or> c \<in> {CHR ''<'', CHR ''>'', CHR ''&''}
      then CHR 0x5C # ''u00'' @ [hex_char (n div 16), hex_char (n mod 16)]
      else [c])"

definition json_string :: "string \<Rightarrow> string" where
  "json_string s = CHR 0x22 # concat (map json_escape_char s) @ [CHR 0x22]"

fun join_with :: "string \<Rightarrow> string list \<Rightarrow> string" where
  "join_with sep [] = []"
| "join_with sep [s] = s"
| "join_with sep (s # t # ss) = s @ sep @ join_with sep (t # ss)"

fun json_render :: "json \<Rightarrow> string" where
  "json_render JNull = ''null''"
| "json_render (JBool b) = (if b then ''true'' else ''false'')"
| "json_render (JNum s) = s"
| "json_render (JStr s) = json_string s"
| "json_render (JArr vs) = ''['' @ join_with '','' (map json_render vs) @ '']''"
| "json_render (JObj kvs) =
     ''{'' @ join_with '','' (map (\<lambda>(k, s). json_string k @ '':'' @ s)
        (sort_key fst (map (\<lambda>kv. (fst kv, json_render (snd kv))) kvs))) @ ''}''"

section \<open>Decoding into struct fields\<close>

definition upper :: "char \<Rightarrow> char" where
  "upper c = (let n = (of_char c :: nat) in if 97 \<le> n \<and> n \<le> 122 then char_of (n - 32) else c)"

text \<open>
  \<open>foldName\<close>: the only runes beyond ASCII that fold to a letter are the long s and the
  Kelvin sign, given by their UTF-8 bytes.
\<close>

fun fold_name :: "string \<Rightarrow> string" where
  "fold_name [] = []"
| "fold_name (c # cs) =
     (if c = CHR 0xC5 \<and> take 1 cs = [CHR 0xBF] then CHR ''S'' # fold_name (drop 1 cs)
      else if c = CHR 0xE2 \<and> take 2 cs = [CHR 0x84, CHR 0xAA] then CHR ''K'' # fold_name (drop 2 cs)
      else upper c # fold_name cs)"

definition key_matches :: "string \<Rightarrow> string \<Rightarrow> bool" where
  "key_matches name key \<longleftrightarrow> fold_name key = fold_name name"

text \<open>\<open>strconv.ParseInt(s, 10, 64)\<close> on number literals of JSON.\<close>

definition parse_int64 :: "string \<Rightarrow> int option" where
  "parse_int64 s =
     (case s of
        CHR ''-'' # ds \<Rightarrow> (if ds = [] then None else case parse_digits 0 ds of
            None \<Rightarrow> None | Some n \<Rightarrow> if n \<le> 2 ^ 63 then Some (- int n) else None)
      | _ \<Rightarrow> (if s = [] then None else case parse_digits 0 s of
            None \<Rightarrow> None | Some n \<Rightarrow> if n < 2 ^ 63 then Some (int n) else None))"

definition decode_u64 :: "json \<Rightarrow> u64 \<Rightarrow> u64" where
  "decode_u64 v old = (case v of JNum s \<Rightarrow> (case parse_uint64 s of Some n \<Rightarrow> n | None \<Rightarrow> old) | _ \<Rightarrow> old)"

definition decode_int :: "json \<Rightarrow> int \<Rightarrow> int" where
  "decode_int v old = (case v of JNum s \<Rightarrow> (case parse_int64 s of Some n \<Rightarrow> n | None \<Rightarrow> old) | _ \<Rightarrow> old)"

definition decode_bool :: "json \<Rightarrow> bool \<Rightarrow> bool" where
  "decode_bool v old = (case v of JBool b \<Rightarrow> b | _ \<Rightarrow> old)"

text \<open>The members of an object, in order; any other value sets no field.\<close>

definition decode_members :: "(string \<times> json \<Rightarrow> 'r \<Rightarrow> 'r) \<Rightarrow> json \<Rightarrow> 'r \<Rightarrow> 'r" where
  "decode_members f v r = (case v of JObj kvs \<Rightarrow> fold f kvs r | _ \<Rightarrow> r)"

lemma parse_int64_in: "parse_int64 s = Some n \<Longrightarrow> in_i64 n"
  by (auto simp: parse_int64_def in_i64_def split: list.splits option.splits if_splits char.splits bool.splits)

lemma decode_int_in: "in_i64 old \<Longrightarrow> in_i64 (decode_int v old)"
  by (auto simp: decode_int_def split: json.splits option.splits dest: parse_int64_in)

lemma decode_u64_dec: "decode_u64 (JNum (dec_nat (unat w))) old = w"
  by (simp add: decode_u64_def parse_uint64_dec)

lemma digit_not_minus: "is_digit c \<Longrightarrow> c \<noteq> CHR ''-''"
  by (auto simp: is_digit_def)

lemma parse_int64_dec: "in_i64 n \<Longrightarrow> parse_int64 (dec_int n) = Some n"
proof (cases "n < 0")
  case True
  assume "in_i64 n"
  with True show ?thesis by (auto simp: parse_int64_def dec_int_def parse_digits_dec_nat in_i64_def)
next
  case False
  assume n: "in_i64 n"
  obtain c cs where c: "dec_nat (nat n) = c # cs" by (cases "dec_nat (nat n)") auto
  have "c \<noteq> CHR ''-''" using dec_nat_digits [of c "nat n"] c by (intro digit_not_minus) simp
  then have "parse_int64 (dec_nat (nat n)) = (case parse_digits 0 (dec_nat (nat n)) of
      None \<Rightarrow> None | Some m \<Rightarrow> if m < 2 ^ 63 then Some (int m) else None)"
    unfolding c parse_int64_def by (simp split: list.split char.split bool.split)
  with False n show ?thesis by (auto simp: dec_int_def parse_digits_dec_nat in_i64_def)
qed

end
