(* ===== verification/ChainData.thy ===== *)
theory ChainData
  imports Messages GoJson
begin

text \<open>
  The height-independent part of \<open>internal/chain/mock_data.go\<close>: options, the validators,
  accounts, pools, order books, prices, parameters, committees and governance data that
  a chain starts with. A builder panics where the Go code indexes past the validators.
\<close>

unbundle bit_operations_syntax

section \<open>Options\<close>

record chainOptions =
  co_profile :: "Profile option"
  co_seed :: "u64 option"              \<comment> \<open>the 64 bits of the \<open>int64\<close>\<close>
  co_validatorCount :: int
  co_accountCount :: int

type_synonym chain_option = "chainOptions \<Rightarrow> chainOptions"

definition zero_options :: chainOptions where
  "zero_options = \<lparr>co_profile = None, co_seed = None, co_validatorCount = 0, co_accountCount = 0\<rparr>"

definition WithProfile :: "Profile \<Rightarrow> chain_option" where
  "WithProfile p o' = o'\<lparr>co_profile := Some p\<rparr>"

definition WithSeed :: "u64 \<Rightarrow> chain_option" where
  "WithSeed s o' = o'\<lparr>co_seed := Some s\<rparr>"

definition WithValidatorCount :: "int \<Rightarrow> chain_option" where
  "WithValidatorCount n o' = o'\<lparr>co_validatorCount := n\<rparr>"

definition WithAccountCount :: "int \<Rightarrow> chain_option" where
  "WithAccountCount n o' = o'\<lparr>co_accountCount := n\<rparr>"

text \<open>The loop \<open>for _, o := range opts { o(&cfg) }\<close>.\<close>

definition apply_options :: "chain_option list \<Rightarrow> chainOptions" where
  "apply_options opts = fold (\<lambda>f c. f c) opts zero_options"

section \<open>Validators\<close>

definition hardcodedValidatorSeeds :: "string list" where
  "hardcodedValidatorSeeds =
     [''000102030405060708090a0b0c0d0e0f101112131415161718191a1b1c1d1e1f'',
      ''1f1e1d1c1b1a191817161514131211100f0e0d0c0b0a09080706050403020100'',
      replicate 64 CHR ''1'', replicate 64 CHR ''2'', replicate 64 CHR ''3'', replicate 64 CHR ''4'',
      replicate 64 CHR ''5'', replicate 64 CHR ''6'', replicate 64 CHR ''7'', replicate 64 CHR ''8'']"

definition validatorSeed :: "u64 \<Rightarrow> nat \<Rightarrow> bytes" where
  "validatorSeed chainID i =
     (if i < length hardcodedValidatorSeeds
      then (case hex_decode (hardcodedValidatorSeeds ! i) of Some s \<Rightarrow> s | None \<Rightarrow> [])
      else HashBytes [VStr ''validator-seed'', VUint chainID, VInt (int i)])"

definition net_address :: "int \<Rightarrow> string" where
  "net_address port = ''127.0.0.1:'' @ dec_int port"

definition buildValidator :: "'a env_scheme \<Rightarrow> u64 \<Rightarrow> go_rand \<Rightarrow> nat \<Rightarrow> (validator \<times> go_rand) go" where
  "buildValidator E chainID rng i =
     go_bind (public_key_of_seed E (validatorSeed chainID i)) (\<lambda>pubKey.
     go_bind (go_of_option (intn E 50000 rng)) (\<lambda>(stake, rng1).
     go_bind (go_of_option (intn E 2 rng1)) (\<lambda>(delegate, rng2).
     go_bind (go_of_option (intn E 2 rng2)) (\<lambda>(compound, rng3).
       Ret (\<lparr>va_Address = en_key_address E pubKey,
             va_PublicKey = pubKey,
             va_NetAddress = net_address (wrap64 (26650 + int i + sint (chainID * 10))),
             va_StakedAmount = 2000000 + of_nat i * 100000 + of_nat stake,
             va_Committees = [chainID],
             va_MaxPausedHeight = 0,
             va_UnstakingHeight = 0,
             va_Output = en_key_address E pubKey,
             va_Delegate = (delegate = 0),
             va_Compound = (compound = 0)\<rparr>, rng3)))))"

text \<open>The loop of \<open>buildValidators\<close> from index \<open>i\<close> on, \<open>n\<close> validators to go.\<close>

fun buildValidators_from ::
  "'a env_scheme \<Rightarrow> u64 \<Rightarrow> go_rand \<Rightarrow> nat \<Rightarrow> nat \<Rightarrow> (validator list \<times> go_rand) go" where
  "buildValidators_from E chainID rng i 0 = Ret ([], rng)"
| "buildValidators_from E chainID rng i (Suc n) =
     go_bind (buildValidator E chainID rng i) (\<lambda>(v, rng1).
     go_bind (buildValidators_from E chainID rng1 (Suc i) n) (\<lambda>(vs, rng2). Ret (v # vs, rng2)))"

definition buildValidators :: "'a env_scheme \<Rightarrow> u64 \<Rightarrow> go_rand \<Rightarrow> nat \<Rightarrow> (validator list \<times> go_rand) go" where
  "buildValidators E chainID rng count = buildValidators_from E chainID rng 0 count"

section \<open>Accounts and pools\<close>

fun buildAccounts_from ::
  "'a env_scheme \<Rightarrow> validator list \<Rightarrow> go_rand \<Rightarrow> nat \<Rightarrow> nat \<Rightarrow> (account list \<times> go_rand) go" where
  "buildAccounts_from E validators rng i 0 = Ret ([], rng)"
| "buildAccounts_from E validators rng i (Suc n) =
     go_bind (go_slice (HashBytes [VStr ''account-addr'', VInt (int i)]) 0 (int (en_address_size E))) (\<lambda>derived.
     go_bind (go_of_option (intn E 50000 rng)) (\<lambda>(k, rng1).
     go_bind (buildAccounts_from E validators rng1 (Suc i) n) (\<lambda>(accounts, rng2).
       Ret (\<lparr>ac_Address = (if i < length validators then va_Address (validators ! i) else derived),
             ac_Amount = 1000000 + of_nat i * 100000 + of_nat k\<rparr> # accounts, rng2))))"

definition buildAccounts ::
  "'a env_scheme \<Rightarrow> validator list \<Rightarrow> go_rand \<Rightarrow> nat \<Rightarrow> (account list \<times> go_rand) go" where
  "buildAccounts E validators rng count = buildAccounts_from E validators rng 0 count"

definition buildPools :: "'a env_scheme \<Rightarrow> account list \<Rightarrow> u64 \<Rightarrow> go_rand \<Rightarrow> (pool list \<times> go_rand) go" where
  "buildPools E accounts chainID rng =
     go_bind (go_of_option (intn E 500000 rng)) (\<lambda>(a, rng1).
     go_bind (go_of_option (intn E 200000 rng1)) (\<lambda>(b, rng2).
     go_bind (go_of_option (intn E 300000 rng2)) (\<lambda>(c, rng3).
     go_bind (go_nth accounts 0) (\<lambda>first.
       Ret ([\<lparr>po_Id = chainID, po_Amount = 5000000 + of_nat a, po_Points = [], po_TotalPoolPoints = 0\<rparr>,
             \<lparr>po_Id = chainID + en_holding_addend E, po_Amount = 2000000 + of_nat b, po_Points = [],
              po_TotalPoolPoints = 0\<rparr>,
             \<lparr>po_Id = chainID + en_liquidity_addend E, po_Amount = 3000000 + of_nat c,
              po_Points = [\<lparr>pt_Address = ac_Address first, pt_Points = 100\<rparr>],
              po_TotalPoolPoints = 100\<rparr>], rng3)))))"

section \<open>Order books and prices\<close>

definition buildOrderBooks :: "validator list \<Rightarrow> u64 \<Rightarrow> order_books go" where
  "buildOrderBooks validators chainID =
     go_bind (go_nth validators 0) (\<lambda>val0. go_bind (go_nth validators 1) (\<lambda>val1.
       let v0 = va_Address val0; v1 = va_Address val1;
           order1 = \<lparr>so_Id = HashBytes [VStr ''order-1''], so_Committee = chainID,
             so_Data = bytes_of_string ''swap CNPY for sidechain asset'', so_AmountForSale = 50000,
             so_RequestedAmount = 1000, so_SellerReceiveAddress = v0, so_BuyerSendAddress = v1,
             so_BuyerReceiveAddress = v1, so_BuyerChainDeadline = 500, so_SellersSendAddress = v0\<rparr>;
           order2 = \<lparr>so_Id = HashBytes [VStr ''order-2''], so_Committee = 2,
             so_Data = bytes_of_string ''swap sidechain for CNPY'', so_AmountForSale = 75000,
             so_RequestedAmount = 2500, so_SellerReceiveAddress = v1, so_BuyerSendAddress = v0,
             so_BuyerReceiveAddress = v0, so_BuyerChainDeadline = 700, so_SellersSendAddress = v1\<rparr>
       in Ret \<lparr>obs_OrderBooks = [Some \<lparr>ob_ChainId = chainID, ob_Orders = [Some order1]\<rparr>,
                               Some \<lparr>ob_ChainId = 2, ob_Orders = [Some order2]\<rparr>]\<rparr>))"

definition scale_e6 :: "u64 \<Rightarrow> u64 \<Rightarrow> u64" where
  "scale_e6 local remote = (local * 1000000) div remote"

definition buildDexPrices :: "u64 \<Rightarrow> dex_price list" where
  "buildDexPrices chainID =
     [\<lparr>dp_LocalChainId = chainID, dp_RemoteChainId = chainID + 1, dp_LocalPool = 1, dp_RemotePool = 10,
       dp_E6ScaledPrice = scale_e6 1 10\<rparr>,
      \<lparr>dp_LocalChainId = chainID + 1, dp_RemoteChainId = chainID, dp_LocalPool = 10, dp_RemotePool = 1,
       dp_E6ScaledPrice = scale_e6 10 1\<rparr>]"

section \<open>Parameters and committees\<close>

definition buildParams :: "u64 \<Rightarrow> params" where
  "buildParams chainID =
     \<lparr>pa_Consensus =
        \<lparr>cp_BlockSize = 1000000, cp_ProtocolVersion = ''mock-v1'', cp_RootChainId = chainID,
         cp_Retired = 0\<rparr>,
      pa_Validator =
        \<lparr>vp_UnstakingBlocks = 100, vp_MaxPauseBlocks = 25, vp_DoubleSignSlashPercentage = 5,
         vp_NonSignSlashPercentage = 2, vp_MaxNonSign = 3, vp_NonSignWindow = 50,
         vp_MaxCommittees = 5, vp_MaxCommitteeSize = 15, vp_EarlyWithdrawalPenalty = 10,
         vp_DelegateUnstakingBlocks = 50, vp_MinimumOrderSize = 1000,
         vp_StakePercentForSubsidizedCommittee = 25, vp_MaxSlashPerCommittee = 1000,
         vp_DelegateRewardPercentage = 10, vp_BuyDeadlineBlocks = 15, vp_LockOrderFeeMultiplier = 3,
         vp_MinimumStakeForValidators = 50000, vp_MinimumStakeForDelegates = 10000,
         vp_MaximumDelegatesPerCommittee = 25\<rparr>,
      pa_Fee =
        \<lparr>fp_SendFee = 10, fp_StakeFee = 100, fp_EditStakeFee = 5, fp_UnstakeFee = 50, fp_PauseFee = 1,
         fp_UnpauseFee = 1, fp_ChangeParameterFee = 500, fp_DaoTransferFee = 250,
         fp_CertificateResultsFee = 0, fp_SubsidyFee = 0, fp_CreateOrderFee = 125,
         fp_EditOrderFee = 75, fp_DeleteOrderFee = 60, fp_DexLimitOrderFee = 80,
         fp_DexLiquidityDepositFee = 25, fp_DexLiquidityWithdrawFee = 25\<rparr>,
      pa_DaoRewardPercentage = 15\<rparr>"

definition payment :: "bytes \<Rightarrow> u64 \<Rightarrow> u64 \<Rightarrow> payment_percents" where
  "payment recipient percent chainID =
     \<lparr>pp_Address = recipient, pp_Percent = percent, pp_ChainId = chainID\<rparr>"

definition buildCommittees :: "validator list \<Rightarrow> committees_data go" where
  "buildCommittees validators =
     (if length validators < 2 then Ret \<lparr>cds_List = []\<rparr>
      else go_bind (go_nth (va_Committees (validators ! 0)) 0) (\<lambda>chainID.
        Ret \<lparr>cds_List =
          [\<lparr>cd_ChainId = chainID, cd_LastRootHeightUpdated = 1, cd_LastChainHeightUpdated = 1,
            cd_PaymentPercents = [payment (va_Address (validators ! 0)) 60 chainID,
                                  payment (va_Address (validators ! 1)) 40 chainID],
            cd_NumberOfSamples = 10\<rparr>]\<rparr>))"

section \<open>Governance\<close>

definition buildPoll :: "(string, poll_result) gomap" where
  "buildPoll =
     gm_put (hex_encode (HashBytes [VStr ''proposal:change-fee'']))
       \<lparr>pr_ProposalHash = hex_encode (HashBytes [VStr ''proposal:change-fee'']),
        pr_ProposalURL = ''https://example.com/proposals/change-fee'',
        pr_Accounts =
          \<lparr>vs_ApproveTokens = 600, vs_RejectTokens = 200, vs_TotalVotedTokens = 800, vs_TotalTokens = 1000,
           vs_ApprovePercentage = 60, vs_RejectPercentage = 20, vs_VotedPercentage = 80\<rparr>,
        pr_Validators =
          \<lparr>vs_ApproveTokens = 300, vs_RejectTokens = 100, vs_TotalVotedTokens = 400, vs_TotalTokens = 500,
           vs_ApprovePercentage = 60, vs_RejectPercentage = 20, vs_VotedPercentage = 80\<rparr>\<rparr> []"

definition buildProposals :: "validator list \<Rightarrow> (string, proposal) gomap go" where
  "buildProposals validators =
     go_bind (go_nth validators 0) (\<lambda>val0. go_bind (go_nth validators 1) (\<lambda>val1.
       let signer = hex_encode (va_Address val0);
           recipient = hex_encode (va_Address val1);
           paramProposal = JObj [(''type'', JStr ''changeParameter''),
             (''msg'', JObj [(''parameterSpace'', JStr ''fee''), (''parameterKey'', JStr ''send''),
                (''parameterValue'', JStr ''15''), (''startHeight'', JNum ''5''), (''endHeight'', JNum ''50''),
                (''signer'', JStr signer)])];
           daoProposal = JObj [(''type'', JStr ''daoTransfer''),
             (''msg'', JObj [(''address'', JStr recipient), (''amount'', JNum ''250000''),
                (''startHeight'', JNum ''10''), (''endHeight'', JNum ''100'')])]
       in Ret (gm_put (hex_encode (HashBytes [VStr ''proposal:dao-treasury'']))
                 \<lparr>gp_Proposal = json_render daoProposal, gp_Approve = True\<rparr>
              (gm_put (hex_encode (HashBytes [VStr ''proposal:change-fee'']))
                 \<lparr>gp_Proposal = json_render paramProposal, gp_Approve = True\<rparr> []))))"

section \<open>Options: the last one wins\<close>

lemma apply_options_simps [simp]:
  "apply_options [] = zero_options"
  "apply_options (opts @ [f]) = f (apply_options opts)"
  by (simp_all add: apply_options_def)

lemma option_fields [simp]:
  "co_profile (WithProfile p c) = Some p" "co_seed (WithProfile p c) = co_seed c"
  "co_validatorCount (WithProfile p c) = co_validatorCount c" "co_accountCount (WithProfile p c) = co_accountCount c"
  "co_seed (WithSeed s c) = Some s" "co_profile (WithSeed s c) = co_profile c"
  "co_validatorCount (WithSeed s c) = co_validatorCount c" "co_accountCount (WithSeed s c) = co_accountCount c"
  "co_validatorCount (WithValidatorCount n c) = n" "co_profile (WithValidatorCount n c) = co_profile c"
  "co_seed (WithValidatorCount n c) = co_seed c" "co_accountCount (WithValidatorCount n c) = co_accountCount c"
  "co_accountCount (WithAccountCount n c) = n" "co_profile (WithAccountCount n c) = co_profile c"
  "co_seed (WithAccountCount n c) = co_seed c" "co_validatorCount (WithAccountCount n c) = co_validatorCount c"
  "co_profile zero_options = None" "co_seed zero_options = None"
  "co_validatorCount zero_options = 0" "co_accountCount zero_options = 0"
  by (simp_all add: WithProfile_def WithSeed_def WithValidatorCount_def WithAccountCount_def zero_options_def)

section \<open>The initial entities are well formed\<close>

lemma hardcoded_seeds_decode:
  "list_all (\<lambda>s. map_option length (hex_decode s) = Some 32) hardcodedValidatorSeeds"
  by code_simp

lemma length_validatorSeed: "length (validatorSeed chainID i) = 32"
proof (cases "i < length hardcodedValidatorSeeds")
  case True
  with hardcoded_seeds_decode obtain bs
    where "hex_decode (hardcodedValidatorSeeds ! i) = Some bs" "length bs = 32"
    unfolding list_all_length by fastforce
  with True show ?thesis by (simp add: validatorSeed_def)
next
  case False
  then show ?thesis by (simp add: validatorSeed_def)
qed

definition validator_wf :: "'a env_scheme \<Rightarrow> u64 \<Rightarrow> nat \<Rightarrow> validator \<Rightarrow> bool" where
  "validator_wf E chainID i v \<longleftrightarrow>
     (\<exists>key. public_key_of_seed E (validatorSeed chainID i) = Ret key \<and>
        va_PublicKey v = key \<and> va_Address v = en_key_address E key \<and> va_Output v = va_Address v) \<and>
     va_Committees v = [chainID] \<and> va_UnstakingHeight v = 0 \<and>
     (\<exists>k < 50000. va_StakedAmount v = 2000000 + of_nat i * 100000 + of_nat k)"

lemma buildValidator_wf:
  "buildValidator E chainID rng i = Ret (v, rng') \<Longrightarrow> validator_wf E chainID i v"
  using intn_less [of 50000 E rng] by (fastforce simp: buildValidator_def validator_wf_def go_bind_eq_Ret)

lemma buildValidators_from_wf:
  assumes "buildValidators_from E chainID rng i n = Ret (vs, rng')"
  shows "length vs = n \<and> (\<forall>j < n. validator_wf E chainID (i + j) (vs ! j))"
  using assms
proof (induction n arbitrary: rng i vs)
  case 0
  then show ?case by simp
next
  case (Suc n)
  then obtain v rng1 ws where v: "buildValidator E chainID rng i = Ret (v, rng1)"
    "buildValidators_from E chainID rng1 (Suc i) n = Ret (ws, rng')" "vs = v # ws"
    by (auto simp: go_bind_eq_Ret)
  from Suc.IH [OF v(2)] buildValidator_wf [OF v(1)] v(3) show ?case
    by (auto simp: nth_Cons split: nat.split)
qed

lemma buildValidators_wf:
  "buildValidators E chainID rng n = Ret (vs, rng') \<Longrightarrow> length vs = n"
  "buildValidators E chainID rng n = Ret (vs, rng') \<Longrightarrow> j < n \<Longrightarrow> validator_wf E chainID j (vs ! j)"
  using buildValidators_from_wf [of E chainID rng 0 n vs rng'] by (auto simp: buildValidators_def)

lemma buildValidators_returns:
  assumes "env_ok E" "fair_source E"
  shows "\<exists>vs rng'. buildValidators E chainID rng n = Ret (vs, rng')"
proof -
  have one: "\<exists>v rng'. buildValidator E chainID rng i = Ret (v, rng')" for rng i
  proof -
    obtain key where "public_key_of_seed E (validatorSeed chainID i) = Ret key"
      using public_key_of_seed_returns [OF assms(1) length_validatorSeed] by blast
    moreover obtain a r1 where "intn E 50000 rng = Some (a, r1)"
      by (rule intn_returns [OF assms(2), of 50000 rng]) auto
    moreover obtain b r2 where "intn E 2 r1 = Some (b, r2)"
      by (rule intn_returns [OF assms(2), of 2 r1]) auto
    moreover obtain c r3 where "intn E 2 r2 = Some (c, r3)"
      by (rule intn_returns [OF assms(2), of 2 r2]) auto
    ultimately show ?thesis by (simp add: buildValidator_def)
  qed
  have "\<exists>vs rng'. buildValidators_from E chainID rng i n = Ret (vs, rng')" for i
  proof (induction n arbitrary: rng i)
    case 0
    then show ?case by simp
  next
    case (Suc n)
    obtain v r1 where "buildValidator E chainID rng i = Ret (v, r1)" using one by blast
    moreover obtain vs r2 where "buildValidators_from E chainID r1 (Suc i) n = Ret (vs, r2)"
      using Suc.IH by blast
    ultimately show ?case by simp
  qed
  then show ?thesis by (simp add: buildValidators_def)
qed

definition account_wf :: "'a env_scheme \<Rightarrow> validator list \<Rightarrow> nat \<Rightarrow> account \<Rightarrow> bool" where
  "account_wf E validators i a \<longleftrightarrow>
     ac_Address a = (if i < length validators then va_Address (validators ! i)
                     else take (en_address_size E) (HashBytes [VStr ''account-addr'', VInt (int i)])) \<and>
     (\<exists>k < 50000. ac_Amount a = 1000000 + of_nat i * 100000 + of_nat k)"

lemma buildAccounts_from_wf:
  assumes "buildAccounts_from E validators rng i n = Ret (accs, rng')"
  shows "length accs = n \<and> (\<forall>j < n. account_wf E validators (i + j) (accs ! j))"
  using assms
proof (induction n arbitrary: rng i accs)
  case 0
  then show ?case by simp
next
  case (Suc n)
  then obtain k rng1 as derived where k: "intn E 50000 rng = Some (k, rng1)"
    "buildAccounts_from E validators rng1 (Suc i) n = Ret (as, rng')"
    "go_slice (HashBytes [VStr ''account-addr'', VInt (int i)]) 0 (int (en_address_size E)) = Ret derived"
    "accs = \<lparr>ac_Address = (if i < length validators then va_Address (validators ! i) else derived),
             ac_Amount = 1000000 + of_nat i * 100000 + of_nat k\<rparr> # as"
    by (auto simp: go_bind_eq_Ret)
  have "account_wf E validators i (accs ! 0)"
    using k(3,4) intn_less [OF _ k(1)]
    by (auto simp: account_wf_def go_slice_def split: if_splits)
  with Suc.IH [OF k(2)] k(4) show ?case by (auto simp: nth_Cons split: nat.split)
qed

lemma buildAccounts_wf:
  "buildAccounts E validators rng n = Ret (accs, rng') \<Longrightarrow> length accs = n"
  "buildAccounts E validators rng n = Ret (accs, rng') \<Longrightarrow> j < n \<Longrightarrow> account_wf E validators j (accs ! j)"
  using buildAccounts_from_wf [of E validators rng 0 n accs rng'] by (auto simp: buildAccounts_def)

lemma buildAccounts_returns:
  assumes "env_ok E" "fair_source E"
  shows "\<exists>accs rng'. buildAccounts E validators rng n = Ret (accs, rng')"
proof -
  have "\<exists>accs rng'. buildAccounts_from E validators rng i n = Ret (accs, rng')" for i
  proof (induction n arbitrary: rng i)
    case 0
    then show ?case by simp
  next
    case (Suc n)
    have "\<exists>d. go_slice (HashBytes [VStr ''account-addr'', VInt (int i)]) 0 (int (en_address_size E)) = Ret d"
      using env_okD(2) [OF assms(1)] by (simp add: go_slice_def)
    moreover obtain k r1 where "intn E 50000 rng = Some (k, r1)"
      by (rule intn_returns [OF assms(2), of 50000 rng]) auto
    moreover obtain accs r2 where "buildAccounts_from E validators r1 (Suc i) n = Ret (accs, r2)"
      using Suc.IH by blast
    ultimately show ?case by auto
  qed
  then show ?thesis by (simp add: buildAccounts_def)
qed

lemma buildPools_returns:
  assumes "fair_source E" "accounts \<noteq> []"
  shows "\<exists>pools rng'. buildPools E accounts chainID rng = Ret (pools, rng')"
proof -
  obtain a r1 where "intn E 500000 rng = Some (a, r1)" by (rule intn_returns [OF assms(1), of 500000 rng]) auto
  moreover obtain b r2 where "intn E 200000 r1 = Some (b, r2)" by (rule intn_returns [OF assms(1), of 200000 r1]) auto
  moreover obtain c r3 where "intn E 300000 r2 = Some (c, r3)" by (rule intn_returns [OF assms(1), of 300000 r2]) auto
  ultimately show ?thesis using assms(2) by (simp add: buildPools_def)
qed

text \<open>Every pool holds as many points as its list of points adds up to.\<close>

lemma buildPools_points:
  "buildPools E accounts chainID rng = Ret (pools, rng') \<Longrightarrow> p \<in> set pools \<Longrightarrow>
   sum_list (map pt_Points (po_Points p)) = po_TotalPoolPoints p"
  by (auto simp: buildPools_def go_bind_eq_Ret)

lemma two_validators: "2 \<le> length vs \<Longrightarrow> 0 < length vs \<and> Suc 0 < length vs"
  by auto

lemma buildOrderBooks_Panic:
  "length validators < 2 \<Longrightarrow> buildOrderBooks validators chainID = Panic IndexOutOfRange"
  by (cases validators) (auto simp: buildOrderBooks_def)

lemma buildOrderBooks_Ret: "2 \<le> length validators \<Longrightarrow> \<exists>obs. buildOrderBooks validators chainID = Ret obs"
  using two_validators [of validators] by (simp add: buildOrderBooks_def Let_def)

lemma buildProposals_Ret: "2 \<le> length validators \<Longrightarrow> \<exists>ps. buildProposals validators = Ret ps"
  using two_validators [of validators] by (simp add: buildProposals_def Let_def)

lemma buildCommittees_Ret:
  "(\<And>v. v \<in> set validators \<Longrightarrow> va_Committees v \<noteq> []) \<Longrightarrow> \<exists>c. buildCommittees validators = Ret c"
proof (cases "length validators < 2")
  case False
  assume "\<And>v. v \<in> set validators \<Longrightarrow> va_Committees v \<noteq> []"
  moreover have "validators ! 0 \<in> set validators" using False by (intro nth_mem) linarith
  ultimately have "0 < length (va_Committees (validators ! 0))" by simp
  then show ?thesis by (simp add: buildCommittees_def)
qed (simp add: buildCommittees_def)

text \<open>The payment percents of a committee add up to 100.\<close>

lemma buildCommittees_percents:
  "buildCommittees validators = Ret c \<Longrightarrow> d \<in> set (cds_List c) \<Longrightarrow>
   sum_list (map pp_Percent (cd_PaymentPercents d)) = 100"
  by (auto simp: buildCommittees_def go_bind_eq_Ret payment_def split: if_splits)

end
