(* ===== verification/Chain.thy ===== *)
theory Chain
  imports ChainData
begin

text \<open>
  The chain itself, \<open>internal/chain/mock_data.go\<close>: the state of a \<open>mockChain\<close>, what is
  generated for a height (transactions, events, block, certificate, dex batch, state
  snapshot), the loop of \<open>newMockChain\<close> that fills the height-indexed maps, and the
  accessors the RPC layer reads them with.
\<close>

unbundle bit_operations_syntax

section \<open>State\<close>

record mock_chain =
  mc_chainID :: u64
  mc_blocks :: "(u64, block_result) gomap"
  mc_certs :: "(u64, quorum_certificate) gomap"
  mc_txs :: "(u64, tx_result list) gomap"
  mc_events :: "(u64, event list) gomap"
  mc_dexBatches :: "(u64, dex_batch) gomap"
  mc_nextDexBatches :: "(u64, dex_batch) gomap"
  mc_states :: "(u64, genesis_state) gomap"
  mc_accounts :: "account list"
  mc_pools :: "pool list"
  mc_validators :: "validator list"
  mc_orderBooks :: order_books
  mc_dexPrices :: "dex_price list"
  mc_params :: params
  mc_committees :: committees_data
  mc_subsidizedCommittees :: "u64 list"
  mc_retiredCommittees :: "u64 list"
  mc_poll :: "(string, poll_result) gomap"
  mc_proposals :: "(string, proposal) gomap"
  mc_lockedBatch :: dex_batch
  mc_lockedBatchHeight :: u64

section \<open>Accessors\<close>

definition stateAt :: "mock_chain \<Rightarrow> u64 \<Rightarrow> genesis_state option" where
  "stateAt mc height = gm_get (mc_states mc) height"

definition supplyAt :: "mock_chain \<Rightarrow> u64 \<Rightarrow> supply_info option" where
  "supplyAt mc height = map_option gs_Supply (stateAt mc height)"

definition accountsAt :: "mock_chain \<Rightarrow> u64 \<Rightarrow> account list option" where
  "accountsAt mc height = map_option gs_Accounts (stateAt mc height)"

definition poolsAt :: "mock_chain \<Rightarrow> u64 \<Rightarrow> pool list option" where
  "poolsAt mc height = map_option gs_Pools (stateAt mc height)"

definition validatorsAt :: "mock_chain \<Rightarrow> u64 \<Rightarrow> validator list option" where
  "validatorsAt mc height = map_option gs_Validators (stateAt mc height)"

definition latestHeight :: "mock_chain \<Rightarrow> u64" where
  "latestHeight mc = of_nat (gm_len (mc_blocks mc))"

definition nonSigners :: "mock_chain \<Rightarrow> u64 \<Rightarrow> non_signer list option" where
  "nonSigners mc height =
     (if height \<noteq> 0 \<and> height mod 10 = 0 then None
      else Option.bind (stateAt mc height) gs_NonSigners)"

definition doubleSigners :: "mock_chain \<Rightarrow> u64 \<Rightarrow> double_signer list option" where
  "doubleSigners mc height = Option.bind (stateAt mc height) gs_DoubleSigners"

definition BlockAt :: "mock_chain \<Rightarrow> u64 \<Rightarrow> block_result option" where
  "BlockAt mc height = gm_get (mc_blocks mc) height"

definition CertAt :: "mock_chain \<Rightarrow> u64 \<Rightarrow> quorum_certificate option" where
  "CertAt mc height = gm_get (mc_certs mc) height"

text \<open>A missing key reads as the zero value, an empty list.\<close>

definition TxsAt :: "mock_chain \<Rightarrow> u64 \<Rightarrow> tx_result list" where
  "TxsAt mc height = (case gm_get (mc_txs mc) height of None \<Rightarrow> [] | Some txs \<Rightarrow> txs)"

definition EventsAt :: "mock_chain \<Rightarrow> u64 \<Rightarrow> event list" where
  "EventsAt mc height = (case gm_get (mc_events mc) height of None \<Rightarrow> [] | Some evs \<Rightarrow> evs)"

definition DexBatchAt :: "mock_chain \<Rightarrow> u64 \<Rightarrow> dex_batch option" where
  "DexBatchAt mc height = gm_get (mc_dexBatches mc) height"

definition NextDexBatchAt :: "mock_chain \<Rightarrow> u64 \<Rightarrow> dex_batch option" where
  "NextDexBatchAt mc height = gm_get (mc_nextDexBatches mc) height"

definition dexPricesAt :: "'a env_scheme \<Rightarrow> mock_chain \<Rightarrow> u64 \<Rightarrow> dex_price list option" where
  "dexPricesAt E mc height =
     (let height = (if height = 0 then latestHeight mc else height) in
      case gm_get (mc_dexBatches mc) height of
        None \<Rightarrow> None
      | Some batch \<Rightarrow>
          if db_PoolSize batch = 0 \<or> db_CounterPoolSize batch = 0 then None
          else let scale = (\<lambda>local remote. en_safe_mul_div E local 1000000 remote) in
            Some [\<lparr>dp_LocalChainId = mc_chainID mc, dp_RemoteChainId = mc_chainID mc + 1,
                   dp_LocalPool = db_PoolSize batch, dp_RemotePool = db_CounterPoolSize batch,
                   dp_E6ScaledPrice = scale (db_PoolSize batch) (db_CounterPoolSize batch)\<rparr>,
                  \<lparr>dp_LocalChainId = mc_chainID mc + 1, dp_RemoteChainId = mc_chainID mc,
                   dp_LocalPool = db_CounterPoolSize batch, dp_RemotePool = db_PoolSize batch,
                   dp_E6ScaledPrice = scale (db_CounterPoolSize batch) (db_PoolSize batch)\<rparr>])"

section \<open>Hashes, times, messages\<close>

definition mockNetworkID :: u64 where
  "mockNetworkID = 1"

definition blockHash :: "u64 \<Rightarrow> bytes" where
  "blockHash height = (if height = 0 then replicate 32 0 else HashBytes [VStr ''block'', VUint height])"

definition addressBytes :: "string \<Rightarrow> bytes" where
  "addressBytes label = take 20 (HashBytes [VStr label])"

text \<open>Microseconds of 2024-01-01, day 19723 of the epoch, and of a height, as \<open>int64\<close>.\<close>

definition baseBlockTimeMicro :: int where
  "baseBlockTimeMicro = 19723 * 86400 * 1000000"

definition blockTimeMicro :: "u64 \<Rightarrow> int" where
  "blockTimeMicro height = wrap64 (baseBlockTimeMicro + wrap64 (sint height * 6000000))"

definition messageTypeForLabel :: "'a env_scheme \<Rightarrow> string \<Rightarrow> string" where
  "messageTypeForLabel E label =
     (if label = ''send'' then en_message_name E SendMsg
      else if label = ''dexLimitOrder'' then en_message_name E DexLimitOrderMsg
      else if label = ''editStake'' then en_message_name E EditStakeMsg
      else if label = ''certResults'' then en_message_name E CertificateResultsMsg
      else if label = ''dexLiqDeposit'' then en_message_name E DexLiquidityDepositMsg
      else if label = ''dexLiqWithdraw'' then en_message_name E DexLiquidityWithdrawMsg
      else if label = ''stake'' then en_message_name E StakeMsg
      else if label = ''unstake'' then en_message_name E UnstakeMsg
      else en_message_name E SendMsg)"

section \<open>Certificates and batches\<close>

definition buildCertificateForTx :: "'a env_scheme \<Rightarrow> mock_chain \<Rightarrow> u64 \<Rightarrow> quorum_certificate go" where
  "buildCertificateForTx E mc height =
     (let bh = (case gm_get (mc_blocks mc) height of
                  Some block \<Rightarrow> bh_Hash (br_BlockHeader block) | None \<Rightarrow> blockHash height) in
      go_bind (go_nth (mc_validators mc) 0) (\<lambda>v0. go_bind (go_nth (mc_validators mc) 1) (\<lambda>v1.
        Ret \<lparr>qc_Header = \<lparr>vw_NetworkId = mockNetworkID, vw_ChainId = mc_chainID mc, vw_Height = height,
                         vw_RootHeight = height, vw_Round = 1, vw_Phase = en_phase_precommit_vote E\<rparr>,
             qc_Results =
               \<lparr>cr_PaymentPercents = [payment (va_Address v0) 60 (mc_chainID mc),
                                       payment (va_Address v1) 40 (mc_chainID mc)],
                cr_NumberOfSamples = 10 + height,
                cr_Orders = Some (),
                cr_CheckpointHeight = height,
                cr_CheckpointBlockHash = bh,
                cr_DexBatch = gm_get (mc_dexBatches mc) height,
                cr_DoubleSigners = doubleSigners mc height\<rparr>,
             qc_ResultsHash = HashBytes [VStr ''result-hash'', VUint height],
             qc_Block = bh, qc_BlockHash = bh, qc_ProposerKey = va_PublicKey v0,
             qc_Signature = take 32 (HashBytes [VStr ''agg-sig'', VUint height]),
             qc_Bitmap = [0xff, 0x00]\<rparr>)))"

definition generateCertificate :: "'a env_scheme \<Rightarrow> mock_chain \<Rightarrow> u64 \<Rightarrow> bytes \<Rightarrow> quorum_certificate go" where
  "generateCertificate E mc height bhash = buildCertificateForTx E mc height"

definition generateDexBatch ::
  "mock_chain \<Rightarrow> u64 \<Rightarrow> bool \<Rightarrow> dex_limit_order list option \<Rightarrow> dex_deposit list option \<Rightarrow>
   dex_withdraw list option \<Rightarrow> dex_batch" where
  "generateDexBatch mc height next' orders deposits withdrawals =
     \<lparr>db_Committee = mc_chainID mc,
      db_ReceiptHash = HashBytes [VStr ''receipt'', VUint height, VBool next'],
      db_Orders = orders, db_Deposits = deposits, db_Withdrawals = withdrawals,
      db_PoolSize = 1000000 + height * 1000,
      db_CounterPoolSize = 2000000 + height * 500,
      db_PoolPoints = [],
      db_TotalPoolPoints = 100 + height,
      db_Receipts = [height * 10],
      db_LockedHeight = height,
      db_LivenessFallback = next'\<rparr>"

section \<open>Transactions\<close>

definition buildTxMsg ::
  "'a env_scheme \<Rightarrow> mock_chain \<Rightarrow> string \<Rightarrow> bytes \<Rightarrow> bytes \<Rightarrow> u64 \<Rightarrow> fsm_message go" where
  "buildTxMsg E mc label sender recipient height =
     (if label = ''send'' then Ret (MessageSend sender recipient (1000 + height))
      else if label = ''dexLimitOrder'' then Ret (MessageDexLimitOrder (mc_chainID mc) 2500 200 sender)
      else if label = ''editStake''
      then Ret (MessageEditStake sender (10000 + height) [mc_chainID mc] (net_address 26650) sender False sender)
      else if label = ''certResults''
      then go_bind (buildCertificateForTx E mc height) (\<lambda>qc. Ret (MessageCertificateResults qc))
      else if label = ''dexLiqDeposit'' then Ret (MessageDexLiquidityDeposit (mc_chainID mc) 4000 sender)
      else if label = ''dexLiqWithdraw'' then Ret (MessageDexLiquidityWithdraw (mc_chainID mc) 10 sender)
      else if label = ''stake''
      then go_bind (public_key_of_seed E (HashBytes [VStr ''stake-pubkey'', VBytes sender, VUint height])) (\<lambda>key.
             Ret (MessageStake key 10000 [mc_chainID mc] (net_address 26650) sender False False sender))
      else if label = ''unstake'' then Ret (MessageUnstake sender)
      else Ret (MessageSend sender recipient (1000 + height)))"

definition buildTx :: "'a env_scheme \<Rightarrow> mock_chain \<Rightarrow> u64 \<Rightarrow> Profile \<Rightarrow> nat \<Rightarrow> tx_result go" where
  "buildTx E mc height profile i =
     go_bind (go_of_option (TxTypeMixAt E (mc_chainID mc) profile (height + of_nat (i + 1) * 1000003))) (\<lambda>typeLabel.
     go_bind (go_nth (mc_accounts mc) 0) (\<lambda>first.
     go_bind (PickAccountIndex (AddrHeightSeed (ac_Address first) (height + of_nat i)) (length (mc_accounts mc))) (\<lambda>idx.
     go_bind (go_nth (mc_accounts mc) idx) (\<lambda>sender.
     go_bind (PickAccountIndex (AddrHeightSeed (ac_Address first) (height + of_nat i + 1)) (length (mc_accounts mc)))
       (\<lambda>recipientIdx.
     go_bind (go_nth (mc_accounts mc) recipientIdx) (\<lambda>recipient.
     go_bind (buildTxMsg E mc typeLabel (ac_Address sender) (ac_Address recipient) height) (\<lambda>msg.
       Ret \<lparr>tr_Sender = ac_Address sender,
            tr_MessageType = messageTypeForLabel E typeLabel,
            tr_Height = height,
            tr_Index = of_nat i,
            tr_Transaction =
              \<lparr>tx_MessageType = messageTypeForLabel E typeLabel,
               tx_Msg = en_any_new E msg,
               tx_CreatedHeight = height,
               tx_Time = of_int (blockTimeMicro height),
               tx_Fee = 10,
               tx_NetworkId = mockNetworkID,
               tx_ChainId = mc_chainID mc\<rparr>,
            tr_TxHash = hex_encode (HashBytes [VStr ''tx'', VUint (mc_chainID mc), VUint height, VInt (int i)])\<rparr>)))))))"

definition generateClosedFormTxs :: "'a env_scheme \<Rightarrow> mock_chain \<Rightarrow> u64 \<Rightarrow> Profile \<Rightarrow> tx_result list go" where
  "generateClosedFormTxs E mc height profile =
     go_bind (go_of_option (TxCountAt E (mc_chainID mc) profile height)) (\<lambda>count.
       go_mapM (buildTx E mc height profile) [0..<count])"

section \<open>Events\<close>

definition buildClosedFormEvent :: "'a env_scheme \<Rightarrow> string \<Rightarrow> u64 \<Rightarrow> u64 \<Rightarrow> bytes \<Rightarrow> bytes \<Rightarrow> event list" where
  "buildClosedFormEvent E label height chainID addr bhash =
     (let base = \<lparr>ev_EventType = '''', ev_Msg = None, ev_Height = height, ev_Reference = '''', ev_ChainId = chainID,
                  ev_BlockHeight = height, ev_BlockHash = bhash, ev_Address = addr\<rparr> in
      [if label = ''reward'' then
         base\<lparr>ev_EventType := en_event_name E RewardEvent, ev_Msg := Some (EventReward 5)\<rparr>
       else if label = ''dexSwap'' then
         base\<lparr>ev_EventType := en_event_name E DexSwapEvent, ev_Msg := Some (EventDexSwap 1000 900 True True)\<rparr>
       else if label = ''dexLiquidityDeposit'' then
         base\<lparr>ev_EventType := en_event_name E DexLiquidityDepositEvent, ev_Msg := Some (EventDexLiquidityDeposit 500 50)\<rparr>
       else base\<lparr>ev_EventType := en_event_name E RewardEvent, ev_Msg := Some (EventReward 5)\<rparr>])"

definition eventsOfSlot :: "'a env_scheme \<Rightarrow> mock_chain \<Rightarrow> u64 \<Rightarrow> Profile \<Rightarrow> nat \<Rightarrow> event list go" where
  "eventsOfSlot E mc height profile i =
     go_bind (go_of_option (EventTypeMixAt E (mc_chainID mc) profile (height + of_nat (i + 1) * 1000003))) (\<lambda>label.
     go_bind (go_nth (mc_accounts mc) 0) (\<lambda>first.
     go_bind (PickAccountIndex (AddrHeightSeed (ac_Address first) (height + of_nat i)) (length (mc_accounts mc))) (\<lambda>idx.
     go_bind (go_nth (mc_accounts mc) idx) (\<lambda>a.
       Ret (buildClosedFormEvent E label height (mc_chainID mc) (ac_Address a) (blockHash height))))))"

definition generateClosedFormEvents :: "'a env_scheme \<Rightarrow> mock_chain \<Rightarrow> u64 \<Rightarrow> Profile \<Rightarrow> event list go" where
  "generateClosedFormEvents E mc height profile =
     go_bind (go_of_option (EventCountAt E (mc_chainID mc) profile height)) (\<lambda>count.
     go_bind (go_mapM (eventsOfSlot E mc height profile) [0..<count]) (\<lambda>slots. Ret (concat slots)))"

section \<open>Blocks\<close>

definition generateBlock :: "'a env_scheme \<Rightarrow> mock_chain \<Rightarrow> u64 \<Rightarrow> tx_result list \<Rightarrow> event list \<Rightarrow> block_result go" where
  "generateBlock E mc height txs events =
     (let totalTxs = of_nat (length txs) +
            (case gm_get (mc_blocks mc) (height - 1) of
               Some prev \<Rightarrow> bh_TotalTxs (br_BlockHeader prev) | None \<Rightarrow> 0) in
      go_bind (go_nth (mc_validators mc) 0) (\<lambda>v0.
        let header =
              \<lparr>bh_Height = height, bh_Hash = blockHash height, bh_NetworkId = mockNetworkID,
               bh_Time = of_int (blockTimeMicro height), bh_NumTxs = of_nat (length txs),
               bh_TotalTxs = totalTxs, bh_TotalVdfIterations = height * 100,
               bh_LastBlockHash = blockHash (height - 1),
               bh_StateRoot = HashBytes [VStr ''state'', VUint height],
               bh_TransactionRoot = HashBytes [VStr ''txroot'', VUint height],
               bh_ValidatorRoot = HashBytes [VStr ''valroot'', VUint height],
               bh_NextValidatorRoot = HashBytes [VStr ''nextval'', VUint height],
               bh_ProposerAddress = va_Address v0\<rparr>;
            result = \<lparr>br_BlockHeader = header, br_Transactions = txs, br_Events = events, br_Meta = None\<rparr>;
            size = (case en_marshal E (PBlock result) of Inr bz \<Rightarrow> of_nat (length bz) | Inl _ \<Rightarrow> 1024)
        in Ret (result\<lparr>br_Meta := Some \<lparr>bm_Size = size, bm_Took = 2 + height mod 3\<rparr>\<rparr>)))"

section \<open>State snapshots\<close>

definition snapshot_validator :: "'a env_scheme \<Rightarrow> u64 \<Rightarrow> u64 \<Rightarrow> validator \<Rightarrow> validator option" where
  "snapshot_validator E chainID height v =
     do { status \<leftarrow> ValidatorStatusAt E (va_Address v) 0 height;
          unstakingHeight \<leftarrow> (if status = ValidatorUnstaked then UnstakeHeightFor E (va_Address v) 0 else Some 0);
          stakeAt \<leftarrow> StakeAt E (va_Address v) chainID height;
          Some \<lparr>va_Address = va_Address v, va_PublicKey = va_PublicKey v, va_NetAddress = va_NetAddress v,
                va_StakedAmount = stakeAt, va_Committees = va_Committees v, va_MaxPausedHeight = 0,
                va_UnstakingHeight = unstakingHeight, va_Output = va_Output v,
                va_Delegate = va_Delegate v, va_Compound = va_Compound v\<rparr> }"

definition snapshot_nonSigners :: "mock_chain \<Rightarrow> u64 \<Rightarrow> non_signer list option" where
  "snapshot_nonSigners mc height =
     (case mc_validators mc of
        v0 # v1 # _ \<Rightarrow> Some [\<lparr>ns_Address = va_Address v0, ns_Counter = height mod 3 + 1\<rparr>,
                             \<lparr>ns_Address = va_Address v1, ns_Counter = height mod 2 + 1\<rparr>]
      | _ \<Rightarrow> None)"

definition snapshot_doubleSigners :: "mock_chain \<Rightarrow> u64 \<Rightarrow> double_signer list option" where
  "snapshot_doubleSigners mc height =
     (case mc_validators mc of
        v0 # v1 # _ \<Rightarrow> if 0 < height \<and> height mod 30 = 0
          then Some [\<lparr>ds_Id = va_Address v1, ds_Heights = [height - 1, height]\<rparr>] else None
      | _ \<Rightarrow> None)"

definition snapshotStateAt :: "'a env_scheme \<Rightarrow> mock_chain \<Rightarrow> bytes list \<Rightarrow> u64 \<Rightarrow> genesis_state go" where
  "snapshotStateAt E mc addrs height =
     go_bind (go_of_option (SnapshotBalancesAt E addrs (mc_chainID mc) height)) (\<lambda>balances.
     go_bind (go_mapM (\<lambda>(i, a). go_bind (go_nth balances i) (\<lambda>b. Ret \<lparr>ac_Address = a, ac_Amount = b\<rparr>))
                (enumerate 0 addrs)) (\<lambda>accounts.
     go_bind (go_of_option (opt_mapM (snapshot_validator E (mc_chainID mc) height) (mc_validators mc))) (\<lambda>validators.
       Ret \<lparr>gs_Time = of_int (blockTimeMicro height),
            gs_Pools = mc_pools mc,
            gs_Accounts = accounts,
            gs_Validators = validators,
            gs_Params = mc_params mc,
            gs_Supply = \<lparr>su_Total = TotalSupplyAt E (mc_chainID mc) height,
                         su_Staked = foldl (+) 0 (map va_StakedAmount validators),
                         su_DelegatedOnly = 0, su_CommitteeStaked = [], su_CommitteeDelegatedOnly = []\<rparr>,
            gs_Committees = mc_committees mc,
            gs_OrderBooks = mc_orderBooks mc,
            gs_NonSigners = snapshot_nonSigners mc height,
            gs_DoubleSigners = snapshot_doubleSigners mc height,
            gs_RetiredCommittees = [42]\<rparr>)))"

section \<open>Building the chain\<close>

text \<open>The body of the loop \<open>for h := 1; h <= numBlocks; h++\<close>, in the order of its assignments.\<close>

definition prebuild_height ::
  "'a env_scheme \<Rightarrow> Profile \<Rightarrow> bytes list \<Rightarrow> mock_chain \<Rightarrow> u64 \<Rightarrow> mock_chain go" where
  "prebuild_height E profile addrs mc height =
     go_bind (generateClosedFormTxs E mc height profile) (\<lambda>txResults.
     go_bind (generateClosedFormEvents E mc height profile) (\<lambda>events.
     let mc = mc\<lparr>mc_txs := gm_put height txResults (mc_txs mc),
                mc_events := gm_put height events (mc_events mc)\<rparr> in
     go_bind (generateBlock E mc height txResults events) (\<lambda>block.
     let mc = mc\<lparr>mc_blocks := gm_put height block (mc_blocks mc),
                mc_dexBatches := gm_put height (mc_lockedBatch mc) (mc_dexBatches mc),
                mc_nextDexBatches := gm_put height (generateDexBatch mc height True None None None)
                                       (mc_nextDexBatches mc)\<rparr> in
     go_bind (snapshotStateAt E mc addrs height) (\<lambda>state.
     let mc = mc\<lparr>mc_states := gm_put height state (mc_states mc)\<rparr> in
     go_bind (buildCertificateForTx E mc height) (\<lambda>cert.
       Ret (mc\<lparr>mc_certs := gm_put height cert (mc_certs mc)\<rparr>))))))"

fun prebuild_from ::
  "'a env_scheme \<Rightarrow> Profile \<Rightarrow> bytes list \<Rightarrow> nat \<Rightarrow> nat \<Rightarrow> mock_chain \<Rightarrow> mock_chain go" where
  "prebuild_from E profile addrs h 0 mc = Ret mc"
| "prebuild_from E profile addrs h (Suc n) mc =
     go_bind (prebuild_height E profile addrs mc (of_nat h)) (prebuild_from E profile addrs (Suc h) n)"

text \<open>The entities of a chain before the loop; the maps are empty.\<close>

definition chainEntities ::
  "'a env_scheme \<Rightarrow> u64 \<Rightarrow> chainOptions \<Rightarrow> validator list \<times> go_rand \<Rightarrow> mock_chain go" where
  "chainEntities E chainID cfg = (\<lambda>(validators, rng1).
      let accountCount = (if 0 < co_accountCount cfg then co_accountCount cfg else int (length validators)) in
      go_bind (buildAccounts E validators rng1 (nat accountCount)) (\<lambda>(accounts, rng2).
      go_bind (buildPools E accounts chainID rng2) (\<lambda>(pools, rng3).
      go_bind (buildOrderBooks validators chainID) (\<lambda>orderBooks.
      go_bind (buildCommittees validators) (\<lambda>committees.
      go_bind (buildProposals validators) (\<lambda>proposals.
      let mc0 = \<lparr>mc_chainID = chainID, mc_blocks = [], mc_certs = [], mc_txs = [], mc_events = [],
             mc_dexBatches = [], mc_nextDexBatches = [], mc_states = [],
             mc_accounts = accounts, mc_pools = pools, mc_validators = validators,
             mc_orderBooks = orderBooks, mc_dexPrices = buildDexPrices chainID,
             mc_params = buildParams chainID, mc_committees = committees,
             mc_subsidizedCommittees = [chainID, chainID + 1], mc_retiredCommittees = [42],
             mc_poll = buildPoll, mc_proposals = proposals,
             mc_lockedBatch = \<lparr>db_Committee = 0, db_ReceiptHash = [], db_Orders = None, db_Deposits = None,
               db_Withdrawals = None, db_PoolSize = 0, db_CounterPoolSize = 0, db_PoolPoints = [],
               db_TotalPoolPoints = 0, db_Receipts = [], db_LockedHeight = 0, db_LivenessFallback = False\<rparr>,
             mc_lockedBatchHeight = 0\<rparr>
      in Ret (mc0\<lparr>mc_lockedBatch := generateDexBatch mc0 0 False None None None\<rparr>)))))))"

definition validator_seed :: "u64 \<Rightarrow> chainOptions \<Rightarrow> u64" where
  "validator_seed chainID cfg = (case co_seed cfg of Some s \<Rightarrow> s | None \<Rightarrow> chainID)"

definition validator_count :: "chainOptions \<Rightarrow> nat" where
  "validator_count cfg = nat (if 0 < co_validatorCount cfg then co_validatorCount cfg else 10)"

definition initChain :: "'a env_scheme \<Rightarrow> u64 \<Rightarrow> chainOptions \<Rightarrow> mock_chain go" where
  "initChain E chainID cfg =
     go_bind (buildValidators E chainID (new_rand (validator_seed chainID cfg)) (validator_count cfg))
       (chainEntities E chainID cfg)"

definition chain_profile :: "u64 \<Rightarrow> chainOptions \<Rightarrow> Profile" where
  "chain_profile chainID cfg = (case co_profile cfg of Some p \<Rightarrow> p | None \<Rightarrow> ProfileForChain chainID)"

text \<open>
  The genesis state and the loop. Its counter is an \<open>int\<close>: with the largest bound the test
  \<open>h <= numBlocks\<close> never fails.
\<close>

definition prebuildChain ::
  "'a env_scheme \<Rightarrow> int \<Rightarrow> u64 \<Rightarrow> chainOptions \<Rightarrow> mock_chain \<Rightarrow> mock_chain go" where
  "prebuildChain E numBlocks chainID cfg mc =
     (let profile = chain_profile chainID cfg; addrs = map ac_Address (mc_accounts mc) in
      go_bind (snapshotStateAt E mc addrs 0) (\<lambda>genesis.
      go_bind (prebuild_from E profile addrs 1 (nat numBlocks) (mc\<lparr>mc_states := gm_put 0 genesis (mc_states mc)\<rparr>)) (\<lambda>mc'.
        if numBlocks = 2 ^ 63 - 1 then Diverge else Ret mc')))"

text \<open>What \<open>newMockChain\<close> returns; the keys it prints are in the theory of the process.\<close>

definition newMockChain :: "'a env_scheme \<Rightarrow> int \<Rightarrow> u64 \<Rightarrow> chain_option list \<Rightarrow> mock_chain go" where
  "newMockChain E numBlocks chainID opts =
     (let cfg = apply_options opts in
      go_bind (initChain E chainID cfg) (prebuildChain E numBlocks chainID cfg))"

section \<open>The exported accessors\<close>

text \<open>The names by which \<open>internal/rpc\<close> reads a chain; each forwards to a field or a method.\<close>

definition StateAt :: "mock_chain \<Rightarrow> u64 \<Rightarrow> genesis_state option" where
  [simp]: "StateAt mc height = stateAt mc height"

definition LatestHeight :: "mock_chain \<Rightarrow> u64" where
  [simp]: "LatestHeight mc = latestHeight mc"

definition ChainID :: "mock_chain \<Rightarrow> u64" where
  [simp]: "ChainID mc = mc_chainID mc"

definition Params :: "mock_chain \<Rightarrow> params" where
  [simp]: "Params mc = mc_params mc"

definition Committees :: "mock_chain \<Rightarrow> committees_data" where
  [simp]: "Committees mc = mc_committees mc"

definition SubsidizedCommittees :: "mock_chain \<Rightarrow> u64 list" where
  [simp]: "SubsidizedCommittees mc = mc_subsidizedCommittees mc"

definition RetiredCommittees :: "mock_chain \<Rightarrow> u64 list" where
  [simp]: "RetiredCommittees mc = mc_retiredCommittees mc"

definition Poll :: "mock_chain \<Rightarrow> (string, poll_result) gomap" where
  [simp]: "Poll mc = mc_poll mc"

definition Proposals :: "mock_chain \<Rightarrow> (string, proposal) gomap" where
  [simp]: "Proposals mc = mc_proposals mc"

definition SupplyAt :: "mock_chain \<Rightarrow> u64 \<Rightarrow> supply_info option" where
  [simp]: "SupplyAt mc height = supplyAt mc height"

definition DexPricesAt :: "'a env_scheme \<Rightarrow> mock_chain \<Rightarrow> u64 \<Rightarrow> dex_price list option" where
  [simp]: "DexPricesAt E mc height = dexPricesAt E mc height"

definition NonSigners :: "mock_chain \<Rightarrow> u64 \<Rightarrow> non_signer list option" where
  [simp]: "NonSigners mc height = nonSigners mc height"

definition DoubleSigners :: "mock_chain \<Rightarrow> u64 \<Rightarrow> double_signer list option" where
  [simp]: "DoubleSigners mc height = doubleSigners mc height"

end
