(* ===== verification/ChainLoop.thy ===== *)
theory ChainLoop
  imports Chain
begin

text \<open>
  The loop of \<open>newMockChain\<close> as a step relation, and what it does to the height-indexed
  maps. One locale states the contract all of them share (a step stores one value under
  its height and touches no other key); it is interpreted on each map of the chain.
\<close>

text \<open>Heights stay of the form \<open>of_nat (Suc n)\<close>.\<close>

declare of_nat_Suc [simp del]

section \<open>One step\<close>

text \<open>The chain without its height-indexed maps.\<close>

definition entities :: "mock_chain \<Rightarrow> mock_chain" where
  "entities mc = mc\<lparr>mc_blocks := [], mc_certs := [], mc_txs := [], mc_events := [], mc_dexBatches := [],
     mc_nextDexBatches := [], mc_states := []\<rparr>"

lemma entities_simps [simp]:
  "mc_chainID (entities mc) = mc_chainID mc" "mc_accounts (entities mc) = mc_accounts mc"
  "mc_pools (entities mc) = mc_pools mc" "mc_validators (entities mc) = mc_validators mc"
  "mc_orderBooks (entities mc) = mc_orderBooks mc" "mc_params (entities mc) = mc_params mc"
  "mc_committees (entities mc) = mc_committees mc" "mc_lockedBatch (entities mc) = mc_lockedBatch mc"
  "mc_blocks (entities mc) = []" "mc_certs (entities mc) = []" "mc_txs (entities mc) = []"
  "mc_events (entities mc) = []" "mc_dexBatches (entities mc) = []" "mc_nextDexBatches (entities mc) = []"
  "mc_states (entities mc) = []"
  by (simp_all add: entities_def)

text \<open>What the generators read besides the maps.\<close>

lemma generators_cong:
  assumes "entities mc = entities mc'"
  shows "mc_chainID mc = mc_chainID mc'" "mc_accounts mc = mc_accounts mc'" "mc_pools mc = mc_pools mc'"
    "mc_validators mc = mc_validators mc'" "mc_orderBooks mc = mc_orderBooks mc'" "mc_params mc = mc_params mc'"
    "mc_committees mc = mc_committees mc'" "mc_lockedBatch mc = mc_lockedBatch mc'"
  using assms by (metis entities_simps)+

lemma snapshotStateAt_cong:
  "entities mc = entities mc' \<Longrightarrow> snapshotStateAt E mc addrs h = snapshotStateAt E mc' addrs h"
  by (simp add: snapshotStateAt_def snapshot_nonSigners_def snapshot_doubleSigners_def generators_cong [of mc mc'])

lemma generateDexBatch_cong:
  "mc_chainID mc = mc_chainID mc' \<Longrightarrow> generateDexBatch mc h b x y z = generateDexBatch mc' h b x y z"
  by (simp add: generateDexBatch_def)

text \<open>A height that is still absent from the maps: its certificate is determined by the entities.\<close>

definition fresh_height :: "mock_chain \<Rightarrow> u64 \<Rightarrow> bool" where
  "fresh_height mc h \<longleftrightarrow>
     gm_get (mc_blocks mc) h = None \<and> gm_get (mc_dexBatches mc) h = None \<and> gm_get (mc_states mc) h = None"

lemma fresh_entities [simp]: "fresh_height (entities mc) h"
  by (simp add: fresh_height_def gm_get_def)

lemma certificate_fresh:
  "\<lbrakk>entities mc = entities mc'; fresh_height mc h; fresh_height mc' h\<rbrakk>
   \<Longrightarrow> buildCertificateForTx E mc h = buildCertificateForTx E mc' h"
  using generators_cong [of mc mc']
  by (simp add: buildCertificateForTx_def fresh_height_def doubleSigners_def stateAt_def)

lemma txs_fresh:
  assumes "entities mc = entities mc'" "fresh_height mc h" "fresh_height mc' h"
  shows "generateClosedFormTxs E mc h p = generateClosedFormTxs E mc' h p"
proof -
  have "buildTxMsg E mc l s r h = buildTxMsg E mc' l s r h" for l s r
    using generators_cong [OF assms(1)] certificate_fresh [OF assms, of E] by (simp add: buildTxMsg_def)
  then have "buildTx E mc h p = buildTx E mc' h p"
    using generators_cong [OF assms(1)] by (intro ext) (simp add: buildTx_def)
  then show ?thesis using generators_cong [OF assms(1)] by (simp add: generateClosedFormTxs_def)
qed

lemma events_cong:
  assumes "entities mc = entities mc'"
  shows "generateClosedFormEvents E mc h p = generateClosedFormEvents E mc' h p"
proof -
  have "eventsOfSlot E mc h p = eventsOfSlot E mc' h p"
    using generators_cong [OF assms] by (intro ext) (simp add: eventsOfSlot_def)
  then show ?thesis using generators_cong [OF assms] by (simp add: generateClosedFormEvents_def)
qed

text \<open>The results of one pass of the loop, and the chain after it.\<close>

lemma prebuild_height_Ret:
  assumes "prebuild_height E p addrs mc h = Ret mc'"
  obtains txs evs block state cert where
    "generateClosedFormTxs E mc h p = Ret txs" "generateClosedFormEvents E mc h p = Ret evs"
    "generateBlock E mc h txs evs = Ret block" "snapshotStateAt E mc addrs h = Ret state"
    "buildCertificateForTx E
       (mc\<lparr>mc_blocks := gm_put h block (mc_blocks mc),
          mc_dexBatches := gm_put h (mc_lockedBatch mc) (mc_dexBatches mc),
          mc_states := gm_put h state (mc_states mc)\<rparr>) h = Ret cert"
    "mc' = mc\<lparr>mc_txs := gm_put h txs (mc_txs mc), mc_events := gm_put h evs (mc_events mc),
       mc_blocks := gm_put h block (mc_blocks mc),
       mc_dexBatches := gm_put h (mc_lockedBatch mc) (mc_dexBatches mc),
       mc_nextDexBatches := gm_put h (generateDexBatch mc h True None None None) (mc_nextDexBatches mc),
       mc_states := gm_put h state (mc_states mc), mc_certs := gm_put h cert (mc_certs mc)\<rparr>"
proof -
  have block: "generateBlock E (mc\<lparr>mc_txs := a, mc_events := b\<rparr>) h t e = generateBlock E mc h t e" for a b t e
    by (simp add: generateBlock_def)
  have state: "snapshotStateAt E (mc\<lparr>mc_txs := a, mc_events := b, mc_blocks := c, mc_dexBatches := d, mc_nextDexBatches := e\<rparr>) addrs h
      = snapshotStateAt E mc addrs h" for a b c d e
    by (rule snapshotStateAt_cong) (simp add: entities_def)
  have cert: "buildCertificateForTx E (mc\<lparr>mc_txs := a, mc_events := b, mc_blocks := c, mc_dexBatches := d,
      mc_nextDexBatches := e, mc_states := f\<rparr>) h =
      buildCertificateForTx E (mc\<lparr>mc_blocks := c, mc_dexBatches := d, mc_states := f\<rparr>) h" for a b c d e f
    by (simp add: buildCertificateForTx_def doubleSigners_def stateAt_def)
  have "\<exists>txs evs block state cert. generateClosedFormTxs E mc h p = Ret txs \<and>
      generateClosedFormEvents E mc h p = Ret evs \<and> generateBlock E mc h txs evs = Ret block \<and>
      snapshotStateAt E mc addrs h = Ret state \<and>
      buildCertificateForTx E
       (mc\<lparr>mc_blocks := gm_put h block (mc_blocks mc),
          mc_dexBatches := gm_put h (mc_lockedBatch mc) (mc_dexBatches mc),
          mc_states := gm_put h state (mc_states mc)\<rparr>) h = Ret cert \<and>
      mc' = mc\<lparr>mc_txs := gm_put h txs (mc_txs mc), mc_events := gm_put h evs (mc_events mc),
       mc_blocks := gm_put h block (mc_blocks mc),
       mc_dexBatches := gm_put h (mc_lockedBatch mc) (mc_dexBatches mc),
       mc_nextDexBatches := gm_put h (generateDexBatch mc h True None None None) (mc_nextDexBatches mc),
       mc_states := gm_put h state (mc_states mc), mc_certs := gm_put h cert (mc_certs mc)\<rparr>"
    using assms unfolding prebuild_height_def Let_def go_bind_eq_Ret block
    by (elim exE conjE) (simp add: state cert generateDexBatch_def)
  then show ?thesis by (elim exE conjE) (rule that)
qed

lemma prebuild_height_entities:
  "prebuild_height E p addrs mc h = Ret mc' \<Longrightarrow> entities mc' = entities mc"
  by (erule prebuild_height_Ret) (simp add: entities_def)

section \<open>The loop as a step relation\<close>

inductive builds ::
  "'a env_scheme \<Rightarrow> Profile \<Rightarrow> bytes list \<Rightarrow> mock_chain \<Rightarrow> nat \<Rightarrow> mock_chain \<Rightarrow> bool"
  for E p addrs mc0 where
  builds_0: "builds E p addrs mc0 0 mc0"
| builds_Suc: "builds E p addrs mc0 n mc \<Longrightarrow> prebuild_height E p addrs mc (of_nat (Suc n)) = Ret mc' \<Longrightarrow>
    builds E p addrs mc0 (Suc n) mc'"

inductive_cases builds_SucE: "builds E p addrs mc0 (Suc n) mc"
inductive_simps builds_0_iff: "builds E p addrs mc0 0 mc"

lemma prebuild_from_builds:
  "prebuild_from E p addrs (Suc n) m mc = Ret mc' \<Longrightarrow> builds E p addrs mc0 n mc \<Longrightarrow> builds E p addrs mc0 (n + m) mc'"
proof (induction m arbitrary: n mc)
  case 0
  then show ?case by simp
next
  case (Suc m)
  then obtain mc1 where mc1: "prebuild_height E p addrs mc (of_nat (Suc n)) = Ret mc1"
    "prebuild_from E p addrs (Suc (Suc n)) m mc1 = Ret mc'"
    by (auto simp: go_bind_eq_Ret)
  from Suc.IH [OF mc1(2) builds_Suc [OF Suc.prems(2) mc1(1)]] show ?case by simp
qed

lemma builds_functional: "builds E p addrs mc0 n mc \<Longrightarrow> builds E p addrs mc0 n mc' \<Longrightarrow> mc = mc'"
proof (induction arbitrary: mc' rule: builds.induct)
  case builds_0
  then show ?case by (simp add: builds_0_iff)
next
  case (builds_Suc n mc mc1)
  from builds_Suc.prems obtain mc2 where
    "builds E p addrs mc0 n mc2" "prebuild_height E p addrs mc2 (of_nat (Suc n)) = Ret mc'"
    by (rule builds_SucE)
  with builds_Suc.IH builds_Suc.hyps(2) show ?case by (metis go.inject)
qed

lemma builds_entities: "builds E p addrs mc0 n mc \<Longrightarrow> entities mc = entities mc0"
  by (induction rule: builds.induct) (auto dest: prebuild_height_entities)

text \<open>Every earlier height has its own intermediate chain.\<close>

lemma builds_prefix: "builds E p addrs mc0 n mc \<Longrightarrow> i \<le> n \<Longrightarrow> \<exists>mc1. builds E p addrs mc0 i mc1"
proof (induction rule: builds.induct)
  case builds_0
  then show ?case by (auto intro: builds.builds_0)
next
  case (builds_Suc n mc mc')
  then show ?case using builds.builds_Suc [OF builds_Suc.hyps] by (auto simp: le_Suc_eq)
qed

section \<open>The contract of the height-indexed maps\<close>

locale height_store =
  fixes E :: "'a env_scheme" and p :: Profile and addrs :: "bytes list"
    and sel :: "mock_chain \<Rightarrow> (u64, 'v) gomap"
    and val :: "mock_chain \<Rightarrow> u64 \<Rightarrow> 'v \<Rightarrow> bool"
  assumes sel_step: "prebuild_height E p addrs mc h = Ret mc' \<Longrightarrow> \<exists>v. val mc h v \<and> sel mc' = gm_put h v (sel mc)"
begin

lemma sel_ok: "builds E p addrs mc0 n mc \<Longrightarrow> gm_ok (sel mc0) \<Longrightarrow> gm_ok (sel mc)"
  by (induction rule: builds.induct) (auto dest!: sel_step intro: gm.ok_put)

lemma sel_dom:
  assumes "builds E p addrs mc0 n mc" "gm_ok (sel mc0)"
  shows "gm_get (sel mc) k \<noteq> None \<longleftrightarrow> gm_get (sel mc0) k \<noteq> None \<or> (\<exists>i. 1 \<le> i \<and> i \<le> n \<and> k = of_nat i)"
  using assms
proof (induction rule: builds.induct)
  case builds_0
  then show ?case by simp
next
  case (builds_Suc n mc mc')
  obtain v where v: "sel mc' = gm_put (of_nat (Suc n)) v (sel mc)" using sel_step [OF builds_Suc.hyps(2)] by blast
  have "(\<exists>i. 1 \<le> i \<and> i \<le> Suc n \<and> k = of_nat i) \<longleftrightarrow> (\<exists>i. 1 \<le> i \<and> i \<le> n \<and> k = of_nat i) \<or> k = of_nat (Suc n)"
    by (metis le_Suc_eq le_refl One_nat_def Suc_le_mono le0)
  then show ?case using builds_Suc sel_ok [OF builds_Suc.hyps(1) builds_Suc.prems] unfolding v
    by (auto simp: gm.get_put)
qed

lemma sel_len:
  assumes "builds E p addrs mc0 n mc" "sel mc0 = []" "n < 2 ^ 64"
  shows "gm_len (sel mc) = n"
  using assms
proof (induction rule: builds.induct)
  case builds_0
  then show ?case by (simp add: gm_len_def)
next
  case (builds_Suc n mc mc')
  obtain v where v: "sel mc' = gm_put (of_nat (Suc n)) v (sel mc)" using sel_step [OF builds_Suc.hyps(2)] by blast
  have ok: "gm_ok (sel mc0)" using builds_Suc.prems(1) gm.ok_empty by simp
  have "of_nat (Suc n) \<noteq> (of_nat i :: u64)" if "i \<le> n" for i
    using that builds_Suc.prems(2) of_nat_u64_inj [of "Suc n" i] by simp
  then have "gm_get (sel mc) (of_nat (Suc n)) = None"
    using sel_dom [OF builds_Suc.hyps(1) ok, of "of_nat (Suc n)"] builds_Suc.prems(1)
    by (auto simp: gm.get_empty)
  then show ?case
    using builds_Suc gm.len_put_new [OF sel_ok [OF builds_Suc.hyps(1) ok]] by (simp add: v)
qed

lemma sel_val:
  assumes "builds E p addrs mc0 n mc" "gm_ok (sel mc0)" "1 \<le> i" "i \<le> n" "n < 2 ^ 64"
  shows "\<exists>mc1 v. builds E p addrs mc0 (i - 1) mc1 \<and> val mc1 (of_nat i) v \<and> gm_get (sel mc) (of_nat i) = Some v"
  using assms
proof (induction rule: builds.induct)
  case builds_0
  then show ?case by simp
next
  case (builds_Suc n mc mc')
  obtain v where v: "val mc (of_nat (Suc n)) v" "sel mc' = gm_put (of_nat (Suc n)) v (sel mc)"
    using sel_step [OF builds_Suc.hyps(2)] by blast
  note ok = sel_ok [OF builds_Suc.hyps(1) builds_Suc.prems(1)]
  show ?case
  proof (cases "i = Suc n")
    case True
    then show ?thesis using builds_Suc.hyps(1) v ok by (metis diff_Suc_1 gm.get_put_same)
  next
    case False
    then have "i \<le> n" using builds_Suc.prems(3) by simp
    moreover have "(of_nat i :: u64) \<noteq> of_nat (Suc n)"
      using False builds_Suc.prems(3,4) of_nat_u64_inj [of i "Suc n"] by simp
    ultimately show ?thesis using builds_Suc ok v(2) by (auto simp: gm.get_put_other)
  qed
qed

text \<open>A longer run agrees with a shorter one on the heights of the shorter.\<close>

lemma sel_stable:
  assumes "builds E p addrs mc0 n mc" "builds E p addrs mc0 m mc'" "gm_ok (sel mc0)" "n \<le> m" "m < 2 ^ 64"
    "k \<notin> {of_nat i |i. n < i \<and> i \<le> m}"
  shows "gm_get (sel mc') k = gm_get (sel mc) k"
  using assms(2,4,5,6)
proof (induction rule: builds.induct)
  case builds_0
  then show ?case using assms(1) by (auto simp: builds_0_iff)
next
  case (builds_Suc m mc1 mc2)
  obtain v where v: "sel mc2 = gm_put (of_nat (Suc m)) v (sel mc1)" using sel_step [OF builds_Suc.hyps(2)] by blast
  show ?case
  proof (cases "n = Suc m")
    case True
    then have "mc2 = mc"
      using assms(1) builds.builds_Suc [OF builds_Suc.hyps] by (metis builds_functional)
    then show ?thesis by simp
  next
    case False
    then have "n \<le> m" using builds_Suc.prems(1) by simp
    moreover have "k \<noteq> of_nat (Suc m)"
      using builds_Suc.prems(3) calculation by (metis (mono_tags, lifting) le_imp_less_Suc le_refl mem_Collect_eq)
    moreover have "k \<notin> {of_nat i |i. n < i \<and> i \<le> m}" using builds_Suc.prems(3) by auto
    ultimately show ?thesis
      using builds_Suc.IH builds_Suc.prems(2) sel_ok [OF builds_Suc.hyps(1) assms(3)] v
      by (simp add: gm.get_put_other)
  qed
qed

end

text \<open>The maps of the chain.\<close>

interpretation txs: height_store E p addrs mc_txs "\<lambda>mc h v. generateClosedFormTxs E mc h p = Ret v" for E p addrs
  by unfold_locales (erule prebuild_height_Ret, simp)

interpretation events: height_store E p addrs mc_events "\<lambda>mc h v. generateClosedFormEvents E mc h p = Ret v" for E p addrs
  by unfold_locales (erule prebuild_height_Ret, simp)

interpretation blocks: height_store E p addrs mc_blocks
  "\<lambda>mc h v. \<exists>txs evs. generateClosedFormTxs E mc h p = Ret txs \<and> generateClosedFormEvents E mc h p = Ret evs \<and>
     generateBlock E mc h txs evs = Ret v" for E p addrs
  by unfold_locales (erule prebuild_height_Ret, simp)

interpretation states: height_store E p addrs mc_states "\<lambda>mc h v. snapshotStateAt E mc addrs h = Ret v" for E p addrs
  by unfold_locales (erule prebuild_height_Ret, simp)

interpretation dexes: height_store E p addrs mc_dexBatches "\<lambda>mc h v. v = mc_lockedBatch mc" for E p addrs
  by unfold_locales (erule prebuild_height_Ret, simp)

interpretation nextDexes: height_store E p addrs mc_nextDexBatches
  "\<lambda>mc h v. v = generateDexBatch mc h True None None None" for E p addrs
  by unfold_locales (erule prebuild_height_Ret, simp)

interpretation certs: height_store E p addrs mc_certs
  "\<lambda>mc h v. \<exists>block state txs evs. generateClosedFormTxs E mc h p = Ret txs \<and>
     generateClosedFormEvents E mc h p = Ret evs \<and> generateBlock E mc h txs evs = Ret block \<and> snapshotStateAt E mc addrs h = Ret state \<and>
     buildCertificateForTx E
       (mc\<lparr>mc_blocks := gm_put h block (mc_blocks mc),
          mc_dexBatches := gm_put h (mc_lockedBatch mc) (mc_dexBatches mc),
          mc_states := gm_put h state (mc_states mc)\<rparr>) h = Ret v" for E p addrs
  by unfold_locales (erule prebuild_height_Ret, auto)

end
