(* ===== verification/ChainProps.thy ===== *)
theory ChainProps
  imports ChainLoop
begin

text \<open>
  What the prebuilt chain guarantees: which heights exist, how blocks, certificates,
  batches and states of a height fit together, that a longer chain extends a shorter one,
  that snapshots conserve the supply, and when \<open>newMockChain\<close> returns or panics.
\<close>

section \<open>From \<open>newMockChain\<close> to the step relation\<close>

definition empty_maps :: "mock_chain \<Rightarrow> bool" where
  "empty_maps mc \<longleftrightarrow> mc_blocks mc = [] \<and> mc_certs mc = [] \<and> mc_txs mc = [] \<and> mc_events mc = [] \<and>
     mc_dexBatches mc = [] \<and> mc_nextDexBatches mc = []"

text \<open>The start of the loop: empty maps and one state, that of height zero.\<close>

definition started ::
  "'a env_scheme \<Rightarrow> u64 \<Rightarrow> chain_option list \<Rightarrow> bytes list \<Rightarrow> mock_chain \<Rightarrow> bool" where
  "started E chainID opts addrs mc0 \<longleftrightarrow>
     (\<exists>mc genesis. initChain E chainID (apply_options opts) = Ret mc \<and>
        addrs = map ac_Address (mc_accounts mc) \<and> snapshotStateAt E mc addrs 0 = Ret genesis \<and>
        mc0 = mc\<lparr>mc_states := [(0, genesis)]\<rparr> \<and> empty_maps mc0)"

lemma initChain_Ret:
  assumes "initChain E chainID cfg = Ret mc"
  obtains validators rng1 rng2 rng3 where
    "buildValidators E chainID (new_rand (case co_seed cfg of Some s \<Rightarrow> s | None \<Rightarrow> chainID))
       (nat (if 0 < co_validatorCount cfg then co_validatorCount cfg else 10)) = Ret (validators, rng1)"
    "buildAccounts E validators rng1
       (nat (if 0 < co_accountCount cfg then co_accountCount cfg else int (length validators))) =
       Ret (mc_accounts mc, rng2)"
    "buildPools E (mc_accounts mc) chainID rng2 = Ret (mc_pools mc, rng3)"
    "buildOrderBooks validators chainID = Ret (mc_orderBooks mc)"
    "buildCommittees validators = Ret (mc_committees mc)"
    "mc_validators mc = validators" "mc_chainID mc = chainID" "mc_states mc = []" "empty_maps mc"
    "mc_lockedBatch mc = generateDexBatch mc 0 False None None None"
    "mc_params mc = buildParams chainID" "mc_subsidizedCommittees mc = [chainID, chainID + 1]"
    "mc_retiredCommittees mc = [42]"
  using assms unfolding initChain_def chainEntities_def validator_seed_def validator_count_def Let_def go_bind_eq_Ret
  by (elim exE conjE) (auto simp: go_bind_eq_Ret empty_maps_def generateDexBatch_def split: prod.splits)

lemma newMockChain_builds:
  assumes "newMockChain E numBlocks chainID opts = Ret mc"
  obtains addrs mc0 where "started E chainID opts addrs mc0"
    "builds E (chain_profile chainID (apply_options opts)) addrs mc0 (nat numBlocks) mc"
proof -
  from assms obtain mi genesis where mi: "initChain E chainID (apply_options opts) = Ret mi"
    "snapshotStateAt E mi (map ac_Address (mc_accounts mi)) 0 = Ret genesis"
    "prebuild_from E (chain_profile chainID (apply_options opts)) (map ac_Address (mc_accounts mi)) 1 (nat numBlocks)
       (mi\<lparr>mc_states := gm_put 0 genesis (mc_states mi)\<rparr>) = Ret mc"
    by (auto simp: newMockChain_def prebuildChain_def Let_def go_bind_eq_Ret split: if_splits)
  have e: "mc_states mi = []" "empty_maps mi" by (rule initChain_Ret [OF mi(1)], assumption)+
  let ?mc0 = "mi\<lparr>mc_states := [(0, genesis)]\<rparr>"
  have "started E chainID opts (map ac_Address (mc_accounts mi)) ?mc0"
    using mi e by (auto simp: started_def empty_maps_def)
  moreover have "builds E (chain_profile chainID (apply_options opts)) (map ac_Address (mc_accounts mi)) ?mc0
      (0 + nat numBlocks) mc"
    using mi(3) e(1) by (intro prebuild_from_builds [where n = 0 and mc = ?mc0])
      (auto simp: gm_put_def intro: builds.builds_0)
  ultimately show ?thesis using that by simp
qed

lemma started_functional: "started E c opts addrs mc0 \<Longrightarrow> started E c opts addrs' mc0' \<Longrightarrow> addrs' = addrs \<and> mc0' = mc0"
  by (auto simp: started_def)

lemma started_maps:
  assumes "started E c opts addrs mc0"
  shows "mc_blocks mc0 = []" "mc_certs mc0 = []" "mc_txs mc0 = []" "mc_events mc0 = []"
    "mc_dexBatches mc0 = []" "mc_nextDexBatches mc0 = []" "gm_ok (mc_states mc0)"
    "gm_get (mc_states mc0) k \<noteq> None \<longleftrightarrow> k = 0" "mc_chainID mc0 = c" "addrs = map ac_Address (mc_accounts mc0)"
    "snapshotStateAt E (entities mc0) addrs 0 = Ret (the (gm_get (mc_states mc0) 0))"
    "mc_lockedBatch mc0 = generateDexBatch (entities mc0) 0 False None None None"
proof -
  obtain mc genesis where s: "initChain E c (apply_options opts) = Ret mc"
    "addrs = map ac_Address (mc_accounts mc)" "snapshotStateAt E mc addrs 0 = Ret genesis"
    "mc0 = mc\<lparr>mc_states := [(0, genesis)]\<rparr>" "empty_maps mc0"
    using assms by (auto simp: started_def)
  then show "mc_blocks mc0 = []" "mc_certs mc0 = []" "mc_txs mc0 = []" "mc_events mc0 = []"
    "mc_dexBatches mc0 = []" "mc_nextDexBatches mc0 = []" "gm_ok (mc_states mc0)"
    "gm_get (mc_states mc0) k \<noteq> None \<longleftrightarrow> k = 0" "addrs = map ac_Address (mc_accounts mc0)"
    by (simp_all add: empty_maps_def gm_ok_def gm_get_def)
  show "mc_chainID mc0 = c" by (rule initChain_Ret [OF s(1)]) (simp add: s(4))
  show "mc_lockedBatch mc0 = generateDexBatch (entities mc0) 0 False None None None"
    by (rule initChain_Ret [OF s(1)]) (simp add: s(4) generateDexBatch_def)
  have "snapshotStateAt E (entities mc0) addrs 0 = snapshotStateAt E mc addrs 0"
    by (rule snapshotStateAt_cong) (simp add: s(4) entities_def)
  then show "snapshotStateAt E (entities mc0) addrs 0 = Ret (the (gm_get (mc_states mc0) 0))"
    using s(3,4) by (simp add: gm_get_def)
qed

section \<open>One height of the finished chain\<close>

lemma entities_idem [simp]: "entities (entities mc) = entities mc"
  by (simp add: entities_def)

lemma height_facts:
  assumes "started E c opts addrs mc0" "builds E p addrs mc0 n mc" "1 \<le> i" "i \<le> n" "n < 2 ^ 64"
  obtains mc1 txs evs block state cert where
    "builds E p addrs mc0 (i - 1) mc1" "fresh_height mc1 (of_nat i)"
    "generateClosedFormTxs E (entities mc) (of_nat i) p = Ret txs" "gm_get (mc_txs mc) (of_nat i) = Some txs"
    "generateClosedFormEvents E (entities mc) (of_nat i) p = Ret evs" "gm_get (mc_events mc) (of_nat i) = Some evs"
    "generateBlock E mc1 (of_nat i) txs evs = Ret block" "gm_get (mc_blocks mc) (of_nat i) = Some block"
    "snapshotStateAt E (entities mc) addrs (of_nat i) = Ret state" "gm_get (mc_states mc) (of_nat i) = Some state"
    "buildCertificateForTx E
       (mc1\<lparr>mc_blocks := gm_put (of_nat i) block (mc_blocks mc1),
          mc_dexBatches := gm_put (of_nat i) (mc_lockedBatch mc) (mc_dexBatches mc1),
          mc_states := gm_put (of_nat i) state (mc_states mc1)\<rparr>) (of_nat i) = Ret cert"
    "gm_get (mc_certs mc) (of_nat i) = Some cert"
    "gm_get (mc_dexBatches mc) (of_nat i) = Some (mc_lockedBatch mc)"
    "gm_get (mc_nextDexBatches mc) (of_nat i) = Some (generateDexBatch (entities mc) (of_nat i) True None None None)"
proof -
  note m = started_maps [OF assms(1)]
  have ok: "gm_ok (mc_blocks mc0)" "gm_ok (mc_certs mc0)" "gm_ok (mc_txs mc0)" "gm_ok (mc_events mc0)"
    "gm_ok (mc_dexBatches mc0)" "gm_ok (mc_nextDexBatches mc0)"
    using m(1-6) gm.ok_empty by simp_all
  have "i - 1 \<le> n" using assms(4) by linarith
  then obtain mc1 where b1: "builds E p addrs mc0 (i - 1) mc1" using builds_prefix [OF assms(2)] by blast
  note same = builds_functional [OF b1]
  note e = builds_entities [OF b1] builds_entities [OF assms(2)]
  have ee: "entities mc1 = entities (entities mc)" using e by simp
  have new: "\<not> (\<exists>j. 1 \<le> j \<and> j \<le> i - 1 \<and> (of_nat i :: u64) = of_nat j)"
    using assms(3-5) of_nat_u64_inj [of i] by auto
  have "(of_nat i :: u64) \<noteq> 0" using assms(3-5) of_nat_u64_inj [of i 0] by simp
  then have fresh: "fresh_height mc1 (of_nat i)"
    using blocks.sel_dom [OF b1 ok(1), of "of_nat i"] dexes.sel_dom [OF b1 ok(5), of "of_nat i"]
      states.sel_dom [OF b1 m(7), of "of_nat i"] new m(1,5,8) by (auto simp: fresh_height_def gm.get_empty)
  obtain txs where t: "generateClosedFormTxs E mc1 (of_nat i) p = Ret txs" "gm_get (mc_txs mc) (of_nat i) = Some txs"
    using txs.sel_val [OF assms(2) ok(3) assms(3-5)] same by metis
  obtain evs where ev: "generateClosedFormEvents E mc1 (of_nat i) p = Ret evs" "gm_get (mc_events mc) (of_nat i) = Some evs"
    using events.sel_val [OF assms(2) ok(4) assms(3-5)] same by metis
  obtain block where bl: "generateBlock E mc1 (of_nat i) txs evs = Ret block" "gm_get (mc_blocks mc) (of_nat i) = Some block"
    using blocks.sel_val [OF assms(2) ok(1) assms(3-5)] same t(1) ev(1) by (metis go.inject)
  obtain state where st: "snapshotStateAt E mc1 addrs (of_nat i) = Ret state" "gm_get (mc_states mc) (of_nat i) = Some state"
    using states.sel_val [OF assms(2) m(7) assms(3-5)] same by metis
  have dx: "gm_get (mc_dexBatches mc) (of_nat i) = Some (mc_lockedBatch mc1)"
    using dexes.sel_val [OF assms(2) ok(5) assms(3-5)] same by metis
  have nx: "gm_get (mc_nextDexBatches mc) (of_nat i) = Some (generateDexBatch mc1 (of_nat i) True None None None)"
    using nextDexes.sel_val [OF assms(2) ok(6) assms(3-5)] same by metis
  obtain mc2 cert block' state' txs' evs' where ce: "builds E p addrs mc0 (i - 1) mc2"
    "generateClosedFormTxs E mc2 (of_nat i) p = Ret txs'" "generateClosedFormEvents E mc2 (of_nat i) p = Ret evs'"
    "generateBlock E mc2 (of_nat i) txs' evs' = Ret block'" "snapshotStateAt E mc2 addrs (of_nat i) = Ret state'"
    "buildCertificateForTx E
       (mc2\<lparr>mc_blocks := gm_put (of_nat i) block' (mc_blocks mc2),
          mc_dexBatches := gm_put (of_nat i) (mc_lockedBatch mc2) (mc_dexBatches mc2),
          mc_states := gm_put (of_nat i) state' (mc_states mc2)\<rparr>) (of_nat i) = Ret cert"
    "gm_get (mc_certs mc) (of_nat i) = Some cert"
    using certs.sel_val [OF assms(2) ok(2) assms(3-5)] by blast
  have "mc2 = mc1" using same [OF ce(1)] by simp
  with ce t(1) ev(1) bl(1) st(1) have eqs: "block' = block" "state' = state" by simp_all
  have lb: "mc_lockedBatch mc1 = mc_lockedBatch mc" using ee generators_cong(8) [of mc1 "entities mc"] by simp
  show ?thesis
  proof (rule that [OF b1 fresh _ t(2) _ ev(2) bl _ st(2) _ ce(7)])
    show "generateClosedFormTxs E (entities mc) (of_nat i) p = Ret txs"
      using t(1) txs_fresh [OF ee fresh fresh_entities, of E p] by simp
    show "generateClosedFormEvents E (entities mc) (of_nat i) p = Ret evs" using ev(1) events_cong [OF ee, of E] by simp
    show "snapshotStateAt E (entities mc) addrs (of_nat i) = Ret state" using st(1) snapshotStateAt_cong [OF ee, of E] by simp
    show "gm_get (mc_dexBatches mc) (of_nat i) = Some (mc_lockedBatch mc)" using dx lb by simp
    show "gm_get (mc_nextDexBatches mc) (of_nat i) = Some (generateDexBatch (entities mc) (of_nat i) True None None None)"
      using nx ee generateDexBatch_cong [of mc1 "entities mc"] generators_cong(1) [OF ee] by simp
  qed (use ce(6) eqs \<open>mc2 = mc1\<close> lb in simp)
qed

section \<open>Which heights exist\<close>

lemma keys_unat: "n < 2 ^ 64 \<Longrightarrow> (\<exists>i. 1 \<le> i \<and> i \<le> n \<and> k = (of_nat i :: u64)) \<longleftrightarrow> 1 \<le> unat k \<and> unat k \<le> n"
proof
  assume n: "n < 2 ^ 64" and "\<exists>i. 1 \<le> i \<and> i \<le> n \<and> k = (of_nat i :: u64)"
  then obtain i where "1 \<le> i" "i \<le> n" "k = of_nat i" by blast
  with n show "1 \<le> unat k \<and> unat k \<le> n" by (simp add: unat_of_nat_u64)
next
  assume "1 \<le> unat k \<and> unat k \<le> n"
  then show "\<exists>i. 1 \<le> i \<and> i \<le> n \<and> k = (of_nat i :: u64)" by (intro exI [of _ "unat k"]) simp
qed

lemma chain_heights:
  assumes "newMockChain E numBlocks chainID opts = Ret mc" "numBlocks < 2 ^ 63"
  shows "latestHeight mc = of_nat (nat numBlocks)"
    "BlockAt mc k \<noteq> None \<longleftrightarrow> 1 \<le> unat k \<and> int (unat k) \<le> numBlocks"
    "CertAt mc k \<noteq> None \<longleftrightarrow> 1 \<le> unat k \<and> int (unat k) \<le> numBlocks"
    "DexBatchAt mc k \<noteq> None \<longleftrightarrow> 1 \<le> unat k \<and> int (unat k) \<le> numBlocks"
    "NextDexBatchAt mc k \<noteq> None \<longleftrightarrow> 1 \<le> unat k \<and> int (unat k) \<le> numBlocks"
    "stateAt mc k \<noteq> None \<longleftrightarrow> k = 0 \<or> int (unat k) \<le> numBlocks"
    "gm_get (mc_txs mc) k \<noteq> None \<longleftrightarrow> 1 \<le> unat k \<and> int (unat k) \<le> numBlocks"
    "gm_get (mc_events mc) k \<noteq> None \<longleftrightarrow> 1 \<le> unat k \<and> int (unat k) \<le> numBlocks"
proof -
  obtain addrs mc0 where s: "started E chainID opts addrs mc0"
    "builds E (chain_profile chainID (apply_options opts)) addrs mc0 (nat numBlocks) mc"
    using newMockChain_builds [OF assms(1)] .
  note m = started_maps [OF s(1)]
  have n: "nat numBlocks < 2 ^ 64" using assms(2) by simp
  have ok: "gm_ok (mc_blocks mc0)" "gm_ok (mc_certs mc0)" "gm_ok (mc_txs mc0)" "gm_ok (mc_events mc0)"
    "gm_ok (mc_dexBatches mc0)" "gm_ok (mc_nextDexBatches mc0)"
    using m(1-6) gm.ok_empty by simp_all
  have le: "1 \<le> unat k \<and> unat k \<le> nat numBlocks \<longleftrightarrow> 1 \<le> unat k \<and> int (unat k) \<le> numBlocks"
    by (metis int_one_le_iff_zero_less le_nat_iff nat_le_iff not_one_le_zero order_trans zle_int int_ops(2) nat_0_le linear)
  note d = keys_unat [OF n, of k, unfolded le]
  show "latestHeight mc = of_nat (nat numBlocks)"
    using blocks.sel_len [OF s(2) m(1) n] by (simp add: latestHeight_def)
  show "BlockAt mc k \<noteq> None \<longleftrightarrow> 1 \<le> unat k \<and> int (unat k) \<le> numBlocks"
    using blocks.sel_dom [OF s(2) ok(1), of k] unfolding d m(1) by (simp add: BlockAt_def gm.get_empty)
  show "CertAt mc k \<noteq> None \<longleftrightarrow> 1 \<le> unat k \<and> int (unat k) \<le> numBlocks"
    using certs.sel_dom [OF s(2) ok(2), of k] unfolding d m(2) by (simp add: CertAt_def gm.get_empty)
  show "DexBatchAt mc k \<noteq> None \<longleftrightarrow> 1 \<le> unat k \<and> int (unat k) \<le> numBlocks"
    using dexes.sel_dom [OF s(2) ok(5), of k] unfolding d m(5) by (simp add: DexBatchAt_def gm.get_empty)
  show "NextDexBatchAt mc k \<noteq> None \<longleftrightarrow> 1 \<le> unat k \<and> int (unat k) \<le> numBlocks"
    using nextDexes.sel_dom [OF s(2) ok(6), of k] unfolding d m(6) by (simp add: NextDexBatchAt_def gm.get_empty)
  have "k = 0 \<or> 1 \<le> unat k" by (metis less_one linorder_not_less unat_eq_zero)
  then show "stateAt mc k \<noteq> None \<longleftrightarrow> k = 0 \<or> int (unat k) \<le> numBlocks"
    using states.sel_dom [OF s(2) m(7), of k] unfolding d m(8) by (auto simp: stateAt_def)
  show "gm_get (mc_txs mc) k \<noteq> None \<longleftrightarrow> 1 \<le> unat k \<and> int (unat k) \<le> numBlocks"
    using txs.sel_dom [OF s(2) ok(3), of k] unfolding d m(3) by (simp add: gm.get_empty)
  show "gm_get (mc_events mc) k \<noteq> None \<longleftrightarrow> 1 \<le> unat k \<and> int (unat k) \<le> numBlocks"
    using events.sel_dom [OF s(2) ok(4), of k] unfolding d m(4) by (simp add: gm.get_empty)
qed

section \<open>Extending the chain\<close>

text \<open>Building more blocks leaves everything served for the earlier heights unchanged.\<close>

lemma chain_prefix:
  assumes "newMockChain E n chainID opts = Ret mc" "newMockChain E m chainID opts = Ret mc'"
    "n \<le> m" "m < 2 ^ 63" "int (unat k) \<le> n"
  shows "BlockAt mc' k = BlockAt mc k" "CertAt mc' k = CertAt mc k" "TxsAt mc' k = TxsAt mc k"
    "EventsAt mc' k = EventsAt mc k" "DexBatchAt mc' k = DexBatchAt mc k"
    "NextDexBatchAt mc' k = NextDexBatchAt mc k" "stateAt mc' k = stateAt mc k"
proof -
  let ?p = "chain_profile chainID (apply_options opts)"
  obtain addrs mc0 where s: "started E chainID opts addrs mc0" "builds E ?p addrs mc0 (nat n) mc"
    using newMockChain_builds [OF assms(1)] .
  obtain addrs' mc0' where s': "started E chainID opts addrs' mc0'" "builds E ?p addrs' mc0' (nat m) mc'"
    using newMockChain_builds [OF assms(2)] .
  have s2: "builds E ?p addrs mc0 (nat m) mc'" using started_functional [OF s(1) s'(1)] s'(2) by simp
  note maps = started_maps [OF s(1)]
  have ok: "gm_ok (mc_blocks mc0)" "gm_ok (mc_certs mc0)" "gm_ok (mc_txs mc0)" "gm_ok (mc_events mc0)"
    "gm_ok (mc_dexBatches mc0)" "gm_ok (mc_nextDexBatches mc0)"
    using maps(1-6) gm.ok_empty by simp_all
  have le: "nat n \<le> nat m" "nat m < 2 ^ 64" using assms(3,4) by simp_all
  have kn: "unat k \<le> nat n" using assms(5) by linarith
  have "k \<noteq> of_nat i" if "nat n < i" "i \<le> nat m" for i
  proof
    assume "k = of_nat i"
    then have "unat k = i" using that(2) le(2) by (simp add: unat_of_nat_u64)
    with kn that(1) show False by simp
  qed
  then have k: "k \<notin> {of_nat i |i. nat n < i \<and> i \<le> nat m}" by blast
  show "BlockAt mc' k = BlockAt mc k"
    using blocks.sel_stable [OF s(2) s2 ok(1) le k] by (simp add: BlockAt_def)
  show "CertAt mc' k = CertAt mc k"
    using certs.sel_stable [OF s(2) s2 ok(2) le k] by (simp add: CertAt_def)
  show "TxsAt mc' k = TxsAt mc k"
    using txs.sel_stable [OF s(2) s2 ok(3) le k] by (simp add: TxsAt_def)
  show "EventsAt mc' k = EventsAt mc k"
    using events.sel_stable [OF s(2) s2 ok(4) le k] by (simp add: EventsAt_def)
  show "DexBatchAt mc' k = DexBatchAt mc k"
    using dexes.sel_stable [OF s(2) s2 ok(5) le k] by (simp add: DexBatchAt_def)
  show "NextDexBatchAt mc' k = NextDexBatchAt mc k"
    using nextDexes.sel_stable [OF s(2) s2 ok(6) le k] by (simp add: NextDexBatchAt_def)
  show "stateAt mc' k = stateAt mc k"
    using states.sel_stable [OF s(2) s2 maps(7) le k] by (simp add: stateAt_def)
qed

section \<open>Blocks and certificates\<close>

lemma generateBlock_Ret:
  assumes "generateBlock E mc h txs evs = Ret b"
  shows "bh_Height (br_BlockHeader b) = h" "bh_Hash (br_BlockHeader b) = blockHash h"
    "bh_LastBlockHash (br_BlockHeader b) = blockHash (h - 1)" "br_Transactions b = txs" "br_Events b = evs"
    "bh_NumTxs (br_BlockHeader b) = of_nat (length txs)"
    "bh_TotalTxs (br_BlockHeader b) = of_nat (length txs) +
       (case gm_get (mc_blocks mc) (h - 1) of Some prev \<Rightarrow> bh_TotalTxs (br_BlockHeader prev) | None \<Rightarrow> 0)"
    "bh_Time (br_BlockHeader b) = of_int (blockTimeMicro h)"
    "go_nth (mc_validators mc) 0 = Ret v \<Longrightarrow> bh_ProposerAddress (br_BlockHeader b) = va_Address v"
  using assms by (auto simp: generateBlock_def Let_def go_bind_eq_Ret)

lemma buildCertificateForTx_Ret:
  assumes "buildCertificateForTx E mc h = Ret c"
  shows "vw_Height (qc_Header c) = h" "vw_ChainId (qc_Header c) = mc_chainID mc"
    "gm_get (mc_blocks mc) h = Some b \<Longrightarrow> qc_BlockHash c = bh_Hash (br_BlockHeader b)"
    "gm_get (mc_blocks mc) h = None \<Longrightarrow> qc_BlockHash c = blockHash h"
    "qc_Block c = qc_BlockHash c" "cr_CheckpointBlockHash (qc_Results c) = qc_BlockHash c"
    "cr_CheckpointHeight (qc_Results c) = h"
    "cr_DexBatch (qc_Results c) = gm_get (mc_dexBatches mc) h"
    "cr_DoubleSigners (qc_Results c) = doubleSigners mc h"
    "sum_list (map pp_Percent (cr_PaymentPercents (qc_Results c))) = 100"
    "go_nth (mc_validators mc) 0 = Ret v \<Longrightarrow> qc_ProposerKey c = va_PublicKey v"
  using assms by (auto simp: buildCertificateForTx_def Let_def go_bind_eq_Ret payment_def)

lemma gm_put_get: "gm_get (gm_put k v m) k = Some v"
  by (simp add: gm_get_def gm_put_def AList.update_conv')

text \<open>A height of a finished chain in the terms of the accessors.\<close>

lemma chain_height:
  assumes "newMockChain E n chainID opts = Ret mc" "n < 2 ^ 63" "1 \<le> unat k" "int (unat k) \<le> n"
  obtains b c s mc1 addrs where
    "BlockAt mc k = Some b" "CertAt mc k = Some c" "stateAt mc k = Some s"
    "generateClosedFormTxs E (entities mc) k (chain_profile chainID (apply_options opts)) = Ret (TxsAt mc k)"
    "generateClosedFormEvents E (entities mc) k (chain_profile chainID (apply_options opts)) = Ret (EventsAt mc k)"
    "generateBlock E mc1 k (TxsAt mc k) (EventsAt mc k) = Ret b" "mc_validators mc1 = mc_validators mc"
    "gm_get (mc_blocks mc1) (k - 1) = (if k = 1 then None else BlockAt mc (k - 1))"
    "snapshotStateAt E (entities mc) (map ac_Address (mc_accounts mc)) k = Ret s"
    "buildCertificateForTx E (mc\<lparr>mc_states := gm_put k s [], mc_blocks := gm_put k b [],
       mc_dexBatches := gm_put k (mc_lockedBatch mc) []\<rparr>) k = Ret c"
    "DexBatchAt mc k = Some (mc_lockedBatch mc)"
    "NextDexBatchAt mc k = Some (generateDexBatch (entities mc) k True None None None)"
    "mc_lockedBatch mc = generateDexBatch (entities mc) 0 False None None None" "mc_chainID mc = chainID"
proof -
  let ?p = "chain_profile chainID (apply_options opts)"
  obtain addrs mc0 where s: "started E chainID opts addrs mc0" "builds E ?p addrs mc0 (nat n) mc"
    using newMockChain_builds [OF assms(1)] .
  note maps = started_maps [OF s(1)]
  have "unat k \<le> nat n" using assms(4) by linarith
  moreover have "nat n < 2 ^ 64" using assms(2) by simp
  ultimately have i: "unat k \<le> nat n" "nat n < 2 ^ 64" .
  obtain mc1 txs evs block state cert where f:
    "builds E ?p addrs mc0 (unat k - 1) mc1" "fresh_height mc1 (of_nat (unat k))"
    "generateClosedFormTxs E (entities mc) (of_nat (unat k)) ?p = Ret txs" "gm_get (mc_txs mc) (of_nat (unat k)) = Some txs"
    "generateClosedFormEvents E (entities mc) (of_nat (unat k)) ?p = Ret evs" "gm_get (mc_events mc) (of_nat (unat k)) = Some evs"
    "generateBlock E mc1 (of_nat (unat k)) txs evs = Ret block" "gm_get (mc_blocks mc) (of_nat (unat k)) = Some block"
    "snapshotStateAt E (entities mc) addrs (of_nat (unat k)) = Ret state" "gm_get (mc_states mc) (of_nat (unat k)) = Some state"
    "buildCertificateForTx E
       (mc1\<lparr>mc_blocks := gm_put (of_nat (unat k)) block (mc_blocks mc1),
          mc_dexBatches := gm_put (of_nat (unat k)) (mc_lockedBatch mc) (mc_dexBatches mc1),
          mc_states := gm_put (of_nat (unat k)) state (mc_states mc1)\<rparr>) (of_nat (unat k)) = Ret cert"
    "gm_get (mc_certs mc) (of_nat (unat k)) = Some cert"
    "gm_get (mc_dexBatches mc) (of_nat (unat k)) = Some (mc_lockedBatch mc)"
    "gm_get (mc_nextDexBatches mc) (of_nat (unat k)) =
      Some (generateDexBatch (entities mc) (of_nat (unat k)) True None None None)"
    by (rule height_facts [OF s assms(3) i])
  note e = builds_entities [OF s(2)]
  have ent: "entities mc1 = entities mc" using builds_entities [OF f(1)] e by simp
  note g = generators_cong [OF ent]
  have ad: "addrs = map ac_Address (mc_accounts mc)"
    using maps(10) generators_cong(2) [OF e] by simp
  have w [simp]: "(of_nat (unat k) :: u64) = k" by simp
  note f' = f [unfolded w]
  have prev: "gm_get (mc_blocks mc1) (k - 1) = (if k = 1 then None else BlockAt mc (k - 1))"
  proof (cases "k = 1")
    case True
    have "builds E ?p addrs mc0 0 mc1" using f(1) True by simp
    then show ?thesis using True maps(1) by (simp add: builds_0_iff gm.get_empty)
  next
    case False
    have "k \<noteq> 0" using assms(3) by auto
    then have u: "unat (k - 1) = unat k - 1" by (simp add: unat_minus_one)
    have "k - 1 \<noteq> of_nat j" if "unat k - 1 < j" "j \<le> nat n" for j
      using that u i(2) unat_of_nat_u64 [of j] by (metis less_le_not_le order_le_less_trans order_refl)
    then have "k - 1 \<notin> {of_nat j |j. unat k - 1 < j \<and> j \<le> nat n}" by blast
    moreover have "unat k - 1 \<le> nat n" using i(1) by linarith
    moreover have "gm_ok (mc_blocks mc0)" using maps(1) gm.ok_empty by simp
    ultimately show ?thesis
      using blocks.sel_stable [OF f(1) s(2) _ _ i(2), of "k - 1"] False by (simp add: BlockAt_def)
  qed
  have cert: "buildCertificateForTx E (mc\<lparr>mc_states := gm_put k state [], mc_blocks := gm_put k block [],
       mc_dexBatches := gm_put k (mc_lockedBatch mc) []\<rparr>) k = Ret cert"
    using f'(11) g by (simp add: buildCertificateForTx_def doubleSigners_def stateAt_def gm_put_get)
  have lock: "mc_lockedBatch mc = generateDexBatch (entities mc) 0 False None None None"
    using maps(12) generators_cong(8) [OF e] e by simp
  show ?thesis
    by (rule that [of block cert state mc1])
      (use f' ad prev cert lock g maps(9) generators_cong(1) [OF e] in
        \<open>simp_all add: BlockAt_def CertAt_def stateAt_def TxsAt_def EventsAt_def DexBatchAt_def NextDexBatchAt_def\<close>)
qed

lemma chain_block:
  assumes "newMockChain E n chainID opts = Ret mc" "n < 2 ^ 63" "1 \<le> unat k" "int (unat k) \<le> n"
  shows "\<exists>b. BlockAt mc k = Some b \<and> bh_Height (br_BlockHeader b) = k \<and> bh_Hash (br_BlockHeader b) = blockHash k \<and>
    br_Transactions b = TxsAt mc k \<and> br_Events b = EventsAt mc k \<and>
    bh_NumTxs (br_BlockHeader b) = of_nat (length (TxsAt mc k)) \<and>
    (case BlockAt mc (k - 1) of
       Some prev \<Rightarrow> bh_LastBlockHash (br_BlockHeader b) = bh_Hash (br_BlockHeader prev) \<and>
         bh_TotalTxs (br_BlockHeader b) = bh_TotalTxs (br_BlockHeader prev) + bh_NumTxs (br_BlockHeader b)
     | None \<Rightarrow> k = 1 \<and> bh_LastBlockHash (br_BlockHeader b) = replicate 32 0 \<and>
         bh_TotalTxs (br_BlockHeader b) = bh_NumTxs (br_BlockHeader b))"
proof -
  obtain b mc1 where b: "BlockAt mc k = Some b" "generateBlock E mc1 k (TxsAt mc k) (EventsAt mc k) = Ret b"
    "gm_get (mc_blocks mc1) (k - 1) = (if k = 1 then None else BlockAt mc (k - 1))"
    by (rule chain_height [OF assms])
  note g = generateBlock_Ret [OF b(2)]
  show ?thesis
  proof (cases "k = 1")
    case True
    have "BlockAt mc 0 = None" using chain_heights(2) [OF assms(1,2), of 0] by simp
    with True b(1,3) g show ?thesis by (simp add: blockHash_def)
  next
    case False
    have "k \<noteq> 0" using assms(3) by auto
    then have u: "unat (k - 1) = unat k - 1" by (simp add: unat_minus_one)
    have "unat k \<noteq> 1" using False by (metis unat_1 word_unat_eq_iff)
    then have r: "1 \<le> unat (k - 1)" "int (unat (k - 1)) \<le> n" using u assms(3,4) by linarith+
    obtain b' mc1' where b': "BlockAt mc (k - 1) = Some b'"
      "generateBlock E mc1' (k - 1) (TxsAt mc (k - 1)) (EventsAt mc (k - 1)) = Ret b'"
      by (rule chain_height [OF assms(1,2) r])
    show ?thesis using False b(1,3) b'(1) g generateBlock_Ret(2) [OF b'(2)] by (simp add: add.commute)
  qed
qed

lemma chain_certificate:
  assumes "newMockChain E n chainID opts = Ret mc" "n < 2 ^ 63" "1 \<le> unat k" "int (unat k) \<le> n"
  shows "\<exists>b c. BlockAt mc k = Some b \<and> CertAt mc k = Some c \<and> vw_Height (qc_Header c) = k \<and>
    qc_BlockHash c = bh_Hash (br_BlockHeader b) \<and> qc_Block c = qc_BlockHash c \<and>
    cr_CheckpointHeight (qc_Results c) = k \<and> cr_CheckpointBlockHash (qc_Results c) = qc_BlockHash c \<and>
    cr_DexBatch (qc_Results c) = DexBatchAt mc k \<and> cr_DoubleSigners (qc_Results c) = doubleSigners mc k \<and>
    sum_list (map pp_Percent (cr_PaymentPercents (qc_Results c))) = 100"
proof -
  obtain b c s where b: "BlockAt mc k = Some b" "CertAt mc k = Some c" "stateAt mc k = Some s"
    "buildCertificateForTx E (mc\<lparr>mc_states := gm_put k s [], mc_blocks := gm_put k b [],
       mc_dexBatches := gm_put k (mc_lockedBatch mc) []\<rparr>) k = Ret c" "DexBatchAt mc k = Some (mc_lockedBatch mc)"
    by (rule chain_height [OF assms])
  note c = buildCertificateForTx_Ret [OF b(4)]
  have "doubleSigners (mc\<lparr>mc_states := gm_put k s [], mc_blocks := gm_put k b [],
       mc_dexBatches := gm_put k (mc_lockedBatch mc) []\<rparr>) k = doubleSigners mc k"
    using b(3) by (simp add: doubleSigners_def stateAt_def gm_put_get)
  then show ?thesis using b(1,2,5) c(1,5-10) c(3) [of b] by (simp add: gm_put_get)
qed

section \<open>Transactions and events\<close>

lemma buildTx_Ret:
  assumes "buildTx E mc h p i = Ret t"
  shows "tr_Height t = h" "tr_Index t = of_nat i" "tx_ChainId (tr_Transaction t) = mc_chainID mc"
    "tx_CreatedHeight (tr_Transaction t) = h" "tx_Time (tr_Transaction t) = of_int (blockTimeMicro h)"
    "tx_MessageType (tr_Transaction t) = tr_MessageType t"
    "\<exists>l \<in> set (type_labels p). tr_MessageType t = messageTypeForLabel E l"
    "tr_Sender t \<in> ac_Address ` set (mc_accounts mc)"
    "tr_TxHash t = hex_encode (HashBytes [VStr ''tx'', VUint (mc_chainID mc), VUint h, VInt (int i)])"
  using assms by (auto simp: buildTx_def go_bind_eq_Ret go_nth_eq_Ret dest!: TxTypeMixAt_label)

lemma generateClosedFormTxs_Ret:
  assumes "generateClosedFormTxs E mc h p = Ret txs"
  shows "TxCountAt E (mc_chainID mc) p h = Some (length txs)"
    "i < length txs \<Longrightarrow> buildTx E mc h p i = Ret (txs ! i)"
proof -
  obtain n where n: "TxCountAt E (mc_chainID mc) p h = Some n" "go_mapM (buildTx E mc h p) [0..<n] = Ret txs"
    using assms by (auto simp: generateClosedFormTxs_def go_bind_eq_Ret)
  note l = go_mapM_length [OF n(2)]
  then show "TxCountAt E (mc_chainID mc) p h = Some (length txs)" using n(1) by simp
  show "i < length txs \<Longrightarrow> buildTx E mc h p i = Ret (txs ! i)" using go_mapM_nth [OF n(2), of i] l by simp
qed

lemma chain_txs:
  assumes "newMockChain E n chainID opts = Ret mc" "n < 2 ^ 63" "1 \<le> unat k" "int (unat k) \<le> n"
  shows "TxCountAt E chainID (chain_profile chainID (apply_options opts)) k = Some (length (TxsAt mc k))"
    "i < length (TxsAt mc k) \<Longrightarrow>
       buildTx E (entities mc) k (chain_profile chainID (apply_options opts)) i = Ret (TxsAt mc k ! i)"
proof -
  have "generateClosedFormTxs E (entities mc) k (chain_profile chainID (apply_options opts)) = Ret (TxsAt mc k)"
    "mc_chainID mc = chainID"
    by (rule chain_height [OF assms], assumption)+
  with generateClosedFormTxs_Ret [OF this(1)]
  show "TxCountAt E chainID (chain_profile chainID (apply_options opts)) k = Some (length (TxsAt mc k))"
    "i < length (TxsAt mc k) \<Longrightarrow>
       buildTx E (entities mc) k (chain_profile chainID (apply_options opts)) i = Ret (TxsAt mc k ! i)"
    by simp_all
qed

lemma buildClosedFormEvent_one: "length (buildClosedFormEvent E l h c a b) = 1"
  by (simp add: buildClosedFormEvent_def Let_def)

lemma generateClosedFormEvents_Ret:
  assumes "generateClosedFormEvents E mc h p = Ret evs"
  shows "EventCountAt E (mc_chainID mc) p h = Some (length evs)"
    "e \<in> set evs \<Longrightarrow> ev_Height e = h \<and> ev_BlockHeight e = h \<and> ev_BlockHash e = blockHash h \<and>
       ev_ChainId e = mc_chainID mc \<and> ev_Address e \<in> ac_Address ` set (mc_accounts mc) \<and> ev_Msg e \<noteq> None"
proof -
  obtain n slots where n: "EventCountAt E (mc_chainID mc) p h = Some n"
    "go_mapM (eventsOfSlot E mc h p) [0..<n] = Ret slots" "evs = concat slots"
    using assms by (auto simp: generateClosedFormEvents_def go_bind_eq_Ret)
  note l = go_mapM_length [OF n(2)]
  have slot: "\<exists>l a. s = buildClosedFormEvent E l h (mc_chainID mc) (ac_Address a) (blockHash h) \<and> a \<in> set (mc_accounts mc)"
    if s: "s \<in> set slots" for s
  proof -
    obtain i where "i < n" "eventsOfSlot E mc h p i = Ret s"
      using s l go_mapM_nth [OF n(2)] by (auto simp: in_set_conv_nth)
    then obtain l j where "s = buildClosedFormEvent E l h (mc_chainID mc) (ac_Address (mc_accounts mc ! j)) (blockHash h)"
      "j < length (mc_accounts mc)"
      by (auto simp: eventsOfSlot_def go_bind_eq_Ret go_nth_eq_Ret)
    then show ?thesis using nth_mem by blast
  qed
  then have "\<forall>s \<in> set slots. length s = 1" using buildClosedFormEvent_one by metis
  then have "length (concat slots) = length slots" by (induction slots) auto
  then show "EventCountAt E (mc_chainID mc) p h = Some (length evs)" using n l by simp
  show "ev_Height e = h \<and> ev_BlockHeight e = h \<and> ev_BlockHash e = blockHash h \<and>
       ev_ChainId e = mc_chainID mc \<and> ev_Address e \<in> ac_Address ` set (mc_accounts mc) \<and> ev_Msg e \<noteq> None"
    if "e \<in> set evs"
    using that n(3) slot by (fastforce simp: buildClosedFormEvent_def Let_def)
qed

section \<open>Snapshots\<close>

lemma snapshotStateAt_Ret:
  assumes "snapshotStateAt E mc addrs h = Ret s"
  shows "map ac_Address (gs_Accounts s) = addrs"
    "SnapshotBalancesAt E addrs (mc_chainID mc) h = Some bs \<Longrightarrow> length bs = length addrs \<Longrightarrow> map ac_Amount (gs_Accounts s) = bs"
    "su_Total (gs_Supply s) = TotalSupplyAt E (mc_chainID mc) h"
    "su_Staked (gs_Supply s) = sum_list (map va_StakedAmount (gs_Validators s))"
    "opt_mapM (snapshot_validator E (mc_chainID mc) h) (mc_validators mc) = Some (gs_Validators s)"
    "gs_Time s = of_int (blockTimeMicro h)" "gs_Pools s = mc_pools mc" "gs_Params s = mc_params mc"
    "gs_Committees s = mc_committees mc" "gs_OrderBooks s = mc_orderBooks mc"
    "gs_NonSigners s = snapshot_nonSigners mc h" "gs_DoubleSigners s = snapshot_doubleSigners mc h"
proof -
  obtain bs' accs where b: "SnapshotBalancesAt E addrs (mc_chainID mc) h = Some bs'"
    "go_mapM (\<lambda>(i, a). go_bind (go_nth bs' i) (\<lambda>b. Ret \<lparr>ac_Address = a, ac_Amount = b\<rparr>)) (enumerate 0 addrs) = Ret accs"
    "gs_Accounts s = accs"
    using assms by (auto simp: snapshotStateAt_def go_bind_eq_Ret)
  have nth: "\<exists>b. go_nth bs' i = Ret b \<and> accs ! i = \<lparr>ac_Address = addrs ! i, ac_Amount = b\<rparr>" if "i < length addrs" for i
    using go_mapM_nth [OF b(2), of i] that by (auto simp: nth_enumerate_eq go_bind_eq_Ret)
  have len: "length accs = length addrs" using go_mapM_length [OF b(2)] by simp
  show "map ac_Address (gs_Accounts s) = addrs"
    by (rule nth_equalityI) (use b(3) len in \<open>auto dest!: nth\<close>)
  show "map ac_Amount (gs_Accounts s) = bs"
    if "SnapshotBalancesAt E addrs (mc_chainID mc) h = Some bs" "length bs = length addrs"
    by (rule nth_equalityI) (use b(1,3) len that in \<open>auto simp: go_nth_eq_Ret dest!: nth\<close>)
qed (use assms in \<open>auto simp: snapshotStateAt_def go_bind_eq_Ret foldl_plus_sum_list\<close>)

lemma snapshot_validator_Some:
  assumes "snapshot_validator E chainID h v = Some w"
  shows "va_Address w = va_Address v" "va_PublicKey w = va_PublicKey v" "va_Committees w = va_Committees v"
    "va_Output w = va_Output v" "StakeAt E (va_Address v) chainID h = Some (va_StakedAmount w)"
    "ValidatorStatusAt E (va_Address v) 0 h =
       Some (if va_UnstakingHeight w = 0 then ValidatorActive else ValidatorUnstaked)"
    "va_UnstakingHeight w \<le> h"
    "va_UnstakingHeight w \<noteq> 0 \<Longrightarrow> UnstakeHeightFor E (va_Address v) 0 = Some (va_UnstakingHeight w)"
  using assms UnstakeHeightFor_genesis_range [of E "va_Address v"]
  by (auto simp: snapshot_validator_def bind_eq_Some_conv ValidatorStatusAt_def split: if_splits)

lemma snapshot_validator_update:
  assumes "snapshot_validator E chainID h v = Some w"
  obtains u stake where "UnstakeHeightFor E (va_Address v) 0 = Some u" "StakeAt E (va_Address v) chainID h = Some stake"
    "w = v\<lparr>va_StakedAmount := stake, va_MaxPausedHeight := 0, va_UnstakingHeight := (if u \<le> h then u else 0)\<rparr>"
  using assms that by (auto simp: snapshot_validator_def bind_eq_Some_conv ValidatorStatusAt_def not_less split: if_splits)

lemma chain_state:
  assumes "newMockChain E n chainID opts = Ret mc" "n < 2 ^ 63" "stateAt mc k = Some s"
  shows "snapshotStateAt E (entities mc) (map ac_Address (mc_accounts mc)) k = Ret s" "mc_chainID mc = chainID"
proof -
  let ?p = "chain_profile chainID (apply_options opts)"
  obtain addrs mc0 where b: "started E chainID opts addrs mc0" "builds E ?p addrs mc0 (nat n) mc"
    using newMockChain_builds [OF assms(1)] .
  note maps = started_maps [OF b(1)] and e = builds_entities [OF b(2)]
  show "mc_chainID mc = chainID" using maps(9) generators_cong(1) [OF e] by simp
  show "snapshotStateAt E (entities mc) (map ac_Address (mc_accounts mc)) k = Ret s"
  proof (cases "k = 0")
    case True
    have "(0 :: u64) \<notin> {of_nat j |j. 0 < j \<and> j \<le> nat n}"
      using of_nat_u64_inj [of 0] assms(2) by auto
    moreover have "nat n < 2 ^ 64" using assms(2) by simp
    ultimately have "gm_get (mc_states mc) 0 = gm_get (mc_states mc0) 0"
      by (intro states.sel_stable [OF builds.builds_0 b(2) maps(7)]) simp_all
    with assms(3) True have "s = the (gm_get (mc_states mc0) 0)" by (simp add: stateAt_def)
    then show ?thesis using maps(10,11) e True generators_cong(2) [OF e] by simp
  next
    case False
    have "int (unat k) \<le> n" using chain_heights(6) [OF assms(1,2), of k] assms(3) False by simp
    moreover have "1 \<le> unat k" using False by (metis less_one linorder_not_less unat_eq_zero)
    ultimately show ?thesis using chain_height [OF assms(1,2), of k] assms(3)
      by (metis option.inject)
  qed
qed

end
