(* ===== verification/ChainTotal.thy ===== *)
theory ChainTotal
  imports ChainProps
begin

text \<open>
  When \<open>newMockChain\<close> returns: on a fair source, with conforming \<open>math\<close> functions and key
  library, for every chain identifier, profile and option list that leaves at least two
  validators. With a single validator it panics.
\<close>

section \<open>The entities\<close>

definition account_total :: "chainOptions \<Rightarrow> nat" where
  "account_total cfg = (if 0 < co_accountCount cfg then nat (co_accountCount cfg) else validator_count cfg)"

lemma initChain_prefix:
  assumes "env_ok E" "fair_source E"
  obtains validators accounts pools rng1 rng2 rng3 where
    "buildValidators E chainID (new_rand (case co_seed cfg of Some s \<Rightarrow> s | None \<Rightarrow> chainID)) (validator_count cfg) =
       Ret (validators, rng1)" "length validators = validator_count cfg"
    "buildAccounts E validators rng1 (account_total cfg) = Ret (accounts, rng2)" "length accounts = account_total cfg"
    "buildPools E accounts chainID rng2 = Ret (pools, rng3)"
proof -
  obtain vs r1 where v: "buildValidators E chainID (new_rand (case co_seed cfg of Some s \<Rightarrow> s | None \<Rightarrow> chainID))
      (validator_count cfg) = Ret (vs, r1)"
    using buildValidators_returns [OF assms] by blast
  obtain as r2 where a: "buildAccounts E vs r1 (account_total cfg) = Ret (as, r2)"
    using buildAccounts_returns [OF assms] by blast
  have len: "length vs = validator_count cfg" "length as = account_total cfg"
    using buildValidators_wf(1) [OF v] buildAccounts_wf(1) [OF a] .
  have "0 < account_total cfg" by (simp add: account_total_def validator_count_def)
  then have "as \<noteq> []" using len(2) by auto
  then obtain ps r3 where "buildPools E as chainID r2 = Ret (ps, r3)"
    using buildPools_returns [OF assms(2)] by blast
  with v a len that show ?thesis by blast
qed

lemma initChain_returns:
  assumes "env_ok E" "fair_source E" "2 \<le> validator_count cfg"
  shows "\<exists>mc. initChain E chainID cfg = Ret mc \<and> length (mc_validators mc) = validator_count cfg \<and>
    length (mc_accounts mc) = account_total cfg"
proof -
  obtain vs as ps r1 r2 r3 where b:
    "buildValidators E chainID (new_rand (case co_seed cfg of Some s \<Rightarrow> s | None \<Rightarrow> chainID)) (validator_count cfg) =
       Ret (vs, r1)" "length vs = validator_count cfg"
    "buildAccounts E vs r1 (account_total cfg) = Ret (as, r2)" "length as = account_total cfg"
    "buildPools E as chainID r2 = Ret (ps, r3)"
    by (rule initChain_prefix [OF assms(1,2)])
  have two: "2 \<le> length vs" using b(2) assms(3) by simp
  have "va_Committees v \<noteq> []" if v: "v \<in> set vs" for v
  proof -
    obtain j where "j < validator_count cfg" "v = vs ! j" using v b(2) by (metis in_set_conv_nth)
    then show ?thesis using buildValidators_wf(2) [OF b(1)] by (auto simp: validator_wf_def)
  qed
  then obtain c where c: "buildCommittees vs = Ret c" using buildCommittees_Ret by blast
  obtain obs pr where o: "buildOrderBooks vs chainID = Ret obs" "buildProposals vs = Ret pr"
    using buildOrderBooks_Ret [OF two] buildProposals_Ret [OF two] by blast
  have n: "nat (if 0 < co_accountCount cfg then co_accountCount cfg else int (length vs)) = account_total cfg"
    using b(2) by (simp add: account_total_def)
  have "\<exists>mc. initChain E chainID cfg = Ret mc \<and> mc_validators mc = vs \<and> mc_accounts mc = as"
    unfolding initChain_def chainEntities_def validator_seed_def Let_def b(1) go_bind.simps prod.case n b(3,5) o c
    by (intro exI conjI, rule refl) simp_all
  then show ?thesis using b(2,4) by auto
qed

lemma initChain_panics:
  assumes "env_ok E" "fair_source E" "validator_count cfg < 2"
  shows "initChain E chainID cfg = Panic IndexOutOfRange"
proof -
  obtain vs as ps r1 r2 r3 where b:
    "buildValidators E chainID (new_rand (case co_seed cfg of Some s \<Rightarrow> s | None \<Rightarrow> chainID)) (validator_count cfg) =
       Ret (vs, r1)" "length vs = validator_count cfg"
    "buildAccounts E vs r1 (account_total cfg) = Ret (as, r2)" "length as = account_total cfg"
    "buildPools E as chainID r2 = Ret (ps, r3)"
    by (rule initChain_prefix [OF assms(1,2)])
  have n: "nat (if 0 < co_accountCount cfg then co_accountCount cfg else int (length vs)) = account_total cfg"
    using b(2) by (simp add: account_total_def)
  have "buildOrderBooks vs chainID = Panic IndexOutOfRange"
    using b(2) assms(3) by (intro buildOrderBooks_Panic) simp
  then show ?thesis using b by (simp add: initChain_def chainEntities_def validator_seed_def Let_def n)
qed

section \<open>A height\<close>

definition chain_ready :: "mock_chain \<Rightarrow> bool" where
  "chain_ready mc \<longleftrightarrow> 2 \<le> length (mc_validators mc) \<and> 0 < length (mc_accounts mc) \<and> length (mc_accounts mc) < 2 ^ 64"

lemma chain_readyD:
  assumes "chain_ready mc"
  obtains v0 v1 vs a as where "mc_validators mc = v0 # v1 # vs" "mc_accounts mc = a # as"
  using assms by (cases "mc_validators mc"; cases "tl (mc_validators mc)"; cases "mc_accounts mc")
    (auto simp: chain_ready_def)

lemma certificate_returns: "chain_ready mc \<Longrightarrow> \<exists>c. buildCertificateForTx E mc h = Ret c"
  by (erule chain_readyD) (simp add: buildCertificateForTx_def Let_def)

lemma pick_account_returns:
  assumes "chain_ready mc"
  obtains i where "PickAccountIndex seed (length (mc_accounts mc)) = Ret i" "i < length (mc_accounts mc)"
  using PickAccountIndex_in_range [of "length (mc_accounts mc)" seed] assms by (auto simp: chain_ready_def)

lemma buildTxMsg_returns:
  assumes "chain_ready mc" "env_ok E"
  shows "\<exists>m. buildTxMsg E mc l s r h = Ret m"
proof -
  obtain c where "buildCertificateForTx E mc h = Ret c" using certificate_returns [OF assms(1)] by blast
  moreover obtain k where "public_key_of_seed E (HashBytes [VStr ''stake-pubkey'', VBytes s, VUint h]) = Ret k"
    using public_key_of_seed_returns [OF assms(2) length_HashBytes] by blast
  ultimately show ?thesis by (simp add: buildTxMsg_def)
qed

lemma buildTx_returns:
  assumes "chain_ready mc" "env_ok E" "fair_source E"
  shows "\<exists>t. buildTx E mc h p i = Ret t"
proof -
  obtain a as where a: "mc_accounts mc = a # as" by (rule chain_readyD [OF assms(1)])
  obtain l where l: "TxTypeMixAt E (mc_chainID mc) p (h + of_nat (i + 1) * 1000003) = Some l"
    using TxTypeMixAt_returns [OF assms(3)] by blast
  obtain j where j: "PickAccountIndex (AddrHeightSeed (ac_Address a) (h + of_nat i)) (length (mc_accounts mc)) = Ret j"
    "j < length (mc_accounts mc)" by (rule pick_account_returns [OF assms(1)])
  obtain k where k: "PickAccountIndex (AddrHeightSeed (ac_Address a) (h + of_nat i + 1)) (length (mc_accounts mc)) = Ret k"
    "k < length (mc_accounts mc)" by (rule pick_account_returns [OF assms(1)])
  obtain m where m: "buildTxMsg E mc l (ac_Address (mc_accounts mc ! j)) (ac_Address (mc_accounts mc ! k)) h = Ret m"
    using buildTxMsg_returns [OF assms(1,2)] by blast
  have f: "go_nth (mc_accounts mc) 0 = Ret a" using a by simp
  show ?thesis by (simp add: buildTx_def l [simplified] f j k m go_of_option_def)
qed

lemma eventsOfSlot_returns:
  assumes "chain_ready mc" "fair_source E"
  shows "\<exists>es. eventsOfSlot E mc h p i = Ret es"
proof -
  obtain a as where a: "mc_accounts mc = a # as" by (rule chain_readyD [OF assms(1)])
  obtain l where l: "EventTypeMixAt E (mc_chainID mc) p (h + of_nat (i + 1) * 1000003) = Some l"
    using EventTypeMixAt_returns [OF assms(2)] by blast
  obtain j where j: "PickAccountIndex (AddrHeightSeed (ac_Address a) (h + of_nat i)) (length (mc_accounts mc)) = Ret j"
    "j < length (mc_accounts mc)" by (rule pick_account_returns [OF assms(1)])
  have f: "go_nth (mc_accounts mc) 0 = Ret a" using a by simp
  show ?thesis by (simp add: eventsOfSlot_def l [simplified] f j)
qed

lemma go_mapM_total: "(\<And>x. x \<in> set xs \<Longrightarrow> \<exists>y. f x = Ret y) \<Longrightarrow> \<exists>ys. go_mapM f xs = Ret ys"
proof (induction xs)
  case Nil
  then show ?case by simp
next
  case (Cons x xs)
  then obtain y ys where "f x = Ret y" "go_mapM f xs = Ret ys" by fastforce
  then show ?case by simp
qed

lemma generators_return:
  assumes "chain_ready mc" "env_ok E" "fair_source E" "math_ok E"
  shows "\<exists>txs. generateClosedFormTxs E mc h p = Ret txs" "\<exists>evs. generateClosedFormEvents E mc h p = Ret evs"
proof -
  obtain n where "TxCountAt E (mc_chainID mc) p h = Some n" using TxCountAt_returns [OF assms(3,4)] by blast
  moreover obtain txs where "go_mapM (buildTx E mc h p) [0..<n] = Ret txs"
    using go_mapM_total [of "[0..<n]" "buildTx E mc h p"] buildTx_returns [OF assms(1-3)] by blast
  ultimately show "\<exists>txs. generateClosedFormTxs E mc h p = Ret txs" by (simp add: generateClosedFormTxs_def)
  obtain m where "EventCountAt E (mc_chainID mc) p h = Some m" using EventCountAt_returns [OF assms(3,4)] by blast
  moreover obtain slots where "go_mapM (eventsOfSlot E mc h p) [0..<m] = Ret slots"
    using go_mapM_total [of "[0..<m]" "eventsOfSlot E mc h p"] eventsOfSlot_returns [OF assms(1,3)] by blast
  ultimately show "\<exists>evs. generateClosedFormEvents E mc h p = Ret evs" by (simp add: generateClosedFormEvents_def)
qed

lemma snapshot_validator_returns:
  assumes "fair_source E" "math_ok E"
  shows "\<exists>w. snapshot_validator E c h v = Some w"
proof -
  obtain u where "UnstakeHeightFor E (va_Address v) 0 = Some u" using UnstakeHeightFor_returns [OF assms(1)] by blast
  moreover obtain s where "StakeAt E (va_Address v) c h = Some s" using StakeAt_returns [OF assms(2,1)] by blast
  ultimately show ?thesis by (simp add: snapshot_validator_def ValidatorStatusAt_def)
qed

lemma snapshotStateAt_returns:
  assumes "fair_source E" "math_ok E" "addrs \<noteq> []" "unat h \<le> 2 ^ 40"
  shows "\<exists>s. snapshotStateAt E mc addrs h = Ret s"
proof -
  obtain bs where b: "SnapshotBalancesAt E addrs (mc_chainID mc) h = Some bs" "length bs = length addrs"
    using snapshot_conservation [OF assms(2,1,3,4)] by blast
  have "\<exists>as. go_mapM (\<lambda>(i, a). go_bind (go_nth bs i) (\<lambda>b. Ret \<lparr>ac_Address = a, ac_Amount = b\<rparr>)) (enumerate 0 addrs) = Ret as"
    using b(2) by (intro go_mapM_total) (auto simp: in_set_enumerate_eq)
  moreover obtain vs where "opt_mapM (snapshot_validator E (mc_chainID mc) h) (mc_validators mc) = Some vs"
    using opt_mapM_total [of "mc_validators mc" "snapshot_validator E (mc_chainID mc) h"]
      snapshot_validator_returns [OF assms(1,2)] by blast
  ultimately show ?thesis using b(1) by (auto simp: snapshotStateAt_def)
qed

lemma generateBlock_returns: "chain_ready mc \<Longrightarrow> \<exists>b. generateBlock E mc h txs evs = Ret b"
  by (erule chain_readyD) (simp add: generateBlock_def Let_def)

lemma prebuild_height_returns:
  assumes "chain_ready mc" "env_ok E" "fair_source E" "math_ok E" "addrs \<noteq> []" "unat h \<le> 2 ^ 40"
  shows "\<exists>mc'. prebuild_height E p addrs mc h = Ret mc'"
proof -
  obtain txs evs where t: "generateClosedFormTxs E mc h p = Ret txs" "generateClosedFormEvents E mc h p = Ret evs"
    using generators_return [OF assms(1-4)] by blast
  have block: "\<exists>b. generateBlock E (mc\<lparr>mc_txs := x, mc_events := y\<rparr>) h txs evs = Ret b" for x y
    using assms(1) by (intro generateBlock_returns) (simp add: chain_ready_def)
  have state: "\<exists>s. snapshotStateAt E mc' addrs h = Ret s" for mc'
    by (rule snapshotStateAt_returns [OF assms(3-6)])
  have cert: "\<exists>c. buildCertificateForTx E mc' h = Ret c" if "entities mc' = entities mc" for mc'
    using assms(1) generators_cong [OF that] by (intro certificate_returns) (simp add: chain_ready_def)
  obtain b where b: "generateBlock E (mc\<lparr>mc_txs := gm_put h txs (mc_txs mc), mc_events := gm_put h evs (mc_events mc)\<rparr>)
      h txs evs = Ret b" using block by blast
  let ?m2 = "mc\<lparr>mc_txs := gm_put h txs (mc_txs mc), mc_events := gm_put h evs (mc_events mc),
    mc_blocks := gm_put h b (mc_blocks mc), mc_dexBatches := gm_put h (mc_lockedBatch mc) (mc_dexBatches mc),
    mc_nextDexBatches := gm_put h (generateDexBatch mc h True None None None) (mc_nextDexBatches mc)\<rparr>"
  obtain s where s: "snapshotStateAt E ?m2 addrs h = Ret s" using state by blast
  obtain c where "buildCertificateForTx E (?m2\<lparr>mc_states := gm_put h s (mc_states mc)\<rparr>) h = Ret c"
    using cert [of "?m2\<lparr>mc_states := gm_put h s (mc_states mc)\<rparr>"] by (auto simp: entities_def)
  with t b s show ?thesis by (simp add: prebuild_height_def Let_def generateDexBatch_def)
qed

lemma prebuild_from_returns:
  assumes "env_ok E" "fair_source E" "math_ok E" "addrs \<noteq> []" "h + n \<le> 2 ^ 40 + 1" "chain_ready mc"
  shows "\<exists>mc'. prebuild_from E p addrs h n mc = Ret mc'"
  using assms(5-)
proof (induction n arbitrary: h mc)
  case 0
  then show ?case by simp
next
  case (Suc n)
  have "unat (of_nat h :: u64) \<le> 2 ^ 40" using Suc.prems(1) by (subst unat_of_nat_u64) simp_all
  then obtain mc1 where mc1: "prebuild_height E p addrs mc (of_nat h) = Ret mc1"
    using prebuild_height_returns [OF Suc.prems(2) assms(1-3) assms(4)] by blast
  note g = generators_cong [OF prebuild_height_entities [OF mc1]]
  have "\<exists>mc'. prebuild_from E p addrs (Suc h) n mc1 = Ret mc'"
    using Suc.prems g by (intro Suc.IH) (simp_all add: chain_ready_def)
  with mc1 show ?case by simp
qed

section \<open>The constructor\<close>

lemma newMockChain_returns:
  assumes "env_ok E" "fair_source E" "math_ok E" "numBlocks \<le> 2 ^ 40"
    "2 \<le> validator_count (apply_options opts)" "account_total (apply_options opts) < 2 ^ 64"
  obtains mc where "newMockChain E numBlocks chainID opts = Ret mc"
    "length (mc_validators mc) = validator_count (apply_options opts)"
    "length (mc_accounts mc) = account_total (apply_options opts)" "mc_chainID mc = chainID"
proof -
  let ?cfg = "apply_options opts" and ?p = "chain_profile chainID (apply_options opts)"
  obtain mi where mi: "initChain E chainID ?cfg = Ret mi" "length (mc_validators mi) = validator_count ?cfg"
    "length (mc_accounts mi) = account_total ?cfg"
    using initChain_returns [OF assms(1,2,5)] by blast
  have pos: "0 < account_total ?cfg" by (simp add: account_total_def validator_count_def)
  let ?addrs = "map ac_Address (mc_accounts mi)"
  have addrs: "?addrs \<noteq> []" using mi(3) pos by auto
  obtain g where g: "snapshotStateAt E mi ?addrs 0 = Ret g"
    using snapshotStateAt_returns [OF assms(2,3) addrs, of 0] by auto
  let ?m0 = "mi\<lparr>mc_states := gm_put 0 g (mc_states mi)\<rparr>"
  have cid: "mc_chainID mi = chainID" by (rule initChain_Ret [OF mi(1)])
  have "\<exists>mc'. prebuild_from E ?p ?addrs 1 (nat numBlocks) ?m0 = Ret mc'"
  proof (rule prebuild_from_returns [OF assms(1-3) addrs])
    show "chain_ready ?m0" using mi pos assms(5,6) by (simp add: chain_ready_def)
  qed (use assms(4) in auto)
  then obtain mc where mc: "prebuild_from E ?p ?addrs (Suc 0) (nat numBlocks) ?m0 = Ret mc" by auto
  have e: "entities mc = entities ?m0"
    using builds_entities [OF prebuild_from_builds [OF mc builds.builds_0]] .
  show ?thesis
  proof (rule that)
    have "numBlocks \<noteq> 2 ^ 63 - 1" using assms(4) by simp
    then show "newMockChain E numBlocks chainID opts = Ret mc" using mi(1) g mc
      by (simp add: newMockChain_def prebuildChain_def Let_def)
  qed (use generators_cong [OF e] mi cid in simp_all)
qed

lemma newMockChain_panics:
  assumes "env_ok E" "fair_source E" "validator_count (apply_options opts) < 2"
  shows "newMockChain E numBlocks chainID opts = Panic IndexOutOfRange"
  by (simp add: newMockChain_def Let_def initChain_panics [OF assms])

end
