(* ===== verification/IndexerBlob.thy ===== *)
theory IndexerBlob
  imports ChainTotal
begin

text \<open>
  \<open>internal/chain/indexer_blob.go\<close>: the blob of a committed height, the pair of blobs of
  a query height, and their error results; with what the blobs of a prebuilt chain
  contain and for which heights they exist.
\<close>

section \<open>Definitions\<close>

text \<open>\<open>ErrUnknownHeight\<close> wrapped with the height, or the error of a marshalling call.\<close>

datatype blob_error = UnknownHeight u64 | MarshalError string

fun error_text :: "blob_error \<Rightarrow> string" where
  "error_text (UnknownHeight h) = ''unknown height: '' @ dec_nat (unat h)"
| "error_text (MarshalError e) = e"

definition is_unknown_height :: "blob_error \<Rightarrow> bool" where
  "is_unknown_height e = (case e of UnknownHeight _ \<Rightarrow> True | MarshalError _ \<Rightarrow> False)"

fun sum_bind :: "'e + 'a \<Rightarrow> ('a \<Rightarrow> 'e + 'b) \<Rightarrow> 'e + 'b" where
  "sum_bind (Inl e) f = Inl e"
| "sum_bind (Inr x) f = f x"

lemma sum_bind_eq_Inr: "sum_bind m f = Inr y \<longleftrightarrow> (\<exists>x. m = Inr x \<and> f x = Inr y)"
  by (cases m) auto

definition marshal_one :: "'a env_scheme \<Rightarrow> proto_value \<Rightarrow> blob_error + bytes" where
  "marshal_one E v = (case en_marshal E v of Inl e \<Rightarrow> Inl (MarshalError e) | Inr bz \<Rightarrow> Inr bz)"

fun marshalEach :: "'a env_scheme \<Rightarrow> proto_value list \<Rightarrow> blob_error + bytes list" where
  "marshalEach E [] = Inr []"
| "marshalEach E (v # vs) =
     sum_bind (marshal_one E v) (\<lambda>bz. sum_bind (marshalEach E vs) (\<lambda>out. Inr (bz # out)))"

text \<open>The two counters of the loop over the validators; \<open>ValidatorStatusAt\<close> may not return.\<close>

fun count_status :: "'a env_scheme \<Rightarrow> u64 \<Rightarrow> validator list \<Rightarrow> nat \<times> nat \<Rightarrow> (nat \<times> nat) option" where
  "count_status E h [] acc = Some acc"
| "count_status E h (v # vs) (active, unstaking) =
     (case ValidatorStatusAt E (va_Address v) 0 h of
        None \<Rightarrow> None
      | Some ValidatorActive \<Rightarrow> count_status E h vs (active + 1, unstaking)
      | Some ValidatorUnstaked \<Rightarrow> count_status E h vs (active, unstaking + 1))"

definition BuildIndexerBlob :: "'a env_scheme \<Rightarrow> mock_chain \<Rightarrow> u64 \<Rightarrow> (blob_error + indexer_blob) go" where
  "BuildIndexerBlob E mc blockHeight =
     (case gm_get (mc_blocks mc) blockHeight of
        None \<Rightarrow> Ret (Inl (UnknownHeight blockHeight))
      | Some block \<Rightarrow>
        (case marshal_one E (PBlock block) of Inl e \<Rightarrow> Ret (Inl e) | Inr blockBz \<Rightarrow>
        (case gm_get (mc_states mc) blockHeight of None \<Rightarrow> Ret (Inl (UnknownHeight blockHeight)) | Some state \<Rightarrow>
        (case marshalEach E (map PAccount (gs_Accounts state)) of Inl e \<Rightarrow> Ret (Inl e) | Inr accountsBz \<Rightarrow>
        (case marshalEach E (map PPool (gs_Pools state)) of Inl e \<Rightarrow> Ret (Inl e) | Inr poolsBz \<Rightarrow>
        (case marshalEach E (map PValidator (gs_Validators state)) of Inl e \<Rightarrow> Ret (Inl e) | Inr validatorsBz \<Rightarrow>
        (case marshal_one E (PParams (gs_Params state)) of Inl e \<Rightarrow> Ret (Inl e) | Inr paramsBz \<Rightarrow>
        (case marshal_one E (PSupply (gs_Supply state)) of Inl e \<Rightarrow> Ret (Inl e) | Inr supplyBz \<Rightarrow>
        (case marshal_one E (POrderBooks (gs_OrderBooks state)) of Inl e \<Rightarrow> Ret (Inl e) | Inr ordersBz \<Rightarrow>
        (case marshal_one E (PCommittees (gs_Committees state)) of Inl e \<Rightarrow> Ret (Inl e) | Inr committeesBz \<Rightarrow>
          go_bind (go_of_option (count_status E (blockHeight + 1) (gs_Validators state) (0, 0)))
            (\<lambda>(totalActive, totalUnstaking).
             Ret (Inr \<lparr>ib_Block = blockBz, ib_Accounts = accountsBz, ib_Pools = poolsBz,
               ib_Validators = validatorsBz, ib_Params = paramsBz, ib_Supply = supplyBz,
               ib_Orders = ordersBz, ib_CommitteesData = committeesBz,
               ib_SubsidizedCommittees = mc_subsidizedCommittees mc,
               ib_RetiredCommittees = mc_retiredCommittees mc,
               ib_TotalValidatorsActive = of_nat totalActive,
               ib_TotalValidatorsPaused = 0,
               ib_TotalValidatorsUnstaking = of_nat totalUnstaking\<rparr>))))))))))))"

definition BuildIndexerBlobs :: "'a env_scheme \<Rightarrow> mock_chain \<Rightarrow> u64 \<Rightarrow> (blob_error + indexer_blobs) go" where
  "BuildIndexerBlobs E mc queryHeight =
     (if queryHeight \<le> 1 then Ret (Inl (UnknownHeight queryHeight))
      else go_bind (BuildIndexerBlob E mc (queryHeight - 1)) (\<lambda>r. case r of
          Inl e \<Rightarrow> Ret (Inl e)
        | Inr current \<Rightarrow>
            if 2 < queryHeight
            then go_bind (BuildIndexerBlob E mc (queryHeight - 2)) (\<lambda>r'. case r' of
                Inl e \<Rightarrow> Ret (Inl e)
              | Inr previous \<Rightarrow> Ret (Inr \<lparr>ibs_Current = Some current, ibs_Previous = Some previous\<rparr>))
            else Ret (Inr \<lparr>ibs_Current = Some current, ibs_Previous = None\<rparr>)))"

section \<open>Contents\<close>

lemma marshalEach_Inr:
  "marshalEach E vs = Inr bs \<longleftrightarrow> list_all2 (\<lambda>v b. marshal_one E v = Inr b) vs bs"
proof (induction vs arbitrary: bs)
  case Nil
  then show ?case by auto
next
  case (Cons v vs)
  then show ?case by (cases bs) (auto simp: sum_bind_eq_Inr)
qed

lemma marshal_one_eq [simp]: "marshal_one E v = Inr b \<longleftrightarrow> en_marshal E v = Inr b"
  by (simp add: marshal_one_def split: sum.split)

lemma count_status_sound:
  assumes "count_status E h vs (a, u) = Some (a', u')"
  shows "a' = a + length (filter (\<lambda>v. ValidatorStatusAt E (va_Address v) 0 h = Some ValidatorActive) vs) \<and>
    u' = u + length (filter (\<lambda>v. ValidatorStatusAt E (va_Address v) 0 h = Some ValidatorUnstaked) vs) \<and>
    a' + u' = a + u + length vs"
  using assms
proof (induction vs arbitrary: a u)
  case (Cons v vs)
  obtain s where s: "ValidatorStatusAt E (va_Address v) 0 h = Some s"
    using Cons.prems by (cases "ValidatorStatusAt E (va_Address v) 0 h") auto
  show ?case
  proof (cases s)
    case ValidatorActive
    with Cons.prems s have "count_status E h vs (a + 1, u) = Some (a', u')" by simp
    note IH = Cons.IH [OF this]
    show ?thesis using s ValidatorActive by (simp add: IH [THEN conjunct1] IH [THEN conjunct2, THEN conjunct1])
        (use IH in linarith)
  next
    case ValidatorUnstaked
    with Cons.prems s have "count_status E h vs (a, u + 1) = Some (a', u')" by simp
    note IH = Cons.IH [OF this]
    show ?thesis using s ValidatorUnstaked by (simp add: IH [THEN conjunct1] IH [THEN conjunct2, THEN conjunct1])
        (use IH in linarith)
  qed
qed simp

lemma count_status_returns:
  assumes "fair_source E"
  shows "\<exists>r. count_status E h vs acc = Some r"
proof (induction vs arbitrary: acc)
  case Nil
  then show ?case by (cases acc) simp
next
  case (Cons v vs)
  obtain u where "UnstakeHeightFor E (va_Address v) 0 = Some u" using UnstakeHeightFor_returns [OF assms] by blast
  then have "\<exists>s. ValidatorStatusAt E (va_Address v) 0 h = Some s" by (simp add: ValidatorStatusAt_def)
  then show ?case using Cons.IH by (cases acc) (auto split: ValidatorStatus.split)
qed

text \<open>A blob holds the marshalled block and snapshot of its height, entity by entity.\<close>

definition blob_matches :: "'a env_scheme \<Rightarrow> mock_chain \<Rightarrow> u64 \<Rightarrow> indexer_blob \<Rightarrow> bool" where
  "blob_matches E mc h ib \<longleftrightarrow>
     (\<exists>block state. BlockAt mc h = Some block \<and> stateAt mc h = Some state \<and>
        en_marshal E (PBlock block) = Inr (ib_Block ib) \<and>
        list_all2 (\<lambda>a b. en_marshal E (PAccount a) = Inr b) (gs_Accounts state) (ib_Accounts ib) \<and>
        list_all2 (\<lambda>a b. en_marshal E (PPool a) = Inr b) (gs_Pools state) (ib_Pools ib) \<and>
        list_all2 (\<lambda>a b. en_marshal E (PValidator a) = Inr b) (gs_Validators state) (ib_Validators ib) \<and>
        en_marshal E (PParams (gs_Params state)) = Inr (ib_Params ib) \<and>
        en_marshal E (PSupply (gs_Supply state)) = Inr (ib_Supply ib) \<and>
        en_marshal E (POrderBooks (gs_OrderBooks state)) = Inr (ib_Orders ib) \<and>
        en_marshal E (PCommittees (gs_Committees state)) = Inr (ib_CommitteesData ib) \<and>
        ib_SubsidizedCommittees ib = mc_subsidizedCommittees mc \<and>
        ib_RetiredCommittees ib = mc_retiredCommittees mc \<and>
        ib_TotalValidatorsPaused ib = 0 \<and>
        ib_TotalValidatorsActive ib + ib_TotalValidatorsUnstaking ib = of_nat (length (gs_Validators state)))"

lemma BuildIndexerBlob_Inr:
  assumes "BuildIndexerBlob E mc h = Ret (Inr ib)"
  shows "blob_matches E mc h ib"
proof -
  obtain block state a u where b: "gm_get (mc_blocks mc) h = Some block" "gm_get (mc_states mc) h = Some state"
    "en_marshal E (PBlock block) = Inr (ib_Block ib)"
    "marshalEach E (map PAccount (gs_Accounts state)) = Inr (ib_Accounts ib)"
    "marshalEach E (map PPool (gs_Pools state)) = Inr (ib_Pools ib)"
    "marshalEach E (map PValidator (gs_Validators state)) = Inr (ib_Validators ib)"
    "en_marshal E (PParams (gs_Params state)) = Inr (ib_Params ib)"
    "en_marshal E (PSupply (gs_Supply state)) = Inr (ib_Supply ib)"
    "en_marshal E (POrderBooks (gs_OrderBooks state)) = Inr (ib_Orders ib)"
    "en_marshal E (PCommittees (gs_Committees state)) = Inr (ib_CommitteesData ib)"
    "count_status E (h + 1) (gs_Validators state) (0, 0) = Some (a, u)"
    "ib_TotalValidatorsActive ib = of_nat a" "ib_TotalValidatorsUnstaking ib = of_nat u"
    "ib_TotalValidatorsPaused ib = 0" "ib_SubsidizedCommittees ib = mc_subsidizedCommittees mc"
    "ib_RetiredCommittees ib = mc_retiredCommittees mc"
    using assms unfolding BuildIndexerBlob_def
    by (clarsimp split: option.splits sum.splits simp: go_bind_eq_Ret)
  have "a + u = length (gs_Validators state)" using count_status_sound [OF b(11)] by linarith
  then have "(of_nat a + of_nat u :: u32) = of_nat (length (gs_Validators state))" by (metis of_nat_add)
  then show ?thesis
    using b by (simp add: blob_matches_def BlockAt_def stateAt_def marshalEach_Inr list_all2_map1)
qed

text \<open>The two totals count statuses one height later than the snapshot.\<close>

lemma BuildIndexerBlob_totals:
  assumes "BuildIndexerBlob E mc h = Ret (Inr ib)"
  obtains state where "stateAt mc h = Some state"
    "ib_TotalValidatorsActive ib = of_nat (length (filter (\<lambda>a. ValidatorStatusAt E a 0 (h + 1) = Some ValidatorActive)
       (map va_Address (gs_Validators state))))"
    "ib_TotalValidatorsUnstaking ib = of_nat (length (filter (\<lambda>a. ValidatorStatusAt E a 0 (h + 1) = Some ValidatorUnstaked)
       (map va_Address (gs_Validators state))))"
proof -
  obtain state a u where b: "gm_get (mc_states mc) h = Some state"
    "count_status E (h + 1) (gs_Validators state) (0, 0) = Some (a, u)"
    "ib_TotalValidatorsActive ib = of_nat a" "ib_TotalValidatorsUnstaking ib = of_nat u"
    using assms unfolding BuildIndexerBlob_def
    by (clarsimp split: option.splits sum.splits simp: go_bind_eq_Ret)
  from count_status_sound [OF b(2)] have c:
    "a = length (filter (\<lambda>v. ValidatorStatusAt E (va_Address v) 0 (h + 1) = Some ValidatorActive) (gs_Validators state))"
    "u = length (filter (\<lambda>v. ValidatorStatusAt E (va_Address v) 0 (h + 1) = Some ValidatorUnstaked) (gs_Validators state))"
    by simp_all
  show ?thesis by (rule that [of state]) (use b c in \<open>simp_all add: stateAt_def filter_map o_def\<close>)
qed

lemma BuildIndexerBlob_unknown:
  "BlockAt mc h = None \<Longrightarrow> BuildIndexerBlob E mc h = Ret (Inl (UnknownHeight h))"
  by (simp add: BuildIndexerBlob_def BlockAt_def)

section \<open>Which blobs exist\<close>

text \<open>What a blob marshals, in the order in which \<open>BuildIndexerBlob\<close> does.\<close>

definition blob_parts :: "mock_chain \<Rightarrow> u64 \<Rightarrow> proto_value list" where
  "blob_parts mc h =
     (case (BlockAt mc h, stateAt mc h) of
        (Some b, Some s) \<Rightarrow>
          PBlock b # map PAccount (gs_Accounts s) @ map PPool (gs_Pools s) @ map PValidator (gs_Validators s) @
          [PParams (gs_Params s), PSupply (gs_Supply s), POrderBooks (gs_OrderBooks s), PCommittees (gs_Committees s)]
      | _ \<Rightarrow> [])"

lemma marshalEach_append:
  "marshalEach E (vs @ ws) = sum_bind (marshalEach E vs) (\<lambda>a. sum_bind (marshalEach E ws) (\<lambda>b. Inr (a @ b)))"
proof (induction vs)
  case Nil
  then show ?case by (cases "marshalEach E ws") simp_all
next
  case (Cons v vs)
  then show ?case
    by (cases "marshal_one E v"; cases "marshalEach E vs"; cases "marshalEach E ws") (simp_all del: marshal_one_eq)
qed

lemma marshalEach_Inl: "marshalEach E vs = Inl e \<Longrightarrow> \<exists>v \<in> set vs. \<exists>m. e = MarshalError m \<and> en_marshal E v = Inl m"
proof (induction vs)
  case (Cons v vs)
  show ?case
  proof (cases "en_marshal E v")
    case (Inl m)
    with Cons.prems show ?thesis by (auto simp: marshal_one_def)
  next
    case (Inr b)
    with Cons show ?thesis by (cases "marshalEach E vs") (auto simp: marshal_one_def)
  qed
qed simp

text \<open>A blob of a known height fails with the first error of its parts, and exists otherwise.\<close>

lemma BuildIndexerBlob_known:
  assumes "fair_source E" "BlockAt mc h = Some block" "stateAt mc h = Some state"
  shows "case marshalEach E (blob_parts mc h) of
      Inl e \<Rightarrow> BuildIndexerBlob E mc h = Ret (Inl e)
    | Inr _ \<Rightarrow> \<exists>ib. BuildIndexerBlob E mc h = Ret (Inr ib)"
proof -
  obtain a u where c: "count_status E (h + 1) (gs_Validators state) (0, 0) = Some (a, u)"
    using count_status_returns [OF assms(1), of "h + 1" "gs_Validators state" "(0, 0)"] by auto
  have p: "blob_parts mc h = [PBlock block] @ map PAccount (gs_Accounts state) @ map PPool (gs_Pools state) @
      map PValidator (gs_Validators state) @
      [PParams (gs_Params state)] @ [PSupply (gs_Supply state)] @ [POrderBooks (gs_OrderBooks state)] @ [PCommittees (gs_Committees state)]"
    using assms(2,3) by (simp add: blob_parts_def)
  have one: "marshalEach E [v] = sum_bind (marshal_one E v) (\<lambda>b. Inr [b])" for v by simp
  have B: "BuildIndexerBlob E mc h = (case marshalEach E (blob_parts mc h) of
      Inl e \<Rightarrow> Ret (Inl e) | Inr _ \<Rightarrow> BuildIndexerBlob E mc h)"
    unfolding p marshalEach_append one using assms(2,3)
    by (simp del: marshal_one_eq add: BuildIndexerBlob_def BlockAt_def stateAt_def split: sum.split)
  show ?thesis
  proof (cases "marshalEach E (blob_parts mc h)")
    case (Inl e)
    with B show ?thesis by simp
  next
    case (Inr bs)
    then have "\<exists>ib. BuildIndexerBlob E mc h = Ret (Inr ib)"
      unfolding p marshalEach_append one using assms(2,3)
      by (auto simp del: marshal_one_eq simp: BuildIndexerBlob_def BlockAt_def stateAt_def c sum_bind_eq_Inr)
    with Inr show ?thesis by simp
  qed
qed

text \<open>A marshaller that fails on no value.\<close>

definition marshals :: "'a env_scheme \<Rightarrow> bool" where
  "marshals E \<longleftrightarrow> (\<forall>v. \<exists>b. en_marshal E v = Inr b)"

lemma marshalEach_total: "marshals E \<Longrightarrow> \<exists>bs. marshalEach E vs = Inr bs"
proof (induction vs)
  case (Cons v vs)
  then obtain b bs where "en_marshal E v = Inr b" "marshalEach E vs = Inr bs" unfolding marshals_def by blast
  then show ?case by (auto simp: marshal_one_def)
qed simp

section \<open>The pair of a query height\<close>

lemma BuildIndexerBlobs_parts:
  assumes "BuildIndexerBlobs E mc q = Ret (Inr bs)"
  shows "\<exists>cur. BuildIndexerBlob E mc (q - 1) = Ret (Inr cur) \<and> ibs_Current bs = Some cur"
    "2 < q \<Longrightarrow> \<exists>pb. BuildIndexerBlob E mc (q - 2) = Ret (Inr pb) \<and> ibs_Previous bs = Some pb"
proof -
  obtain r where r: "BuildIndexerBlob E mc (q - 1) = Ret r" and q: "\<not> q \<le> 1"
    using assms by (auto simp: BuildIndexerBlobs_def go_bind_eq_Ret split: if_splits)
  obtain cur where cur: "r = Inr cur" using assms r q by (cases r) (simp_all add: BuildIndexerBlobs_def)
  show c: "\<exists>cur. BuildIndexerBlob E mc (q - 1) = Ret (Inr cur) \<and> ibs_Current bs = Some cur"
  proof (cases "2 < q")
    case True
    then obtain r' where "BuildIndexerBlob E mc (q - 2) = Ret r'"
      using assms r q cur by (auto simp: BuildIndexerBlobs_def go_bind_eq_Ret)
    with assms r q cur True show ?thesis by (cases r') (auto simp: BuildIndexerBlobs_def)
  next
    case False
    with assms r q cur show ?thesis by (auto simp: BuildIndexerBlobs_def)
  qed
  assume "2 < q"
  moreover from this obtain r' where "BuildIndexerBlob E mc (q - 2) = Ret r'"
    using assms r q cur by (auto simp: BuildIndexerBlobs_def go_bind_eq_Ret)
  ultimately show "\<exists>pb. BuildIndexerBlob E mc (q - 2) = Ret (Inr pb) \<and> ibs_Previous bs = Some pb"
    using assms r q cur by (cases r') (auto simp: BuildIndexerBlobs_def)
qed

text \<open>The two blobs of a query height of the chain, or the first error of their parts.\<close>

definition query_parts :: "mock_chain \<Rightarrow> u64 \<Rightarrow> proto_value list" where
  "query_parts mc q = blob_parts mc (q - 1) @ (if 2 < q then blob_parts mc (q - 2) else [])"

lemma BuildIndexerBlobs_query:
  assumes "fair_source E" "newMockChain E n chainID opts = Ret mc" "n < 2 ^ 63" "2 \<le> unat q" "int (unat q) \<le> n + 1"
  shows "case marshalEach E (query_parts mc q) of
      Inl e \<Rightarrow> BuildIndexerBlobs E mc q = Ret (Inl e)
    | Inr _ \<Rightarrow> \<exists>cur prev. BuildIndexerBlobs E mc q = Ret (Inr \<lparr>ibs_Current = Some cur, ibs_Previous = prev\<rparr>) \<and>
        blob_matches E mc (q - 1) cur \<and>
        (case prev of None \<Rightarrow> q = 2 | Some pb \<Rightarrow> 2 < q \<and> blob_matches E mc (q - 2) pb)"
proof -
  note h = chain_heights [OF assms(2,3)]
  have known: "case marshalEach E (blob_parts mc k) of
      Inl e \<Rightarrow> BuildIndexerBlob E mc k = Ret (Inl e)
    | Inr _ \<Rightarrow> \<exists>ib. BuildIndexerBlob E mc k = Ret (Inr ib)" if "1 \<le> unat k" "int (unat k) \<le> n" for k
  proof -
    have "BlockAt mc k \<noteq> None" "stateAt mc k \<noteq> None" using h(2) [of k] h(6) [of k] that by blast+
    then obtain b s where "BlockAt mc k = Some b" "stateAt mc k = Some s" by blast
    from BuildIndexerBlob_known [OF assms(1) this] show ?thesis .
  qed
  have sub: "unat (q - 1) = unat q - 1" "unat (q - 2) = unat q - 2"
    using assms(4) by (simp_all add: unat_sub word_le_nat_alt)
  have "1 \<le> unat (q - 1)" "int (unat (q - 1)) \<le> n" using assms(4,5) sub(1) by linarith+
  note cur = known [OF this]
  have q1: "\<not> q \<le> 1" using assms(4) by (simp add: word_le_nat_alt)
  show ?thesis
  proof (cases "2 < q")
    case True
    then have "2 < unat q" by (simp add: word_less_nat_alt)
    then have "1 \<le> unat (q - 2)" "int (unat (q - 2)) \<le> n" using assms(5) sub(2) by linarith+
    note prv = known [OF this]
    show ?thesis
      using cur prv True q1
      by (cases "marshalEach E (blob_parts mc (q - 1))"; cases "marshalEach E (blob_parts mc (q - 2))")
        (auto simp: BuildIndexerBlobs_def query_parts_def marshalEach_append dest: BuildIndexerBlob_Inr)
  next
    case False
    then have "q = 2" using assms(4) by (simp add: word_le_nat_alt word_less_nat_alt word_unat_eq_iff)
    moreover have "\<not> (2 :: u64) \<le> 1" by (simp add: word_le_nat_alt)
    ultimately show ?thesis using cur
      by (cases "marshalEach E (blob_parts mc (q - 1))")
        (auto simp: BuildIndexerBlobs_def query_parts_def dest: BuildIndexerBlob_Inr)
  qed
qed

lemma BuildIndexerBlobs_unknown:
  assumes "newMockChain E n chainID opts = Ret mc" "n < 2 ^ 63"
  shows "unat q < 2 \<Longrightarrow> BuildIndexerBlobs E mc q = Ret (Inl (UnknownHeight q))"
    "2 \<le> unat q \<Longrightarrow> n + 1 < int (unat q) \<Longrightarrow> BuildIndexerBlobs E mc q = Ret (Inl (UnknownHeight (q - 1)))"
proof -
  show "BuildIndexerBlobs E mc q = Ret (Inl (UnknownHeight q))" if "unat q < 2"
  proof -
    have "q \<le> 1" using that by (simp add: word_le_nat_alt)
    then show ?thesis by (simp add: BuildIndexerBlobs_def)
  qed
  assume q: "2 \<le> unat q" "n + 1 < int (unat q)"
  then have "\<not> int (unat (q - 1)) \<le> n" by (simp add: unat_sub word_le_nat_alt)
  then have "BlockAt mc (q - 1) = None"
    using chain_heights(2) [OF assms, of "q - 1"] by (cases "BlockAt mc (q - 1)") auto
  moreover have "\<not> q \<le> 1" using q(1) by (simp add: word_le_nat_alt)
  ultimately show "BuildIndexerBlobs E mc q = Ret (Inl (UnknownHeight (q - 1)))"
    by (simp add: BuildIndexerBlobs_def BuildIndexerBlob_unknown)
qed

lemma BuildIndexerBlobs_chain:
  assumes "marshals E" "fair_source E" "newMockChain E n chainID opts = Ret mc" "n < 2 ^ 63"
  shows "2 \<le> unat q \<Longrightarrow> int (unat q) \<le> n + 1 \<Longrightarrow>
      \<exists>cur prev. BuildIndexerBlobs E mc q = Ret (Inr \<lparr>ibs_Current = Some cur, ibs_Previous = prev\<rparr>) \<and>
        blob_matches E mc (q - 1) cur \<and>
        (case prev of None \<Rightarrow> q = 2 | Some pb \<Rightarrow> 2 < q \<and> blob_matches E mc (q - 2) pb)"
    "unat q < 2 \<or> n + 1 < int (unat q) \<Longrightarrow> \<exists>h. BuildIndexerBlobs E mc q = Ret (Inl (UnknownHeight h))"
proof -
  obtain bs where "marshalEach E (query_parts mc q) = Inr bs" using marshalEach_total [OF assms(1)] by blast
  then show "\<exists>cur prev. BuildIndexerBlobs E mc q = Ret (Inr \<lparr>ibs_Current = Some cur, ibs_Previous = prev\<rparr>) \<and>
        blob_matches E mc (q - 1) cur \<and>
        (case prev of None \<Rightarrow> q = 2 | Some pb \<Rightarrow> 2 < q \<and> blob_matches E mc (q - 2) pb)"
    if "2 \<le> unat q" "int (unat q) \<le> n + 1"
    using BuildIndexerBlobs_query [OF assms(2-4) that] by simp
  show "\<exists>h. BuildIndexerBlobs E mc q = Ret (Inl (UnknownHeight h))" if "unat q < 2 \<or> n + 1 < int (unat q)"
    using BuildIndexerBlobs_unknown [OF assms(3,4), of q] that by (cases "unat q < 2") auto
qed

end
