(* ===== verification/Rpc.thy ===== *)
theory Rpc
  imports IndexerBlob
begin

text \<open>
  \<open>internal/rpc/server_routes.go\<close>: request decoding, pagination, and one definition per
  route handler. A handler maps the chain and a request to a response (status and payload)
  or to a panic, which the HTTP server turns into a dropped connection. Payloads are the
  values handed to the JSON encoder.
\<close>

section \<open>Requests and responses\<close>

record http_request =
  rq_method :: string
  rq_query :: "(string \<times> string list) list"   \<comment> \<open>\<open>r.URL.Query()\<close>\<close>
  rq_body :: bytes
  rq_body_err :: bool                            \<comment> \<open>reading the body fails\<close>
  rq_contentLength :: int

datatype page_kind = TxPage | EventPage | AccountPage | PoolPage | ValidatorPage

datatype page_results =
    RTxs "tx_result list" | REvents "event list" | RAccounts "account list" | RPools "pool list"
  | RValidators "validator list"

record page =
  pg_PageNumber :: int
  pg_PerPage :: int
  pg_Results :: page_results
  pg_Type :: string
  pg_Count :: int
  pg_TotalPages :: int
  pg_TotalCount :: int

datatype simple_results = SNonSigners "non_signer list option" | SDoubleSigners "double_signer list option"

record simplePageResp =
  sp_PageNumber :: int
  sp_PerPage :: int
  sp_Results :: simple_results
  sp_Count :: int
  sp_TotalPages :: int
  sp_TotalCount :: int

datatype payload =
    PlHeight u64 | PlBlock block_result | PlCert quorum_certificate | PlState genesis_state | PlPage page
  | PlOrderBooks order_books | PlDexPrices "dex_price list" | PlDexBatches "dex_batch list"
  | PlParams params | PlFee fee_params | PlConsensus consensus_params | PlValidatorParams validator_params
  | PlGovernance u64 | PlSupply supply_info | PlSimplePage simplePageResp | PlCommittees committees_data
  | PlIds "u64 list" | PlPoll "(string, poll_result) gomap" | PlProposals "(string, proposal) gomap"

text \<open>
  The answers: \<open>writeJSON\<close>, \<open>http.Error\<close>, the marshalled blobs, and a redirect of the
  multiplexer with its status, its \<open>Location\<close> and, for \<open>GET\<close> and \<open>HEAD\<close>, a page.
\<close>

datatype response =
    JsonResp int payload | ErrorResp int string | ProtoResp int bytes | RedirectResp int string "bytes option"

text \<open>
  Of \<open>http.Redirect\<close> three things are fields: the status with which the multiplexer redirects
  (301 or 307, by the version of Go), the text of the \<open>Location\<close> for a path and a request, which
  keeps the request's query, and the page that links to a location.
  The page types are Canopy's: their names, and \<open>Len()\<close>, which \<open>buildPage\<close> calls when the
  type has it (\<open>None\<close> when not). The JSON grammar is a field too, and the encoder: the indented
  text of a payload with its final newline, \<open>None\<close> for an error.
\<close>

record rpc_env = env +
  en_json_parse :: "bytes \<Rightarrow> json option"
  en_page_name :: "page_kind \<Rightarrow> string"
  en_page_len :: "page_results \<Rightarrow> int option"
  en_json_encode :: "payload \<Rightarrow> bytes option"
  en_redirect_code :: int
  en_redirect_location :: "string \<Rightarrow> http_request \<Rightarrow> string"
  en_redirect_page :: "string \<Rightarrow> bytes"

section \<open>Decoding\<close>

definition query_get :: "http_request \<Rightarrow> string \<Rightarrow> string" where
  "query_get r key = (case map_of (rq_query r) key of Some (v # _) \<Rightarrow> v | _ \<Rightarrow> '''')"

definition is_space :: "8 word \<Rightarrow> bool" where
  "is_space b \<longleftrightarrow> b \<in> {9, 10, 11, 12, 13, 32}"

text \<open>\<open>decodeBody\<close>, for a target of type \<open>'r\<close> with its field decoder.\<close>

definition decodeBody :: "'a rpc_env_scheme \<Rightarrow> http_request \<Rightarrow> (string \<times> json \<Rightarrow> 'r \<Rightarrow> 'r) \<Rightarrow> 'r \<Rightarrow> 'r" where
  "decodeBody E r field target =
     (let raw = take (2 ^ 20) (rq_body r) in
      if rq_body_err r \<or> list_all is_space raw then target
      else case en_json_parse E raw of None \<Rightarrow> target | Some v \<Rightarrow> decode_members field v target)"

record heightPageRequest =
  hp_Height :: u64
  hp_PageNumber :: int
  hp_PerPage :: int

record dexRequest =
  dx_Height :: u64
  dx_ID :: u64
  dx_Points :: bool

definition height_field :: "string \<times> json \<Rightarrow> u64 \<Rightarrow> u64" where
  "height_field kv h = (case kv of (k, v) \<Rightarrow> if key_matches ''height'' k then decode_u64 v h else h)"

definition page_field :: "string \<times> json \<Rightarrow> heightPageRequest \<Rightarrow> heightPageRequest" where
  "page_field kv q = (case kv of (k, v) \<Rightarrow>
     if key_matches ''height'' k then q\<lparr>hp_Height := decode_u64 v (hp_Height q)\<rparr>
     else if key_matches ''pageNumber'' k then q\<lparr>hp_PageNumber := decode_int v (hp_PageNumber q)\<rparr>
     else if key_matches ''perPage'' k then q\<lparr>hp_PerPage := decode_int v (hp_PerPage q)\<rparr>
     else q)"

definition id_height_field :: "string \<times> json \<Rightarrow> u64 \<times> u64 \<Rightarrow> u64 \<times> u64" where
  "id_height_field kv q = (case (kv, q) of ((k, v), (h, i)) \<Rightarrow>
     if key_matches ''height'' k then (decode_u64 v h, i)
     else if key_matches ''id'' k then (h, decode_u64 v i) else (h, i))"

definition dex_field :: "string \<times> json \<Rightarrow> dexRequest \<Rightarrow> dexRequest" where
  "dex_field kv q = (case kv of (k, v) \<Rightarrow>
     if key_matches ''height'' k then q\<lparr>dx_Height := decode_u64 v (dx_Height q)\<rparr>
     else if key_matches ''id'' k then q\<lparr>dx_ID := decode_u64 v (dx_ID q)\<rparr>
     else if key_matches ''points'' k then q\<lparr>dx_Points := decode_bool v (dx_Points q)\<rparr>
     else q)"

definition blobs_field :: "string \<times> json \<Rightarrow> u64 \<times> bool \<Rightarrow> u64 \<times> bool" where
  "blobs_field kv q = (case (kv, q) of ((k, v), (h, d)) \<Rightarrow>
     if key_matches ''height'' k then (decode_u64 v h, d)
     else if key_matches ''delta'' k then (h, decode_bool v d) else (h, d))"

definition parseHeightReq :: "'a rpc_env_scheme \<Rightarrow> http_request \<Rightarrow> u64" where
  "parseHeightReq E r =
     (let qs = query_get r ''height'' in
      case (if qs \<noteq> '''' then parse_uint64 qs else None) of
        Some h \<Rightarrow> h
      | None \<Rightarrow> decodeBody E r height_field 0)"

definition decode_page :: "'a rpc_env_scheme \<Rightarrow> http_request \<Rightarrow> heightPageRequest" where
  "decode_page E r = decodeBody E r page_field \<lparr>hp_Height = 0, hp_PageNumber = 0, hp_PerPage = 0\<rparr>"

definition or_latest :: "mock_chain \<Rightarrow> u64 \<Rightarrow> u64" where
  "or_latest mc h = (if h = 0 then LatestHeight mc else h)"

section \<open>Pages\<close>

definition paginate :: "'x list \<Rightarrow> int \<Rightarrow> int \<Rightarrow> ('x list \<times> (int \<times> int) \<times> int) go" where
  "paginate items pageNumber perPage =
     (let perPage = (if perPage = 0 then 10 else perPage);
          perPage = (if perPage > 5000 then 5000 else perPage);
          pageNumber = (if pageNumber \<le> 0 then 1 else pageNumber);
          tot = int (length items);
          start = wrap64 (wrap64 (pageNumber - 1) * perPage);
          start = (if start > tot then tot else start);
          stop = wrap64 (start + perPage);
          stop = (if stop > tot then tot else stop)
      in go_bind (go_slice items start stop) (\<lambda>xs. Ret (xs, (pageNumber, perPage), tot)))"

definition int_of_f64 :: "'a platform_scheme \<Rightarrow> f64 \<Rightarrow> int" where
  "int_of_f64 E a =
     (case a of Fin x \<Rightarrow> let n = (if 0 \<le> x then \<lfloor>x\<rfloor> else \<lceil>x\<rceil>) in if in_i64 n then n else sint (pl_conv E a)
      | _ \<Rightarrow> sint (pl_conv E a))"

definition buildPage :: "'a rpc_env_scheme \<Rightarrow> page_results \<Rightarrow> int \<times> int \<Rightarrow> string \<Rightarrow> int \<Rightarrow> page" where
  "buildPage E results params typeName tot =
     (case params of (pageNumber, perPage) \<Rightarrow>
      let count = (case en_page_len E results of Some n \<Rightarrow> n | None \<Rightarrow> 0);
          totalPages = (if perPage > 0
            then int_of_f64 E (fceil (fdiv (f64_of_int tot) (f64_of_int perPage))) else 0)
      in \<lparr>pg_PageNumber = pageNumber, pg_PerPage = perPage, pg_Results = results, pg_Type = typeName,
          pg_Count = count, pg_TotalPages = totalPages, pg_TotalCount = tot\<rparr>)"

definition serve_page ::
  "'a rpc_env_scheme \<Rightarrow> page_kind \<Rightarrow> ('x list \<Rightarrow> page_results) \<Rightarrow> heightPageRequest \<Rightarrow> 'x list \<Rightarrow> response go" where
  "serve_page E kind wrap q items =
     go_bind (paginate items (hp_PageNumber q) (hp_PerPage q)) (\<lambda>(pageItems, params, tot).
       Ret (JsonResp 200 (PlPage (buildPage E (wrap pageItems) params (en_page_name E kind) tot))))"

definition normalizeOrderBooks :: "order_books \<Rightarrow> order_books" where
  "normalizeOrderBooks src =
     \<lparr>obs_OrderBooks = map (\<lambda>book. Some \<lparr>ob_ChainId = ob_ChainId book,
         ob_Orders = map (\<lambda>order. Some (order\<lparr>so_Committee := ob_ChainId book\<rparr>)) (List.map_filter id (ob_Orders book))\<rparr>)
       (List.map_filter id (obs_OrderBooks src))\<rparr>"

section \<open>Handlers\<close>

definition not_found :: response where
  "not_found = ErrorResp 404 ''unknown height''"

definition found :: "('x \<Rightarrow> payload) \<Rightarrow> 'x option \<Rightarrow> response go" where
  "found f v = Ret (case v of None \<Rightarrow> not_found | Some x \<Rightarrow> JsonResp 200 (f x))"

definition handle_head :: "'a rpc_env_scheme \<Rightarrow> mock_chain \<Rightarrow> http_request \<Rightarrow> response go" where
  "handle_head E mc r = Ret (JsonResp 200 (PlHeight (LatestHeight mc)))"

definition handle_block :: "'a rpc_env_scheme \<Rightarrow> mock_chain \<Rightarrow> http_request \<Rightarrow> response go" where
  "handle_block E mc r = found PlBlock (BlockAt mc (or_latest mc (parseHeightReq E r)))"

definition handle_cert :: "'a rpc_env_scheme \<Rightarrow> mock_chain \<Rightarrow> http_request \<Rightarrow> response go" where
  "handle_cert E mc r = found PlCert (CertAt mc (or_latest mc (parseHeightReq E r)))"

definition handle_state :: "'a rpc_env_scheme \<Rightarrow> mock_chain \<Rightarrow> http_request \<Rightarrow> response go" where
  "handle_state E mc r =
     (let h = parseHeightReq E r;
          h = (if h = 0 \<and> query_get r ''height'' = '''' \<and> rq_contentLength r = 0 then LatestHeight mc else h)
      in found PlState (StateAt mc h))"

definition handle_txs :: "'a rpc_env_scheme \<Rightarrow> mock_chain \<Rightarrow> http_request \<Rightarrow> response go" where
  "handle_txs E mc r =
     (let q = decode_page E r in serve_page E TxPage RTxs q (TxsAt mc (or_latest mc (hp_Height q))))"

definition handle_events :: "'a rpc_env_scheme \<Rightarrow> mock_chain \<Rightarrow> http_request \<Rightarrow> response go" where
  "handle_events E mc r =
     (let q = decode_page E r in serve_page E EventPage REvents q (EventsAt mc (or_latest mc (hp_Height q))))"

definition handle_accounts :: "'a rpc_env_scheme \<Rightarrow> mock_chain \<Rightarrow> http_request \<Rightarrow> response go" where
  "handle_accounts E mc r =
     (let q = decode_page E r in
      case StateAt mc (or_latest mc (hp_Height q)) of None \<Rightarrow> Ret not_found
      | Some state \<Rightarrow> serve_page E AccountPage RAccounts q (gs_Accounts state))"

definition handle_orders :: "'a rpc_env_scheme \<Rightarrow> mock_chain \<Rightarrow> http_request \<Rightarrow> response go" where
  "handle_orders E mc r =
     (case decodeBody E r id_height_field (0, 0) of (h, ident) \<Rightarrow>
      case StateAt mc (or_latest mc h) of None \<Rightarrow> Ret not_found
      | Some state \<Rightarrow>
        let target = normalizeOrderBooks (gs_OrderBooks state) in
        if ident = 0 then Ret (JsonResp 200 (PlOrderBooks target))
        else case List.find (\<lambda>b. ob_ChainId b = ident) (List.map_filter id (obs_OrderBooks target)) of
          Some book \<Rightarrow> Ret (JsonResp 200 (PlOrderBooks \<lparr>obs_OrderBooks = [Some book]\<rparr>))
        | None \<Rightarrow> Ret (ErrorResp 404 ''order book not found''))"

definition handle_pools :: "'a rpc_env_scheme \<Rightarrow> mock_chain \<Rightarrow> http_request \<Rightarrow> response go" where
  "handle_pools E mc r =
     (let q = decode_page E r in
      case StateAt mc (or_latest mc (hp_Height q)) of None \<Rightarrow> Ret not_found
      | Some state \<Rightarrow> serve_page E PoolPage RPools q (gs_Pools state))"

definition handle_dexPrice :: "'a rpc_env_scheme \<Rightarrow> mock_chain \<Rightarrow> http_request \<Rightarrow> response go" where
  "handle_dexPrice E mc r =
     (case decodeBody E r id_height_field (0, 0) of (h, ident) \<Rightarrow>
      case DexPricesAt E mc h of None \<Rightarrow> Ret not_found
      | Some prices \<Rightarrow>
        Ret (JsonResp 200 (PlDexPrices
          (if ident = 0 then prices else filter (\<lambda>p. dp_LocalChainId p = ident) prices))))"

definition serve_batch ::
  "(mock_chain \<Rightarrow> u64 \<Rightarrow> dex_batch option) \<Rightarrow> mock_chain \<Rightarrow> dexRequest \<Rightarrow> response go" where
  "serve_batch batchAt mc q =
     (if dx_ID q \<noteq> 0 \<and> dx_ID q \<noteq> ChainID mc then Ret (ErrorResp 404 ''unknown committee'')
      else found (\<lambda>b. PlDexBatches [b]) (batchAt mc (or_latest mc (dx_Height q))))"

definition decode_dex :: "'a rpc_env_scheme \<Rightarrow> http_request \<Rightarrow> dexRequest" where
  "decode_dex E r = decodeBody E r dex_field \<lparr>dx_Height = 0, dx_ID = 0, dx_Points = False\<rparr>"

definition handle_dexBatch :: "'a rpc_env_scheme \<Rightarrow> mock_chain \<Rightarrow> http_request \<Rightarrow> response go" where
  "handle_dexBatch E mc r = serve_batch DexBatchAt mc (decode_dex E r)"

definition handle_nextDexBatch :: "'a rpc_env_scheme \<Rightarrow> mock_chain \<Rightarrow> http_request \<Rightarrow> response go" where
  "handle_nextDexBatch E mc r = serve_batch NextDexBatchAt mc (decode_dex E r)"

definition handle_allParams :: "'a rpc_env_scheme \<Rightarrow> mock_chain \<Rightarrow> http_request \<Rightarrow> response go" where
  "handle_allParams E mc r = Ret (JsonResp 200 (PlParams (Params mc)))"

definition handle_feeParams :: "'a rpc_env_scheme \<Rightarrow> mock_chain \<Rightarrow> http_request \<Rightarrow> response go" where
  "handle_feeParams E mc r = Ret (JsonResp 200 (PlFee (pa_Fee (Params mc))))"

definition handle_conParams :: "'a rpc_env_scheme \<Rightarrow> mock_chain \<Rightarrow> http_request \<Rightarrow> response go" where
  "handle_conParams E mc r = Ret (JsonResp 200 (PlConsensus (pa_Consensus (Params mc))))"

definition handle_valParams :: "'a rpc_env_scheme \<Rightarrow> mock_chain \<Rightarrow> http_request \<Rightarrow> response go" where
  "handle_valParams E mc r = Ret (JsonResp 200 (PlValidatorParams (pa_Validator (Params mc))))"

definition handle_govParams :: "'a rpc_env_scheme \<Rightarrow> mock_chain \<Rightarrow> http_request \<Rightarrow> response go" where
  "handle_govParams E mc r = Ret (JsonResp 200 (PlGovernance (pa_DaoRewardPercentage (Params mc))))"

definition handle_supply :: "'a rpc_env_scheme \<Rightarrow> mock_chain \<Rightarrow> http_request \<Rightarrow> response go" where
  "handle_supply E mc r = found PlSupply (SupplyAt mc (or_latest mc (parseHeightReq E r)))"

definition handle_validators :: "'a rpc_env_scheme \<Rightarrow> mock_chain \<Rightarrow> http_request \<Rightarrow> response go" where
  "handle_validators E mc r =
     (let q = decode_page E r in
      case StateAt mc (or_latest mc (hp_Height q)) of None \<Rightarrow> Ret not_found
      | Some state \<Rightarrow> serve_page E ValidatorPage RValidators q (gs_Validators state))"

definition simple_page :: "simple_results \<Rightarrow> nat \<Rightarrow> response go" where
  "simple_page results n =
     Ret (JsonResp 200 (PlSimplePage \<lparr>sp_PageNumber = 1, sp_PerPage = 100, sp_Results = results,
       sp_Count = int n, sp_TotalPages = 1, sp_TotalCount = int n\<rparr>))"

definition handle_nonSigners :: "'a rpc_env_scheme \<Rightarrow> mock_chain \<Rightarrow> http_request \<Rightarrow> response go" where
  "handle_nonSigners E mc r =
     (let results = NonSigners mc (or_latest mc (parseHeightReq E r)) in
      simple_page (SNonSigners results) (opt_len results))"

definition handle_doubleSigners :: "'a rpc_env_scheme \<Rightarrow> mock_chain \<Rightarrow> http_request \<Rightarrow> response go" where
  "handle_doubleSigners E mc r =
     (let results = DoubleSigners mc (or_latest mc (parseHeightReq E r)) in
      simple_page (SDoubleSigners results) (opt_len results))"

definition handle_committees :: "'a rpc_env_scheme \<Rightarrow> mock_chain \<Rightarrow> http_request \<Rightarrow> response go" where
  "handle_committees E mc r =
     Ret (JsonResp 200 (PlCommittees
       (case StateAt mc (LatestHeight mc) of Some state \<Rightarrow> gs_Committees state | None \<Rightarrow> Committees mc)))"

definition handle_subsidized :: "'a rpc_env_scheme \<Rightarrow> mock_chain \<Rightarrow> http_request \<Rightarrow> response go" where
  "handle_subsidized E mc r = Ret (JsonResp 200 (PlIds (SubsidizedCommittees mc)))"

definition handle_retired :: "'a rpc_env_scheme \<Rightarrow> mock_chain \<Rightarrow> http_request \<Rightarrow> response go" where
  "handle_retired E mc r =
     Ret (JsonResp 200 (PlIds
       (case StateAt mc (LatestHeight mc) of
          Some state \<Rightarrow> if gs_RetiredCommittees state \<noteq> [] then gs_RetiredCommittees state else RetiredCommittees mc
        | None \<Rightarrow> RetiredCommittees mc)))"

definition handle_poll :: "'a rpc_env_scheme \<Rightarrow> mock_chain \<Rightarrow> http_request \<Rightarrow> response go" where
  "handle_poll E mc r = Ret (JsonResp 200 (PlPoll (Poll mc)))"

definition handle_proposals :: "'a rpc_env_scheme \<Rightarrow> mock_chain \<Rightarrow> http_request \<Rightarrow> response go" where
  "handle_proposals E mc r = Ret (JsonResp 200 (PlProposals (Proposals mc)))"

definition handle_indexerBlobs :: "'a rpc_env_scheme \<Rightarrow> mock_chain \<Rightarrow> http_request \<Rightarrow> response go" where
  "handle_indexerBlobs E mc r =
     (case decodeBody E r blobs_field (0, False) of (h, delta) \<Rightarrow>
      go_bind (BuildIndexerBlobs E mc (or_latest mc h)) (\<lambda>blobs. Ret (case blobs of
        Inl e \<Rightarrow> ErrorResp (if is_unknown_height e then 404 else 500) (error_text e)
      | Inr bs \<Rightarrow> (case en_delta_blobs E bs of
            Inl derr \<Rightarrow> ErrorResp 500 derr
          | Inr deltaBlobs \<Rightarrow> (case en_marshal E (PBlobs deltaBlobs) of
                Inl merr \<Rightarrow> ErrorResp 500 merr
              | Inr bz \<Rightarrow> ProtoResp 200 bz)))))"

section \<open>Routes\<close>

definition routes ::
  "'a rpc_env_scheme \<Rightarrow> (string \<times> (mock_chain \<Rightarrow> http_request \<Rightarrow> response go)) list" where
  "routes E =
     [(''/v1/query/height'', handle_head E),
      (''/v1/query/block-by-height'', handle_block E),
      (''/v1/query/cert-by-height'', handle_cert E),
      (''/v1/query/state'', handle_state E),
      (''/v1/query/txs-by-height'', handle_txs E),
      (''/v1/query/events-by-height'', handle_events E),
      (''/v1/query/accounts'', handle_accounts E),
      (''/v1/query/orders'', handle_orders E),
      (''/v1/query/pools'', handle_pools E),
      (''/v1/query/dex-price'', handle_dexPrice E),
      (''/v1/query/dex-batch'', handle_dexBatch E),
      (''/v1/query/next-dex-batch'', handle_nextDexBatch E),
      (''/v1/query/params'', handle_allParams E),
      (''/v1/query/fee-params'', handle_feeParams E),
      (''/v1/query/con-params'', handle_conParams E),
      (''/v1/query/val-params'', handle_valParams E),
      (''/v1/query/gov-params'', handle_govParams E),
      (''/v1/query/supply'', handle_supply E),
      (''/v1/query/validators'', handle_validators E),
      (''/v1/query/non-signers'', handle_nonSigners E),
      (''/v1/query/double-signers'', handle_doubleSigners E),
      (''/v1/query/committees-data'', handle_committees E),
      (''/v1/query/subsidized-committees'', handle_subsidized E),
      (''/v1/query/retired-committees'', handle_retired E),
      (''/v1/gov/poll'', handle_poll E),
      (''/v1/gov/proposals'', handle_proposals E),
      (''/v1/query/indexer-blobs'', handle_indexerBlobs E)]"

section \<open>The multiplexer\<close>

text \<open>
  \<open>http.ServeMux\<close> on the escaped path of a request. A path that is not clean is redirected to
  its clean form before any handler is looked up, except for \<open>CONNECT\<close>; a clean one is
  matched segment by segment, each segment unescaped. All patterns are literal, none ends
  in a slash and none names a method or a host. The request for \<open>*\<close> has no path and is
  turned away before this point.
\<close>

fun split_slash :: "string \<Rightarrow> string list" where
  "split_slash [] = ['''']"
| "split_slash (c # cs) =
     (if c = CHR ''/'' then [] # split_slash cs
      else case split_slash cs of [] \<Rightarrow> [c # ''''] | s # ss \<Rightarrow> (c # s) # ss)"

text \<open>The elements of a rooted path after \<open>path.Clean\<close>, with those already kept in reverse.\<close>

fun clean_elems :: "string list \<Rightarrow> string list \<Rightarrow> string list" where
  "clean_elems [] kept = rev kept"
| "clean_elems (e # es) kept =
     (if e = '''' \<or> e = ''.'' then clean_elems es kept
      else if e = ''..'' then clean_elems es (tl kept)
      else clean_elems es (e # kept))"

definition path_Clean :: "string \<Rightarrow> string" where
  "path_Clean p =
     (case clean_elems (split_slash p) [] of [] \<Rightarrow> ''/'' | es \<Rightarrow> concat (map (\<lambda>e. CHR ''/'' # e) es))"

definition cleanPath :: "string \<Rightarrow> string" where
  "cleanPath p =
     (let p = (if p = '''' \<or> hd p \<noteq> CHR ''/'' then CHR ''/'' # p else p); np = path_Clean p
      in if last p = CHR ''/'' \<and> np \<noteq> ''/'' then np @ ''/'' else np)"

fun path_unescape :: "string \<Rightarrow> string option" where
  "path_unescape [] = Some []"
| "path_unescape (c # cs) =
     (if c = CHR ''%''
      then (case cs of
          a # b # rest \<Rightarrow>
            (case hex_decode [a, b] of
               Some [x] \<Rightarrow> map_option (\<lambda>s. char_of (unat x) # s) (path_unescape rest)
             | _ \<Rightarrow> None)
        | _ \<Rightarrow> None)
      else map_option (\<lambda>s. c # s) (path_unescape cs))"

definition segment_unescape :: "string \<Rightarrow> string" where
  "segment_unescape s = (case path_unescape s of Some t \<Rightarrow> t | None \<Rightarrow> s)"

text \<open>The segments of a rooted path; a final slash is a segment of its own.\<close>

function path_segments :: "string \<Rightarrow> string list" where
  "path_segments p =
     (if p = '''' then [] else if p = ''/'' then [''/'']
      else segment_unescape (takeWhile (\<lambda>c. c \<noteq> CHR ''/'') (tl p)) #
        path_segments (dropWhile (\<lambda>c. c \<noteq> CHR ''/'') (tl p)))"
  by pat_completeness auto

termination path_segments
proof (relation "measure length")
  fix p :: string
  assume "p \<noteq> ''''"
  then have "length (tl p) < length p" by (cases p) simp_all
  then have "length (dropWhile (\<lambda>c. c \<noteq> CHR ''/'') (tl p)) < length p"
    using length_dropWhile_le [of "\<lambda>c. c \<noteq> CHR ''/''" "tl p"] by (rule order_le_less_trans [rotated])
  then show "(dropWhile (\<lambda>c. c \<noteq> CHR ''/'') (tl p), p) \<in> measure length" by simp
qed simp

declare path_segments.simps [simp del]

definition mux_handler ::
  "'a rpc_env_scheme \<Rightarrow> string \<Rightarrow> (mock_chain \<Rightarrow> http_request \<Rightarrow> response go) option" where
  "mux_handler E path =
     map_option snd (List.find (\<lambda>(pattern, h). path_segments pattern = path_segments path) (routes E))"

definition mux_redirect :: "'a rpc_env_scheme \<Rightarrow> string \<Rightarrow> http_request \<Rightarrow> response" where
  "mux_redirect E path r =
     (let location = en_redirect_location E path r in
      RedirectResp (en_redirect_code E) location
        (if rq_method r = ''GET'' then Some (en_redirect_page E location)
         else if rq_method r = ''HEAD'' then Some [] else None))"

definition serve :: "'a rpc_env_scheme \<Rightarrow> mock_chain \<Rightarrow> string \<Rightarrow> http_request \<Rightarrow> response go" where
  "serve E mc path r =
     (if rq_method r \<noteq> ''CONNECT'' \<and> cleanPath path \<noteq> path
      then Ret (mux_redirect E (cleanPath path) r)
      else case mux_handler E path of
          Some h \<Rightarrow> h mc r
        | None \<Rightarrow> Ret (ErrorResp 404 ''404 page not found''))"

text \<open>The path of every route is clean and its segments are its own, so it reaches its handler.\<close>

lemma route_paths:
  "list_all (\<lambda>p. cleanPath p = p) (map fst (routes E))"
  "map path_segments (map fst (routes E)) = map (\<lambda>p. tl (split_slash p)) (map fst (routes E))"
  "distinct (map (\<lambda>p. tl (split_slash p)) (map fst (routes E)))"
  unfolding routes_def list.map fst_conv by code_simp+

lemma find_distinct:
  "distinct (map (\<lambda>x. f (fst x)) xs) \<Longrightarrow> (p, h) \<in> set xs \<Longrightarrow> List.find (\<lambda>(q, g). f q = f p) xs = Some (p, h)"
  by (induction xs) (auto simp: image_iff)

lemma serve_route:
  assumes "(path, h) \<in> set (routes E)"
  shows "serve E mc path r = h mc r"
proof -
  have "cleanPath path = path" using assms route_paths(1) [of E] by (force simp: list_all_iff)
  moreover have "distinct (map (\<lambda>x. path_segments (fst x)) (routes E))"
    using route_paths(3) [of E] unfolding route_paths(2) [of E, symmetric] by (simp add: o_def)
  from find_distinct [OF this assms] have "mux_handler E path = Some h" by (simp add: mux_handler_def)
  ultimately show ?thesis by (simp add: serve_def)
qed

text \<open>The three outcomes of the multiplexer.\<close>

lemma serve_cases:
  obtains (redirect) "serve E mc path r = Ret (mux_redirect E (cleanPath path) r)"
    "rq_method r \<noteq> ''CONNECT'' \<and> cleanPath path \<noteq> path"
  | (handler) h where "serve E mc path r = h mc r" "h \<in> snd ` set (routes E)"
    "\<not> (rq_method r \<noteq> ''CONNECT'' \<and> cleanPath path \<noteq> path)"
  | (unknown) "serve E mc path r = Ret (ErrorResp 404 ''404 page not found'')"
    "\<not> (rq_method r \<noteq> ''CONNECT'' \<and> cleanPath path \<noteq> path)"
proof (cases "rq_method r \<noteq> ''CONNECT'' \<and> cleanPath path \<noteq> path")
  case True
  then show ?thesis by (intro redirect) (simp_all add: serve_def)
next
  case False
  then have s: "serve E mc path r = (case mux_handler E path of
      Some h \<Rightarrow> h mc r | None \<Rightarrow> Ret (ErrorResp 404 ''404 page not found''))"
    by (auto simp: serve_def)
  show ?thesis
  proof (cases "mux_handler E path")
    case None
    with s False show ?thesis by (intro unknown) simp_all
  next
    case (Some h)
    then obtain x where x: "List.find (\<lambda>(q, g). path_segments q = path_segments path) (routes E) = Some x" "h = snd x"
      by (auto simp: mux_handler_def)
    then have "x \<in> set (routes E)" by (auto simp: find_Some_iff in_set_conv_nth)
    then have "h \<in> snd ` set (routes E)" using x(2) by simp
    with s Some False show ?thesis by (intro handler [of h]) simp_all
  qed
qed

lemma serve_unmatched:
  assumes "\<not> (rq_method r \<noteq> ''CONNECT'' \<and> cleanPath path \<noteq> path)" "path_segments path \<notin> path_segments ` fst ` set (routes E)"
  shows "serve E mc path r = Ret (ErrorResp 404 ''404 page not found'')"
proof -
  have "mux_handler E path = None" using assms(2) by (force simp: mux_handler_def find_None_iff image_iff)
  then show ?thesis unfolding serve_def if_not_P [OF assms(1)] by simp
qed

end
