(* ===== verification/RpcProps.thy ===== *)
theory RpcProps
  imports Rpc
begin

text \<open>
  What clients of the RPC layer get: exact pages that partition the list, the page count,
  the panic of every negative page size, and the status of every route on a prebuilt chain. The
  five paged routes share one contract, stated as a locale and interpreted on each.
\<close>

section \<open>Pagination\<close>

definition eff_perPage :: "int \<Rightarrow> int" where
  "eff_perPage n = (if n = 0 then 10 else min n 5000)"

definition eff_pageNumber :: "int \<Rightarrow> int" where
  "eff_pageNumber n = max n 1"

lemma eff_perPage_bounds: "0 \<le> n \<Longrightarrow> 1 \<le> eff_perPage n \<and> eff_perPage n \<le> 5000"
  by (simp add: eff_perPage_def)

lemma paginate_start:
  assumes "1 \<le> pn" "pn \<le> 2 ^ 40" "1 \<le> pp" "pp \<le> 5000" "0 \<le> t" "t < 2 ^ 62"
  shows "wrap64 (wrap64 (pn - 1) * pp) = (pn - 1) * pp" "0 \<le> (pn - 1) * pp"
    "wrap64 (min ((pn - 1) * pp) t + pp) = min ((pn - 1) * pp) t + pp"
proof -
  have "(pn - 1) * pp \<le> 2 ^ 40 * 5000" using assms by (intro mult_mono) auto
  moreover show n: "0 \<le> (pn - 1) * pp" using assms by simp
  ultimately have "in_i64 ((pn - 1) * pp)" by (simp add: in_i64_def)
  moreover have "in_i64 (pn - 1)" using assms by (simp add: in_i64_def)
  ultimately show "wrap64 (wrap64 (pn - 1) * pp) = (pn - 1) * pp" by simp
  have "in_i64 (min q t + pp)" if "0 \<le> q" for q
    using that assms by (auto simp: in_i64_def min_def)
  from this [OF n] show "wrap64 (min ((pn - 1) * pp) t + pp) = min ((pn - 1) * pp) t + pp" by simp
qed

lemma take_min_length: "take (min a (length l)) l = take a l"
  by (cases "a \<le> length l") (simp_all add: min_absorb1 min_absorb2)

lemma window_eq:
  assumes "0 \<le> q" "1 \<le> pp"
  shows "take (nat (min (min q (int (length xs)) + pp) (int (length xs))) - nat (min q (int (length xs))))
      (drop (nat (min q (int (length xs)))) xs) = take (nat pp) (drop (nat q) xs)"
proof (cases "q \<le> int (length xs)")
  case True
  then have m: "min q (int (length xs)) = q" by simp
  have "nat (min (q + pp) (int (length xs))) - nat q = min (nat pp) (length (drop (nat q) xs))"
    using True assms by (simp add: min_def) linarith
  then show ?thesis unfolding m by (simp only: take_min_length)
next
  case False
  then have "length xs \<le> nat q" "min q (int (length xs)) = int (length xs)" by simp_all
  then show ?thesis by simp
qed

lemma paginate_eq:
  assumes "0 \<le> perPage" "pageNumber \<le> 2 ^ 40" "length items < 2 ^ 62"
  shows "paginate items pageNumber perPage =
    Ret (take (nat (eff_perPage perPage)) (drop (nat ((eff_pageNumber pageNumber - 1) * eff_perPage perPage)) items),
         (eff_pageNumber pageNumber, eff_perPage perPage), int (length items))"
proof -
  let ?pn = "eff_pageNumber pageNumber" and ?pp = "eff_perPage perPage" and ?t = "int (length items)"
  have pn: "1 \<le> ?pn" "?pn \<le> 2 ^ 40" using assms(2) by (auto simp: eff_pageNumber_def)
  have t: "0 \<le> ?t" "?t < 2 ^ 62" using assms(3) by simp_all
  note pp = eff_perPage_bounds [OF assms(1)]
  note w = paginate_start [OF pn conjunct1 [OF pp] conjunct2 [OF pp] t]
  let ?s = "min ((?pn - 1) * ?pp) ?t"
  have e: "paginate items pageNumber perPage =
      go_bind (go_slice items ?s (min (?s + ?pp) ?t)) (\<lambda>xs. Ret (xs, (?pn, ?pp), ?t))"
  proof -
    have "(if pageNumber \<le> 0 then 1 else pageNumber) = ?pn" by (auto simp: eff_pageNumber_def)
    moreover have "(if (if perPage = 0 then 10 else perPage) > 5000 then 5000 else (if perPage = 0 then 10 else perPage)) = ?pp"
      by (auto simp: eff_perPage_def)
    moreover have "(if x > ?t then ?t else x) = min x ?t" for x by simp
    ultimately show ?thesis by (simp only: paginate_def Let_def w)
  qed
  have b: "0 \<le> ?s" "?s \<le> min (?s + ?pp) ?t" "min (?s + ?pp) ?t \<le> ?t" using w(2) pp t by auto
  have "take (nat (min (?s + ?pp) ?t) - nat ?s) (drop (nat ?s) items) =
      take (nat ?pp) (drop (nat ((?pn - 1) * ?pp)) items)"
    using w(2) pp by (intro window_eq) simp_all
  with b show ?thesis unfolding e by (simp add: go_slice_def)
qed

text \<open>The pages, one after the other, are the whole list.\<close>

lemma take_drop_chunks: "0 < k \<Longrightarrow> length xs \<le> m * k \<Longrightarrow> concat (map (\<lambda>i. take k (drop (i * k) xs)) [0..<m]) = xs"
proof (induction m arbitrary: xs)
  case 0
  then show ?case by simp
next
  case (Suc m)
  have "concat (map (\<lambda>i. take k (drop (i * k) (drop k xs))) [0..<m]) = drop k xs"
    using Suc.prems by (intro Suc.IH) auto
  moreover have "map (\<lambda>i. take k (drop (i * k) xs)) [0..<Suc m] =
      take k xs # map (\<lambda>i. take k (drop (i * k) (drop k xs))) [0..<m]"
    by (simp add: map_upt_Suc add.commute del: upt_Suc)
  ultimately show ?case by simp
qed

definition page_items :: "'x list \<Rightarrow> int \<Rightarrow> int \<Rightarrow> 'x list" where
  "page_items items pageNumber perPage =
     (case paginate items pageNumber perPage of Ret (xs, _) \<Rightarrow> xs | _ \<Rightarrow> [])"

lemma pages_partition:
  assumes "0 \<le> perPage" "length items < 2 ^ 40" "int m \<le> 2 ^ 40" "int (length items) \<le> int m * eff_perPage perPage"
  shows "concat (map (\<lambda>i. page_items items (int i + 1) perPage) [0..<m]) = items"
proof -
  let ?k = "nat (eff_perPage perPage)"
  note pp = eff_perPage_bounds [OF assms(1)]
  have "page_items items (int i + 1) perPage = take ?k (drop (i * ?k) items)" if "i < m" for i
  proof -
    have "(eff_pageNumber (int i + 1) - 1) * eff_perPage perPage = int (i * ?k)"
      using pp by (simp add: eff_pageNumber_def)
    then have n: "nat ((eff_pageNumber (int i + 1) - 1) * eff_perPage perPage) = i * ?k" by (simp only: nat_int)
    have "int i + 1 \<le> 2 ^ 40" "length items < 2 ^ 62" using that assms(2,3) by simp_all
    from paginate_eq [OF assms(1) this] show ?thesis by (simp add: page_items_def n)
  qed
  then have M: "map (\<lambda>i. page_items items (int i + 1) perPage) [0..<m] = map (\<lambda>i. take ?k (drop (i * ?k) items)) [0..<m]"
    by (intro map_cong) auto
  have "int (length items) \<le> int (m * ?k)" using assms(4) pp by simp
  then have "length items \<le> m * ?k" by (simp only: of_nat_le_iff)
  then show ?thesis unfolding M using pp by (intro take_drop_chunks) simp_all
qed

text \<open>
  A negative page size makes the slice bounds invalid, whatever the page number and the list:
  a start below zero is out of range, and from any other the stop lies before the start.
\<close>

lemma paginate_negative:
  assumes "in_i64 perPage" "perPage < 0"
  shows "paginate items pageNumber perPage = Panic SliceBoundsOutOfRange"
proof -
  let ?pn = "if pageNumber \<le> 0 then 1 else pageNumber" and ?t = "int (length items)"
  define start where "start = min (wrap64 (wrap64 (?pn - 1) * perPage)) ?t"
  have p: "(if perPage = 0 then 10 else perPage) = perPage" "(if perPage > 5000 then 5000 else perPage) = perPage"
    using assms(2) by simp_all
  have m: "(if x > ?t then ?t else x) = min x ?t" for x by simp
  have e: "paginate items pageNumber perPage =
      go_bind (go_slice items start (min (wrap64 (start + perPage)) ?t)) (\<lambda>xs. Ret (xs, (?pn, perPage), ?t))"
    unfolding paginate_def Let_def p m start_def ..
  have "start < 2 ^ 63" using wrap64_in [of "wrap64 (?pn - 1) * perPage"] by (simp add: start_def in_i64_def min_less_iff_disj)
  then have "wrap64 (start + perPage) < start" if "0 \<le> start"
    using that assms by (simp add: in_i64_def)
  then have "\<not> (0 \<le> start \<and> start \<le> min (wrap64 (start + perPage)) ?t)" by auto
  then show ?thesis unfolding e by (auto simp: go_slice_def)
qed

text \<open>The page size of a request is a 64-bit integer.\<close>

lemma fold_page_field_in: "in_i64 (hp_PerPage q) \<Longrightarrow> in_i64 (hp_PerPage (fold page_field kvs q))"
  by (induction kvs arbitrary: q) (auto simp: page_field_def decode_int_in split: prod.split)

lemma decode_page_in [simp]: "in_i64 (hp_PerPage (decode_page E r))"
  by (auto simp: decode_page_def decodeBody_def decode_members_def Let_def in_i64_def [of 0]
      intro!: fold_page_field_in split: option.split json.split)

section \<open>The page count\<close>

lemma rnd_nat_exact: "n < 2 ^ 53 \<Longrightarrow> f64_of_int (int n) = Fin (rat_of_nat n)"
  using rnd_of_nat [of n] by (simp add: f64_of_int_def)

lemma totalPages_exact:
  assumes "0 < pp" "pp \<le> 5000" "t < 2 ^ 53"
  shows "int_of_f64 E (fceil (fdiv (f64_of_int (int t)) (f64_of_int pp))) = \<lceil>rat_of_nat t / rat_of_int pp\<rceil>"
proof -
  define b where "b = nat pp"
  have b: "0 < b" "b \<le> 5000" "pp = int b" using assms(1,2) by (auto simp: b_def)
  let ?x = "rat_of_nat t / rat_of_nat b"
  have "f64_of_int pp = Fin (rat_of_nat b)" unfolding b(3) using b(2) by (intro rnd_nat_exact) simp
  then have d: "fdiv (f64_of_int (int t)) (f64_of_int pp) = rnd ?x"
    using rnd_nat_exact [OF assms(3)] b(1) by (simp add: fdiv_def)
  have t: "rat_of_nat t \<le> rat_of_nat (2 ^ 53)" using assms(3) by (simp only: of_nat_le_iff)
  have "1 \<le> rat_of_nat b" using b(1) by simp
  then have "?x \<le> rat_of_nat t" using mult_left_mono [of 1 "rat_of_nat b" "rat_of_nat t"] by (simp add: divide_le_eq)
  then have "\<bar>?x\<bar> \<le> of_int (2 ^ 53)" using t by simp
  from rnd_within [OF exact_bound_of_int this] have r: "rnd ?x = Fin (fround ?x)" "\<bar>fround ?x\<bar> \<le> of_int (2 ^ 53)" by auto
  have c: "\<lceil>fround ?x\<rceil> = \<lceil>?x\<rceil>" using b(1,2) assms(3) by (intro fr.ceiling_fr_div) auto
  have "0 \<le> ?x" by simp
  then have "0 \<le> \<lceil>?x\<rceil>" by linarith
  moreover have "\<lceil>?x\<rceil> \<le> 2 ^ 53" using r(2) unfolding c [symmetric] by (simp add: ceiling_le_iff)
  ultimately have "in_i64 \<lceil>?x\<rceil>" "(0 :: rat) \<le> of_int \<lceil>?x\<rceil>" by (simp_all add: in_i64_def)
  then show ?thesis unfolding d r(1) by (simp add: fceil_def int_of_f64_def Let_def c b(3))
qed

section \<open>The contract of the paged routes\<close>

locale paged_route =
  fixes E :: "'a rpc_env_scheme"
    and handler :: "mock_chain \<Rightarrow> http_request \<Rightarrow> response go"
    and lookup :: "mock_chain \<Rightarrow> u64 \<Rightarrow> 'x list option"
    and kind :: page_kind
    and wrap :: "'x list \<Rightarrow> page_results"
  assumes handler_eq: "handler mc r =
    (case lookup mc (or_latest mc (hp_Height (decode_page E r))) of
       None \<Rightarrow> Ret not_found
     | Some items \<Rightarrow> serve_page E kind wrap (decode_page E r) items)"
begin

lemma unknown: "lookup mc (or_latest mc (hp_Height (decode_page E r))) = None \<Longrightarrow> handler mc r = Ret not_found"
  by (simp add: handler_eq)

lemma page:
  assumes "lookup mc (or_latest mc (hp_Height (decode_page E r))) = Some items"
    "0 \<le> hp_PerPage (decode_page E r)" "hp_PageNumber (decode_page E r) \<le> 2 ^ 40" "length items < 2 ^ 53"
  shows "\<exists>pg. handler mc r = Ret (JsonResp 200 (PlPage pg)) \<and>
    pg_Results pg = wrap (page_items items (hp_PageNumber (decode_page E r)) (hp_PerPage (decode_page E r))) \<and>
    pg_Type pg = en_page_name E kind \<and> pg_TotalCount pg = int (length items) \<and>
    pg_TotalPages pg = \<lceil>rat_of_nat (length items) / rat_of_int (eff_perPage (hp_PerPage (decode_page E r)))\<rceil>"
proof -
  have l: "length items < 2 ^ 62" using assms(4) by simp
  note pp = eff_perPage_bounds [OF assms(2)]
  show ?thesis
    using assms(1) paginate_eq [OF assms(2,3) l] pp totalPages_exact [OF _ conjunct2 [OF pp] assms(4), of E]
    by (simp add: handler_eq serve_page_def page_items_def buildPage_def Let_def)
qed

lemma negative:
  assumes "hp_PerPage (decode_page E r) < 0"
  shows "handler mc r = (case lookup mc (or_latest mc (hp_Height (decode_page E r))) of
    None \<Rightarrow> Ret not_found | Some _ \<Rightarrow> Panic SliceBoundsOutOfRange)"
  by (simp add: handler_eq serve_page_def paginate_negative [OF decode_page_in assms] split: option.split)

lemma no_panic:
  assumes "0 \<le> hp_PerPage (decode_page E r)" "hp_PageNumber (decode_page E r) \<le> 2 ^ 40"
    "\<And>items h. lookup mc h = Some items \<Longrightarrow> length items < 2 ^ 53"
  shows "\<exists>resp. handler mc r = Ret resp"
proof (cases "lookup mc (or_latest mc (hp_Height (decode_page E r)))")
  case None
  then show ?thesis by (simp add: unknown)
next
  case (Some items)
  from page [OF this assms(1,2) assms(3) [OF this]] show ?thesis by blast
qed

end

interpretation tx_pages: paged_route E "handle_txs E" "\<lambda>mc h. Some (TxsAt mc h)" TxPage RTxs for E
  by unfold_locales (simp add: handle_txs_def Let_def)

interpretation event_pages: paged_route E "handle_events E" "\<lambda>mc h. Some (EventsAt mc h)" EventPage REvents for E
  by unfold_locales (simp add: handle_events_def Let_def)

interpretation account_pages: paged_route E "handle_accounts E" accountsAt AccountPage RAccounts for E
  by unfold_locales (simp add: handle_accounts_def Let_def accountsAt_def split: option.split)

interpretation pool_pages: paged_route E "handle_pools E" poolsAt PoolPage RPools for E
  by unfold_locales (simp add: handle_pools_def Let_def poolsAt_def split: option.split)

interpretation validator_pages: paged_route E "handle_validators E" validatorsAt ValidatorPage RValidators for E
  by unfold_locales (simp add: handle_validators_def Let_def validatorsAt_def split: option.split)

section \<open>Requests\<close>

lemma parseHeightReq_query:
  "query_get r ''height'' = dec_nat (unat h) \<Longrightarrow> parseHeightReq E r = h"
  by (simp add: parseHeightReq_def parse_uint64_dec)

text \<open>A JSON body with the three members, in any order and with any ASCII case, decodes to its values.\<close>

lemma decode_page_body:
  assumes "en_json_parse E (take (2 ^ 20) (rq_body r)) = Some (JObj kvs)" "\<not> rq_body_err r"
    "\<not> list_all is_space (take (2 ^ 20) (rq_body r))"
  shows "decode_page E r = fold page_field kvs \<lparr>hp_Height = 0, hp_PageNumber = 0, hp_PerPage = 0\<rparr>"
  using assms by (simp add: decode_page_def decodeBody_def Let_def decode_members_def)

section \<open>The single-value routes on a prebuilt chain\<close>

definition status :: "response go \<Rightarrow> int option" where
  "status resp = (case resp of
     Ret (JsonResp c _) \<Rightarrow> Some c | Ret (ErrorResp c _) \<Rightarrow> Some c | Ret (ProtoResp c _) \<Rightarrow> Some c
   | Ret (RedirectResp c _ _) \<Rightarrow> Some c | _ \<Rightarrow> None)"

lemma found_status: "status (found f v) = Some (if v = None then 404 else 200)"
  by (simp add: found_def status_def not_found_def split: option.split)

definition served :: "int \<Rightarrow> u64 \<Rightarrow> bool" where
  "served n h \<longleftrightarrow> int (unat h) \<le> n"

lemma or_latest_cases:
  assumes "newMockChain E n c opts = Ret mc" "0 < n" "n < 2 ^ 63"
  shows "1 \<le> unat (or_latest mc h)" "int (unat (or_latest mc h)) \<le> n \<longleftrightarrow> served n h"
proof -
  have l: "unat (latestHeight mc) = nat n"
    using chain_heights(1) [OF assms(1,3)] assms(3) by (simp add: unat_of_nat_u64)
  show "1 \<le> unat (or_latest mc h)"
    using l assms(2) by (cases "h = 0") (auto simp: or_latest_def Suc_le_eq unat_gt_0)
  show "int (unat (or_latest mc h)) \<le> n \<longleftrightarrow> served n h"
    using l assms(2) by (cases "h = 0") (auto simp: or_latest_def served_def)
qed

lemma single_routes_status:
  assumes "newMockChain E n c opts = Ret mc" "0 < n" "n < 2 ^ 63"
  shows "status (handle_block E mc r) = Some (if served n (parseHeightReq E r) then 200 else 404)"
    "status (handle_cert E mc r) = Some (if served n (parseHeightReq E r) then 200 else 404)"
    "status (handle_supply E mc r) = Some (if served n (parseHeightReq E r) then 200 else 404)"
proof -
  let ?h = "or_latest mc (parseHeightReq E r)"
  note o = or_latest_cases [OF assms, of "parseHeightReq E r"]
  note c = chain_heights(2,3,6) [OF assms(1,3), of ?h]
  have "?h \<noteq> 0" using o(1) by auto
  then have "stateAt mc ?h \<noteq> None \<longleftrightarrow> served n (parseHeightReq E r)" using c(3) o(2) by simp
  moreover have "BlockAt mc ?h \<noteq> None \<longleftrightarrow> served n (parseHeightReq E r)"
    "CertAt mc ?h \<noteq> None \<longleftrightarrow> served n (parseHeightReq E r)"
    using c(1,2) o by simp_all
  ultimately show "status (handle_block E mc r) = Some (if served n (parseHeightReq E r) then 200 else 404)"
    "status (handle_cert E mc r) = Some (if served n (parseHeightReq E r) then 200 else 404)"
    "status (handle_supply E mc r) = Some (if served n (parseHeightReq E r) then 200 else 404)"
    by (auto simp: handle_block_def handle_cert_def handle_supply_def found_status supplyAt_def)
qed

text \<open>Only the state route can return the genesis snapshot: an explicit height zero.\<close>

lemma handle_state_genesis:
  assumes "newMockChain E n c opts = Ret mc" "n < 2 ^ 63" "query_get r ''height'' = ''0''"
  shows "\<exists>s. handle_state E mc r = Ret (JsonResp 200 (PlState s)) \<and> stateAt mc 0 = Some s"
proof -
  have "char_of (48 :: nat) = CHR ''0''" by code_simp
  then have "parseHeightReq E r = 0"
    using assms(3) parseHeightReq_query [of r 0 E] by (simp add: dec_nat_small digit_char_def)
  moreover have "stateAt mc 0 \<noteq> None" using chain_heights(6) [OF assms(1,2), of 0] by simp
  ultimately show ?thesis using assms(3) by (auto simp: handle_state_def found_def)
qed

section \<open>Order books\<close>

lemma normalizeOrderBooks_committee:
  "Some book \<in> set (obs_OrderBooks (normalizeOrderBooks src)) \<Longrightarrow> Some order \<in> set (ob_Orders book) \<Longrightarrow>
   so_Committee order = ob_ChainId book"
  by (auto simp: normalizeOrderBooks_def)

lemma map_filter_id: "List.map_filter id xs = map the (filter (\<lambda>x. x \<noteq> None) xs)"
  by (simp add: List.map_filter_def)

text \<open>Nothing but the committee of an order changes, and no book or order is lost.\<close>

lemma normalizeOrderBooks_keeps:
  "map (\<lambda>b. (ob_ChainId b, map (\<lambda>order. order\<lparr>so_Committee := 0\<rparr>) (List.map_filter id (ob_Orders b))))
     (List.map_filter id (obs_OrderBooks (normalizeOrderBooks src))) =
   map (\<lambda>b. (ob_ChainId b, map (\<lambda>order. order\<lparr>so_Committee := 0\<rparr>) (List.map_filter id (ob_Orders b))))
     (List.map_filter id (obs_OrderBooks src))"
  by (simp add: normalizeOrderBooks_def map_filter_id filter_map o_def)

lemma normalizeOrderBooks_idem: "normalizeOrderBooks (normalizeOrderBooks src) = normalizeOrderBooks src"
  by (simp add: normalizeOrderBooks_def map_filter_id filter_map o_def)

section \<open>No route panics on requests in range\<close>

lemma BuildIndexerBlobs_no_panic: "BuildIndexerBlobs E mc q \<noteq> Panic p"
proof -
  have one: "BuildIndexerBlob E mc h \<noteq> Panic p'" for h p'
    by (simp add: BuildIndexerBlob_def go_bind_eq_Panic split: option.split sum.split)
  show ?thesis
    by (auto simp: BuildIndexerBlobs_def go_bind_eq_Panic one split: sum.splits if_splits)
qed

lemma serve_no_panic:
  assumes "0 \<le> hp_PerPage (decode_page E r)" "hp_PageNumber (decode_page E r) \<le> 2 ^ 40"
    "\<And>h. length (TxsAt mc h) < 2 ^ 53" "\<And>h. length (EventsAt mc h) < 2 ^ 53"
    "\<And>h s. stateAt mc h = Some s \<Longrightarrow> length (gs_Accounts s) < 2 ^ 53 \<and> length (gs_Pools s) < 2 ^ 53 \<and>
      length (gs_Validators s) < 2 ^ 53"
  shows "serve E mc path r \<noteq> Panic p"
proof -
  have pages: "\<exists>resp. handle_txs E mc r = Ret resp" "\<exists>resp. handle_events E mc r = Ret resp"
    "\<exists>resp. handle_accounts E mc r = Ret resp" "\<exists>resp. handle_pools E mc r = Ret resp"
    "\<exists>resp. handle_validators E mc r = Ret resp"
    using assms(3-5)
    by (intro tx_pages.no_panic event_pages.no_panic account_pages.no_panic pool_pages.no_panic
        validator_pages.no_panic assms(1,2); auto simp: accountsAt_def poolsAt_def validatorsAt_def)+
  have simple: "handle_head E mc r \<noteq> Panic p" "handle_block E mc r \<noteq> Panic p" "handle_cert E mc r \<noteq> Panic p"
    "handle_state E mc r \<noteq> Panic p" "handle_supply E mc r \<noteq> Panic p" "handle_dexPrice E mc r \<noteq> Panic p"
    "handle_orders E mc r \<noteq> Panic p" "handle_dexBatch E mc r \<noteq> Panic p" "handle_nextDexBatch E mc r \<noteq> Panic p"
    "handle_nonSigners E mc r \<noteq> Panic p" "handle_doubleSigners E mc r \<noteq> Panic p"
    by (simp_all add: handle_head_def handle_block_def handle_cert_def handle_state_def handle_supply_def
        handle_dexPrice_def handle_orders_def handle_dexBatch_def handle_nextDexBatch_def serve_batch_def found_def
        handle_nonSigners_def handle_doubleSigners_def simple_page_def Let_def split: option.split prod.split)
  have const: "handle_allParams E mc r \<noteq> Panic p" "handle_feeParams E mc r \<noteq> Panic p"
    "handle_conParams E mc r \<noteq> Panic p" "handle_valParams E mc r \<noteq> Panic p" "handle_govParams E mc r \<noteq> Panic p"
    "handle_committees E mc r \<noteq> Panic p" "handle_subsidized E mc r \<noteq> Panic p" "handle_retired E mc r \<noteq> Panic p"
    "handle_poll E mc r \<noteq> Panic p" "handle_proposals E mc r \<noteq> Panic p"
    by (simp_all add: handle_allParams_def handle_feeParams_def handle_conParams_def handle_valParams_def
        handle_govParams_def handle_committees_def handle_subsidized_def handle_retired_def handle_poll_def
        handle_proposals_def)
  have blobs: "handle_indexerBlobs E mc r \<noteq> Panic p"
    by (simp add: handle_indexerBlobs_def go_bind_eq_Panic BuildIndexerBlobs_no_panic split: prod.split)
  have "h mc r \<noteq> Panic p" if "h \<in> snd ` set (routes E)" for h
    using that pages simple const blobs by (auto simp: routes_def)
  then show ?thesis by (cases rule: serve_cases [of E mc path r]) simp_all
qed

end
