(* ===== verification/Process.thy ===== *)
theory Process
  imports ChainTotal
begin

text \<open>
  What the program does to the process it runs in: the lines it prints and logs, the keystore
  that \<open>buildValidators\<close> prints once per process (\<open>printOnce\<close>), and the listening sockets.
  The state of the process is threaded through every operation that touches it.
\<close>

section \<open>The keystore library\<close>

text \<open>
  \<open>lib/crypto\<close>'s keystore is not in the repository. A \<open>'k\<close> is a keystore together with the
  entropy its imports draw, so that every function is deterministic: \<open>NewKeystoreInMemory\<close>,
  \<open>NewPrivateKeyFromBytes\<close> followed by \<open>Bytes\<close>, \<open>ImportRaw\<close> with the password and the nickname,
  and the line \<open>Println\<close> prints for \<open>MarshalJSONIndentString\<close>.
\<close>

record 'k keystore =
  ks_new :: 'k
  ks_private_key :: "bytes \<Rightarrow> string + bytes"
  ks_import :: "bytes \<Rightarrow> string \<Rightarrow> string \<Rightarrow> 'k \<Rightarrow> string + 'k"
  ks_json :: "'k \<Rightarrow> string"

text \<open>
  Ed25519 public keys have 32 bytes and private keys 64, and the library takes every private
  key with a nickname.
\<close>

definition keystore_ok :: "'a env_scheme \<Rightarrow> ('k, 'b) keystore_scheme \<Rightarrow> bool" where
  "keystore_ok E K \<longleftrightarrow>
     (\<forall>seed. length seed = 32 \<longrightarrow> length (en_ed25519_public E seed) = 32) \<and>
     (\<forall>key. length key = 64 \<longrightarrow> (\<exists>pk. ks_private_key K key = Inr pk)) \<and>
     (\<forall>key pk pw nick ks. ks_private_key K key = Inr pk \<longrightarrow> nick \<noteq> '''' \<longrightarrow> (\<exists>ks'. ks_import K pk pw nick ks = Inr ks'))"

section \<open>The process\<close>

record process =
  pr_printed :: bool            \<comment> \<open>\<open>printOnce\<close> has run\<close>
  pr_stdout :: "string list"    \<comment> \<open>lines\<close>
  pr_log :: "string list"       \<comment> \<open>messages\<close>
  pr_bound :: "string list"     \<comment> \<open>addresses of the listening sockets\<close>
  pr_grants :: "string \<Rightarrow> bool"  \<comment> \<open>the addresses the system lets the process bind\<close>
  pr_pick :: "string list \<Rightarrow> string option"  \<comment> \<open>the free port the system picks\<close>
  pr_show :: "string \<Rightarrow> string"  \<comment> \<open>the text of a listener's address\<close>

section \<open>Keys\<close>

text \<open>\<open>ed25519.NewKeyFromSeed\<close>: the seed followed by the public key.\<close>

definition private_key :: "'a env_scheme \<Rightarrow> bytes \<Rightarrow> bytes go" where
  "private_key E seed =
     (if length seed \<noteq> 32 then Panic BadSeedLength else Ret (seed @ en_ed25519_public E seed))"

definition key_nickname :: "nat \<Rightarrow> string" where
  "key_nickname i = ''generated-key-'' @ dec_int (int (i + 1))"

definition key_line :: "nat \<Rightarrow> bytes \<Rightarrow> string" where
  "key_line i priv = ''Private Key '' @ dec_int (int (i + 1)) @ '': '' @ hex_encode priv"

text \<open>The loop over the seeds: the keystore after it and the lines it prints.\<close>

fun print_keys ::
  "'a env_scheme \<Rightarrow> ('k, 'b) keystore_scheme \<Rightarrow> nat \<Rightarrow> bytes list \<Rightarrow> 'k \<Rightarrow> ('k \<times> string list) go" where
  "print_keys E K i [] ks = Ret (ks, [])"
| "print_keys E K i (seed # seeds) ks =
     go_bind (private_key E seed) (\<lambda>priv.
     case ks_private_key K priv of Inl err \<Rightarrow> Panic KeystoreFailed
     | Inr pk \<Rightarrow> (case ks_import K pk ''test'' (key_nickname i) ks of Inl err \<Rightarrow> Panic KeystoreFailed
       | Inr ks' \<Rightarrow> go_bind (print_keys E K (Suc i) seeds ks') (\<lambda>(ks'', lines). Ret (ks'', key_line i priv # lines))))"

text \<open>\<open>printOnce.Do\<close>.\<close>

definition printOnce ::
  "'a env_scheme \<Rightarrow> ('k, 'b) keystore_scheme \<Rightarrow> bytes list \<Rightarrow> 'p process_scheme \<Rightarrow> 'p process_scheme go" where
  "printOnce E K seeds p =
     (if pr_printed p then Ret p
      else go_bind (print_keys E K 0 seeds (ks_new K)) (\<lambda>(ks, lines).
        Ret (p\<lparr>pr_printed := True, pr_stdout := pr_stdout p @ lines @ [ks_json K ks]\<rparr>)))"

definition validatorSeeds :: "u64 \<Rightarrow> nat \<Rightarrow> bytes list" where
  "validatorSeeds chainID count = map (validatorSeed chainID) [0..<count]"

text \<open>\<open>buildValidators\<close> with its output, and the constructor of a chain that calls it.\<close>

definition buildValidators_process ::
  "'a env_scheme \<Rightarrow> ('k, 'b) keystore_scheme \<Rightarrow> u64 \<Rightarrow> go_rand \<Rightarrow> nat \<Rightarrow> 'p process_scheme \<Rightarrow>
   ((validator list \<times> go_rand) \<times> 'p process_scheme) go" where
  "buildValidators_process E K chainID rng count p =
     go_bind (buildValidators E chainID rng count) (\<lambda>vs.
     go_bind (printOnce E K (validatorSeeds chainID count) p) (\<lambda>p'. Ret (vs, p')))"

definition NewMockChain ::
  "'a env_scheme \<Rightarrow> ('k, 'b) keystore_scheme \<Rightarrow> int \<Rightarrow> u64 \<Rightarrow> chain_option list \<Rightarrow> 'p process_scheme \<Rightarrow>
   (mock_chain \<times> 'p process_scheme) go" where
  "NewMockChain E K numBlocks chainID opts p =
     (let cfg = apply_options opts in
      go_bind (buildValidators_process E K chainID (new_rand (validator_seed chainID cfg)) (validator_count cfg) p)
        (\<lambda>(vs, p'). go_bind (chainEntities E chainID cfg vs) (\<lambda>mc.
         go_bind (prebuildChain E numBlocks chainID cfg mc) (\<lambda>mc'. Ret (mc', p')))))"

section \<open>Sockets\<close>

definition port_of :: "string \<Rightarrow> string" where
  "port_of addr = rev (takeWhile (\<lambda>c. c \<noteq> CHR '':'') (rev addr))"

definition host_of :: "string \<Rightarrow> string" where
  "host_of addr = rev (tl (dropWhile (\<lambda>c. c \<noteq> CHR '':'') (rev addr)))"

definition wildcard :: "string \<Rightarrow> bool" where
  "wildcard host \<longleftrightarrow> host \<in> {'''', ''0.0.0.0'', ''[::]''}"

text \<open>Two listeners exclude each other on one port, when a host is the same or a wildcard.\<close>

definition conflicts :: "string \<Rightarrow> string \<Rightarrow> bool" where
  "conflicts a b \<longleftrightarrow> port_of a = port_of b \<and> (host_of a = host_of b \<or> wildcard (host_of a) \<or> wildcard (host_of b))"

text \<open>Port 0 and an empty port ask the system for a free port.\<close>

definition resolve_addr :: "string \<Rightarrow> 'p process_scheme \<Rightarrow> string option" where
  "resolve_addr addr p =
     (if CHR '':'' \<notin> set addr then None
      else if port_of addr \<in> {'''', ''0''}
      then map_option (\<lambda>port. host_of addr @ '':'' @ port) (pr_pick p (pr_bound p))
      else Some addr)"

definition net_Listen :: "string \<Rightarrow> 'p process_scheme \<Rightarrow> (string \<times> 'p process_scheme) option" where
  "net_Listen addr p =
     (case resolve_addr addr p of None \<Rightarrow> None
      | Some a \<Rightarrow> if list_ex (conflicts a) (pr_bound p) \<or> \<not> pr_grants p a then None
                 else Some (a, p\<lparr>pr_bound := a # pr_bound p\<rparr>))"

definition net_Close :: "string \<Rightarrow> 'p process_scheme \<Rightarrow> 'p process_scheme" where
  "net_Close addr p = p\<lparr>pr_bound := remove1 addr (pr_bound p)\<rparr>"

text \<open>The loopback listener that \<open>httptest.NewUnstartedServer\<close> opens, on either loopback address.\<close>

definition newLocalListener :: "'p process_scheme \<Rightarrow> (string \<times> 'p process_scheme) option" where
  "newLocalListener p =
     (case net_Listen ''127.0.0.1:0'' p of Some r \<Rightarrow> Some r | None \<Rightarrow> net_Listen ''[::1]:0'' p)"

definition log_Printf :: "string \<Rightarrow> 'p process_scheme \<Rightarrow> 'p process_scheme" where
  "log_Printf msg p = p\<lparr>pr_log := pr_log p @ [msg]\<rparr>"

section \<open>What printing does\<close>

lemma print_keys_returns:
  assumes "keystore_ok E K" "\<And>s. s \<in> set seeds \<Longrightarrow> length s = 32"
  shows "\<exists>ks' lines. print_keys E K i seeds ks = Ret (ks', lines)"
  using assms(2)
proof (induction seeds arbitrary: i ks)
  case Nil
  then show ?case by simp
next
  case (Cons s ss)
  have s: "length s = 32" "length (s @ en_ed25519_public E s) = 64" using Cons.prems [of s] assms(1) by (simp_all add: keystore_ok_def)
  obtain pk where pk: "ks_private_key K (s @ en_ed25519_public E s) = Inr pk"
    using assms(1) s(2) unfolding keystore_ok_def by blast
  have "key_nickname i \<noteq> ''''" by (simp add: key_nickname_def)
  then obtain ks' where ks: "ks_import K pk ''test'' (key_nickname i) ks = Inr ks'"
    using assms(1) pk unfolding keystore_ok_def by blast
  obtain ks'' lines where "print_keys E K (Suc i) ss ks' = Ret (ks'', lines)" using Cons by (meson list.set_intros(2))
  with s(1) pk ks show ?case by (simp add: private_key_def)
qed

lemma print_keys_lines:
  "print_keys E K i seeds ks = Ret (ks', lines) \<Longrightarrow>
   lines = map (\<lambda>(j, s). key_line j (s @ en_ed25519_public E s)) (enumerate i seeds)"
proof (induction seeds arbitrary: i ks lines)
  case Nil
  then show ?case by simp
next
  case (Cons s ss)
  then show ?case by (auto simp: private_key_def go_bind_eq_Ret split: if_splits sum.splits)
qed

text \<open>The lines of the keys of a chain.\<close>

definition key_lines :: "'a env_scheme \<Rightarrow> u64 \<Rightarrow> nat \<Rightarrow> string list" where
  "key_lines E chainID count =
     map (\<lambda>i. key_line i (validatorSeed chainID i @ en_ed25519_public E (validatorSeed chainID i))) [0..<count]"

lemma printOnce_Ret:
  assumes "printOnce E K (validatorSeeds chainID n) p = Ret p'"
  shows "if pr_printed p then p' = p
    else \<exists>json. p' = p\<lparr>pr_printed := True, pr_stdout := pr_stdout p @ key_lines E chainID n @ [json]\<rparr>"
proof -
  have e: "map (\<lambda>(j, s). key_line j (s @ en_ed25519_public E s)) (enumerate 0 (validatorSeeds chainID n)) = key_lines E chainID n"
    by (rule nth_equalityI) (simp_all add: validatorSeeds_def key_lines_def nth_enumerate_eq)
  show ?thesis using assms
    by (auto simp: printOnce_def go_bind_eq_Ret split: if_splits dest!: print_keys_lines) (auto simp: e)
qed

text \<open>Printing changes no socket.\<close>

lemma printOnce_sockets:
  assumes "printOnce E K seeds p = Ret p'"
  shows "pr_printed p'" "pr_bound p' = pr_bound p" "pr_grants p' = pr_grants p" "pr_pick p' = pr_pick p"
    "pr_log p' = pr_log p" "pr_show p' = pr_show p"
  using assms by (auto simp: printOnce_def go_bind_eq_Ret split: if_splits)

lemma printOnce_returns:
  assumes "keystore_ok E K"
  shows "\<exists>p'. printOnce E K (validatorSeeds chainID n) p = Ret p'"
proof -
  have "length s = 32" if "s \<in> set (validatorSeeds chainID n)" for s
    using that by (auto simp: validatorSeeds_def length_validatorSeed)
  from print_keys_returns [OF assms this]
  obtain ks lines where "print_keys E K 0 (validatorSeeds chainID n) (ks_new K) = Ret (ks, lines)" by blast
  then show ?thesis by (simp add: printOnce_def)
qed

text \<open>The constructor of a chain is \<open>newMockChain\<close> and the printing of its keys.\<close>

lemma NewMockChain_Ret:
  "NewMockChain E K n chainID opts p = Ret (mc, p') \<longleftrightarrow>
   newMockChain E n chainID opts = Ret mc \<and>
   printOnce E K (validatorSeeds chainID (validator_count (apply_options opts))) p = Ret p'"
  by (auto simp: NewMockChain_def newMockChain_def initChain_def buildValidators_process_def Let_def go_bind_eq_Ret)

lemma NewMockChain_eq:
  assumes "printOnce E K (validatorSeeds chainID (validator_count (apply_options opts))) p = Ret p'"
  shows "NewMockChain E K n chainID opts p = go_bind (newMockChain E n chainID opts) (\<lambda>mc. Ret (mc, p'))"
  using assms
  by (simp add: NewMockChain_def newMockChain_def initChain_def buildValidators_process_def Let_def go_bind_assoc)

section \<open>What listening does\<close>

lemma net_Listen_Some:
  assumes "net_Listen addr p = Some (a, p')"
  shows "p' = p\<lparr>pr_bound := a # pr_bound p\<rparr>" "pr_grants p a" "\<forall>b \<in> set (pr_bound p). \<not> conflicts a b"
    "port_of addr \<notin> {'''', ''0''} \<Longrightarrow> a = addr"
  using assms by (auto simp: net_Listen_def resolve_addr_def list_ex_iff split: option.splits if_splits)

lemma Listen_Close:
  "net_Listen addr p = Some (a, p') \<Longrightarrow> net_Close a p' = p"
  by (drule net_Listen_Some(1)) (simp add: net_Close_def)

end
