(* ===== verification/Server.thy ===== *)
theory Server
  imports RpcProps Process
begin

text \<open>
  \<open>mockserver/server.go\<close> and \<open>main.go\<close>: the options of a server and how they reach the chain,
  the start of one server (chain, routes, listener), and the program that starts a server
  for each chain and then serves for ever. The process they run in is explicit state.
\<close>

section \<open>Options\<close>

record serverConfig =
  sc_numBlocks :: int
  sc_addr :: string
  sc_profile :: "Profile option"
  sc_seed :: "u64 option"
  sc_validatorCount :: int
  sc_accountCount :: int

type_synonym server_option = "serverConfig \<Rightarrow> serverConfig"

definition srvWithBlocks :: "int \<Rightarrow> server_option" where
  "srvWithBlocks n c = c\<lparr>sc_numBlocks := n\<rparr>"

definition srvWithAddr :: "string \<Rightarrow> server_option" where
  "srvWithAddr addr c = c\<lparr>sc_addr := addr\<rparr>"

definition srvWithProfile :: "Profile \<Rightarrow> server_option" where
  "srvWithProfile p c = c\<lparr>sc_profile := Some p\<rparr>"

definition srvWithSeed :: "u64 \<Rightarrow> server_option" where
  "srvWithSeed seed c = c\<lparr>sc_seed := Some seed\<rparr>"

definition srvWithValidatorCount :: "int \<Rightarrow> server_option" where
  "srvWithValidatorCount n c = c\<lparr>sc_validatorCount := n\<rparr>"

definition srvWithAccountCount :: "int \<Rightarrow> server_option" where
  "srvWithAccountCount n c = c\<lparr>sc_accountCount := n\<rparr>"

definition defaultServerConfig :: serverConfig where
  "defaultServerConfig =
     \<lparr>sc_numBlocks = 50, sc_addr = '''', sc_profile = None, sc_seed = None, sc_validatorCount = 0,
      sc_accountCount = 0\<rparr>"

definition server_config :: "server_option list \<Rightarrow> serverConfig" where
  "server_config opts = fold (\<lambda>o' c. o' c) opts defaultServerConfig"

text \<open>The options that \<open>New\<close> passes on; the two counts only when they are positive.\<close>

definition chainOpts :: "serverConfig \<Rightarrow> chain_option list" where
  "chainOpts cfg =
     (case sc_profile cfg of None \<Rightarrow> [] | Some p \<Rightarrow> [WithProfile p]) @
     (case sc_seed cfg of None \<Rightarrow> [] | Some s \<Rightarrow> [WithSeed s]) @
     (if 0 < sc_validatorCount cfg then [WithValidatorCount (sc_validatorCount cfg)] else []) @
     (if 0 < sc_accountCount cfg then [WithAccountCount (sc_accountCount cfg)] else [])"

section \<open>Servers\<close>

record Server =
  sv_addr :: string              \<comment> \<open>the address of the listener\<close>
  sv_URL :: string
  sv_chain :: mock_chain

text \<open>The address the server listens on: the loopback listener of \<open>httptest\<close>, or the fixed
  address of the options, bound while that listener is still open.\<close>

definition server_listener :: "string \<Rightarrow> 'p process_scheme \<Rightarrow> (string \<times> 'p process_scheme) go" where
  "server_listener addr p =
     (case newLocalListener p of None \<Rightarrow> Panic ListenFailed
      | Some (l, p1) \<Rightarrow>
        if addr \<noteq> ''''
        then (case net_Listen addr p1 of None \<Rightarrow> Panic ListenFailed
              | Some (l', p2) \<Rightarrow> Ret (l', net_Close l p2))
        else Ret (l, p1))"

definition New ::
  "'a env_scheme \<Rightarrow> ('k, 'b) keystore_scheme \<Rightarrow> u64 \<Rightarrow> server_option list \<Rightarrow> 'p process_scheme \<Rightarrow>
   (Server \<times> 'p process_scheme) go" where
  "New E K chainID opts p =
     (let cfg = server_config opts in
      go_bind (NewMockChain E K (sc_numBlocks cfg) chainID (chainOpts cfg) p) (\<lambda>(mc, p1).
      go_bind (server_listener (sc_addr cfg) p1) (\<lambda>(l, p2).
        Ret (\<lparr>sv_addr = l, sv_URL = ''http://'' @ pr_show p l, sv_chain = mc\<rparr>, p2))))"

text \<open>\<open>Close\<close>, which \<open>Server\<close> inherits from \<open>httptest\<close>.\<close>

definition server_Close :: "Server \<Rightarrow> 'p process_scheme \<Rightarrow> 'p process_scheme" where
  "server_Close s p = net_Close (sv_addr s) p"

text \<open>A request that reaches the server goes through its multiplexer.\<close>

definition server_request :: "'a rpc_env_scheme \<Rightarrow> Server \<Rightarrow> string \<Rightarrow> http_request \<Rightarrow> response go" where
  "server_request E s path r = serve E (sv_chain s) path r"

section \<open>The program\<close>

record flags =
  fl_blocks :: int
  fl_chains :: int
  fl_startPort :: int
  fl_startChainID :: u64

definition default_flags :: flags where
  "default_flags = \<lparr>fl_blocks = 50, fl_chains = 3, fl_startPort = 60000, fl_startChainID = 1\<rparr>"

definition main_addr :: "flags \<Rightarrow> nat \<Rightarrow> string" where
  "main_addr f i = '':'' @ dec_int (wrap64 (fl_startPort f + int i))"

definition ready_line :: "Server \<Rightarrow> u64 \<Rightarrow> string" where
  "ready_line srv chainID =
     ''mock RPC server ready on '' @ sv_URL srv @ '' (chainID='' @ dec_nat (unat chainID) @ '')''"

fun main_loop ::
  "'a env_scheme \<Rightarrow> ('k, 'b) keystore_scheme \<Rightarrow> flags \<Rightarrow> nat \<Rightarrow> nat \<Rightarrow> Server list \<Rightarrow> 'p process_scheme \<Rightarrow>
   (Server list \<times> 'p process_scheme) go" where
  "main_loop E K f i 0 servers p = Ret (servers, p)"
| "main_loop E K f i (Suc n) servers p =
     (let chainID = fl_startChainID f + of_nat i in
      go_bind (New E K chainID [srvWithBlocks (fl_blocks f), srvWithAddr (main_addr f i)] p) (\<lambda>(srv, p').
        main_loop E K f (Suc i) n (servers @ [srv]) (log_Printf (ready_line srv chainID) p')))"

text \<open>
  The servers that run when \<open>main\<close> blocks for ever. \<open>make\<close> panics on a negative capacity
  and on one of more than \<open>2 ^ 48\<close> bytes of pointers.
\<close>

definition main_program ::
  "'a env_scheme \<Rightarrow> ('k, 'b) keystore_scheme \<Rightarrow> flags \<Rightarrow> 'p process_scheme \<Rightarrow> (Server list \<times> 'p process_scheme) go" where
  "main_program E K f p =
     (if fl_chains f < 0 \<or> 2 ^ 48 < 8 * fl_chains f then Panic MakeSliceCapOutOfRange
      else main_loop E K f 0 (nat (fl_chains f)) [] p)"

section \<open>What the options become\<close>

lemma apply_chainOpts:
  "apply_options (chainOpts cfg) =
     \<lparr>co_profile = sc_profile cfg, co_seed = sc_seed cfg,
      co_validatorCount = max 0 (sc_validatorCount cfg), co_accountCount = max 0 (sc_accountCount cfg)\<rparr>"
  by (auto simp: apply_options_def chainOpts_def zero_options_def WithProfile_def WithSeed_def
      WithValidatorCount_def WithAccountCount_def max_def split: option.split)

lemma server_config_main:
  "server_config [srvWithBlocks n, srvWithAddr addr] = defaultServerConfig\<lparr>sc_numBlocks := n, sc_addr := addr\<rparr>"
  by (simp add: server_config_def srvWithBlocks_def srvWithAddr_def)

lemma server_options_order:
  "srvWithBlocks n (srvWithAddr a c) = srvWithAddr a (srvWithBlocks n c)"
  "srvWithBlocks n (srvWithBlocks m c) = srvWithBlocks n c"
  "srvWithAddr a (srvWithAddr b c) = srvWithAddr a c"
  by (simp_all add: srvWithBlocks_def srvWithAddr_def)

lemma chainOpts_main: "chainOpts (defaultServerConfig\<lparr>sc_numBlocks := n, sc_addr := addr\<rparr>) = []"
  by (simp add: chainOpts_def defaultServerConfig_def)

lemma New_main:
  assumes "addr \<noteq> ''''"
  shows "New E K c [srvWithBlocks n, srvWithAddr addr] p =
    go_bind (NewMockChain E K n c [] p) (\<lambda>(mc, p1).
    go_bind (server_listener addr p1) (\<lambda>(l, p2).
      Ret (\<lparr>sv_addr = l, sv_URL = ''http://'' @ pr_show p l, sv_chain = mc\<rparr>, p2)))"
  by (simp add: New_def Let_def server_config_main chainOpts_main)

section \<open>Listeners\<close>

lemma conflicts_refl [simp]: "conflicts a a"
  by (simp add: conflicts_def)

lemma newLocalListener_Some:
  assumes "newLocalListener p = Some (l, p1)"
  shows "p1 = p\<lparr>pr_bound := l # pr_bound p\<rparr>" "\<forall>b \<in> set (pr_bound p). \<not> conflicts l b"
  using assms by (auto simp: newLocalListener_def dest: net_Listen_Some split: option.splits)

text \<open>The listener of a server is the only socket its start leaves open.\<close>

lemma server_listener_Ret:
  assumes "server_listener addr p = Ret (l, p')"
  shows "p' = p\<lparr>pr_bound := l # pr_bound p\<rparr>" "\<forall>b \<in> set (pr_bound p). \<not> conflicts l b"
    "addr \<noteq> '''' \<Longrightarrow> port_of addr \<notin> {'''', ''0''} \<Longrightarrow> l = addr \<and> pr_grants p addr"
proof -
  obtain e p1 where e: "newLocalListener p = Some (e, p1)"
    using assms by (auto simp: server_listener_def split: option.splits)
  note e' = newLocalListener_Some [OF e]
  have "p' = p\<lparr>pr_bound := l # pr_bound p\<rparr> \<and> (\<forall>b \<in> set (pr_bound p). \<not> conflicts l b) \<and>
    (addr \<noteq> '''' \<longrightarrow> port_of addr \<notin> {'''', ''0''} \<longrightarrow> l = addr \<and> pr_grants p addr)"
  proof (cases "addr = ''''")
    case True
    then show ?thesis using assms e e' by (auto simp: server_listener_def)
  next
    case False
    then obtain p2 where l: "net_Listen addr p1 = Some (l, p2)" "p' = net_Close e p2"
      using assms e by (auto simp: server_listener_def split: option.splits)
    note l' = net_Listen_Some [OF l(1)]
    have "l \<noteq> e" using l'(3) e'(1) by auto
    then have "p' = p\<lparr>pr_bound := l # pr_bound p\<rparr>" using l(2) l'(1) e'(1) by (simp add: net_Close_def)
    moreover have "\<forall>b \<in> set (pr_bound p). \<not> conflicts l b" using l'(3) e'(1) by simp
    moreover have "port_of addr \<notin> {'''', ''0''} \<longrightarrow> l = addr \<and> pr_grants p addr" using l'(2,4) e'(1) by auto
    ultimately show ?thesis by blast
  qed
  then show "p' = p\<lparr>pr_bound := l # pr_bound p\<rparr>" "\<forall>b \<in> set (pr_bound p). \<not> conflicts l b"
    "addr \<noteq> '''' \<Longrightarrow> port_of addr \<notin> {'''', ''0''} \<Longrightarrow> l = addr \<and> pr_grants p addr" by blast+
qed

text \<open>With a free loopback port that is not the fixed address's, an address that is free is bound.\<close>

lemma server_listener_returns:
  assumes "pr_pick p (pr_bound p) = Some port" "port \<noteq> port_of addr" "pr_grants p (''127.0.0.1:'' @ port)"
    "\<forall>b \<in> set (pr_bound p). port_of b \<noteq> port" "CHR '':'' \<notin> set port"
    "addr \<noteq> ''''" "CHR '':'' \<in> set addr" "port_of addr \<notin> {'''', ''0''}" "pr_grants p addr"
    "\<forall>b \<in> set (pr_bound p). \<not> conflicts addr b"
  shows "server_listener addr p = Ret (addr, p\<lparr>pr_bound := addr # pr_bound p\<rparr>)"
proof -
  let ?e = "''127.0.0.1:'' @ port"
  have po: "port_of ?e = port"
  proof -
    have "takeWhile (\<lambda>c. c \<noteq> CHR '':'') (rev port @ ('':'' @ ''1.0.0.721'')) = rev port @ takeWhile (\<lambda>c. c \<noteq> CHR '':'') ('':'' @ ''1.0.0.721'')"
      using assms(5) by (intro takeWhile_append2) auto
    then show ?thesis by (simp add: port_of_def)
  qed
  have "port_of ''127.0.0.1:0'' = ''0''" "host_of ''127.0.0.1:0'' = ''127.0.0.1''"
    by (simp_all add: port_of_def host_of_def)
  then have "resolve_addr ''127.0.0.1:0'' p = Some ?e" using assms(1) by (simp add: resolve_addr_def)
  moreover have "\<not> list_ex (conflicts ?e) (pr_bound p)" using assms(4) po by (auto simp: list_ex_iff conflicts_def)
  ultimately have "net_Listen ''127.0.0.1:0'' p = Some (?e, p\<lparr>pr_bound := ?e # pr_bound p\<rparr>)"
    using assms(3) by (simp add: net_Listen_def)
  then have e: "newLocalListener p = Some (?e, p\<lparr>pr_bound := ?e # pr_bound p\<rparr>)" by (simp add: newLocalListener_def)
  have n: "\<not> conflicts addr ?e" using assms(2) po by (auto simp: conflicts_def)
  then have "addr \<noteq> ?e" by auto
  moreover have "resolve_addr addr (p\<lparr>pr_bound := ?e # pr_bound p\<rparr>) = Some addr" using assms(7,8) by (simp add: resolve_addr_def)
  then have "net_Listen addr (p\<lparr>pr_bound := ?e # pr_bound p\<rparr>) = Some (addr, p\<lparr>pr_bound := addr # ?e # pr_bound p\<rparr>)"
    using assms(9,10) n by (simp add: net_Listen_def list_ex_iff)
  ultimately show ?thesis using e assms(6) by (simp add: server_listener_def net_Close_def)
qed

lemma server_listener_outcome:
  "(\<exists>r. server_listener addr p = Ret r) \<or> server_listener addr p = Panic ListenFailed"
  by (auto simp: server_listener_def split: option.splits)

text \<open>The loopback listener takes the port of the fixed address when the system picks it.\<close>

lemma server_listener_clash:
  assumes "newLocalListener p = Some (l, p1)" "conflicts addr l" "addr \<noteq> ''''" "port_of addr \<notin> {'''', ''0''}"
  shows "server_listener addr p = Panic ListenFailed"
proof -
  have "net_Listen addr p1 = None"
    using assms(2,4) newLocalListener_Some(1) [OF assms(1)]
    by (auto simp: net_Listen_def resolve_addr_def list_ex_iff split: option.splits)
  with assms(1,3) show ?thesis by (simp add: server_listener_def)
qed

section \<open>Addresses\<close>

definition main_port :: "flags \<Rightarrow> nat \<Rightarrow> string" where
  "main_port f i = dec_int (wrap64 (fl_startPort f + int i))"

lemma main_addr_nonempty [simp]: "main_addr f i \<noteq> ''''"
  by (simp add: main_addr_def)

lemma colon_dec_int: "CHR '':'' \<notin> set (dec_int x)"
proof -
  have "\<not> is_digit CHR '':''" by code_simp
  then show ?thesis using dec_nat_digits [of "CHR '':''"] by (auto simp: dec_int_def)
qed

lemma main_addr_parts: "port_of (main_addr f i) = main_port f i" "host_of (main_addr f i) = ''''" "CHR '':'' \<in> set (main_addr f i)"
proof -
  let ?d = "rev (dec_int (wrap64 (fl_startPort f + int i)))" and ?P = "\<lambda>c. c \<noteq> CHR '':''"
  have d: "\<And>c. c \<in> set ?d \<Longrightarrow> ?P c" using colon_dec_int by auto
  have t: "takeWhile ?P (?d @ '':'') = ?d @ takeWhile ?P '':''" by (rule takeWhile_append2 [OF d])
  have w: "dropWhile ?P (?d @ '':'') = dropWhile ?P '':''" by (rule dropWhile_append2 [OF d])
  show "port_of (main_addr f i) = main_port f i" "host_of (main_addr f i) = ''''" "CHR '':'' \<in> set (main_addr f i)"
    using t w by (simp_all add: main_addr_def port_of_def host_of_def main_port_def)
qed

lemma main_addr_conflicts: "conflicts (main_addr f i) a \<longleftrightarrow> port_of a = main_port f i"
  by (auto simp: conflicts_def main_addr_parts wildcard_def)

lemma dec_int_inj: "0 \<le> a \<Longrightarrow> 0 \<le> b \<Longrightarrow> dec_int a = dec_int b \<longleftrightarrow> a = b"
  by (auto simp: dec_int_def)

definition ports_ok :: "flags \<Rightarrow> bool" where
  "ports_ok f \<longleftrightarrow> 1 \<le> fl_startPort f \<and> fl_startPort f + fl_chains f < 2 ^ 63"

lemma main_port_id: "ports_ok f \<Longrightarrow> int k < fl_chains f \<Longrightarrow> wrap64 (fl_startPort f + int k) = fl_startPort f + int k"
  by (intro wrap64_id) (simp add: ports_ok_def in_i64_def)

lemma main_port_inj:
  assumes "ports_ok f" "int i < fl_chains f" "int j < fl_chains f"
  shows "main_port f i = main_port f j \<longleftrightarrow> i = j"
  using assms main_port_id [OF assms(1)] by (simp add: main_port_def dec_int_inj ports_ok_def)

lemma main_port_fixed:
  assumes "ports_ok f" "int i < fl_chains f"
  shows "main_port f i \<notin> {'''', ''0''}"
proof -
  have "dec_int 0 = ''0''" by code_simp
  then have "main_port f i \<noteq> ''0''"
    using dec_int_inj [of "fl_startPort f + int i" 0] main_port_id [OF assms] assms(1)
    by (auto simp: main_port_def ports_ok_def)
  then show ?thesis by (auto simp: main_port_def dec_int_def)
qed

section \<open>The loop\<close>

text \<open>Server \<open>i\<close> has the chain of identifier \<open>start + i\<close> and the address of port \<open>start + i\<close>.\<close>

definition server_of :: "'a env_scheme \<Rightarrow> flags \<Rightarrow> (string \<Rightarrow> string) \<Rightarrow> nat \<Rightarrow> Server \<Rightarrow> bool" where
  "server_of E f text' i s \<longleftrightarrow> sv_addr s = main_addr f i \<and> sv_URL s = ''http://'' @ text' (main_addr f i) \<and>
     newMockChain E (fl_blocks f) (fl_startChainID f + of_nat i) [] = Ret (sv_chain s)"

text \<open>The keys of the default number of validators.\<close>

definition printed_for :: "'a env_scheme \<Rightarrow> u64 \<Rightarrow> 'p process_scheme \<Rightarrow> 'p process_scheme \<Rightarrow> bool" where
  "printed_for E chainID p p' \<longleftrightarrow> pr_printed p' \<and>
     (if pr_printed p then pr_stdout p' = pr_stdout p
      else \<exists>json. pr_stdout p' = pr_stdout p @ key_lines E chainID 10 @ [json])"

lemma validator_count_default [simp]: "validator_count (apply_options []) = 10" "validator_count zero_options = 10"
  by (simp_all add: validator_count_def apply_options_def zero_options_def)

lemma New_server_of:
  assumes "New E K (fl_startChainID f + of_nat i) [srvWithBlocks (fl_blocks f), srvWithAddr (main_addr f i)] p = Ret (s, p')"
    "main_port f i \<notin> {'''', ''0''}"
  shows "server_of E f (pr_show p) i s" "\<forall>b \<in> set (pr_bound p). port_of b \<noteq> main_port f i" "pr_grants p (main_addr f i)"
    "pr_bound p' = main_addr f i # pr_bound p" "pr_grants p' = pr_grants p" "pr_pick p' = pr_pick p"
    "pr_show p' = pr_show p" "pr_log p' = pr_log p" "printed_for E (fl_startChainID f + of_nat i) p p'"
proof -
  obtain mc p1 l where n: "NewMockChain E K (fl_blocks f) (fl_startChainID f + of_nat i) [] p = Ret (mc, p1)"
    "server_listener (main_addr f i) p1 = Ret (l, p')"
    "s = \<lparr>sv_addr = l, sv_URL = ''http://'' @ pr_show p l, sv_chain = mc\<rparr>"
    using assms(1) by (auto simp: New_main go_bind_eq_Ret)
  have mc: "newMockChain E (fl_blocks f) (fl_startChainID f + of_nat i) [] = Ret mc"
    and pr: "printOnce E K (validatorSeeds (fl_startChainID f + of_nat i) 10) p = Ret p1"
    using n(1) by (simp_all add: NewMockChain_Ret)
  note l = server_listener_Ret [OF n(2)] and q = printOnce_sockets [OF pr] and o = printOnce_Ret [OF pr]
  have la: "l = main_addr f i" "pr_grants p1 (main_addr f i)" using l(3) assms(2) by (simp_all add: main_addr_parts)
  then show "server_of E f (pr_show p) i s" using n(3) mc by (simp add: server_of_def)
  show "pr_grants p (main_addr f i)" using la(2) q(3) by simp
  show "\<forall>b \<in> set (pr_bound p). port_of b \<noteq> main_port f i"
    using l(2) q(2) by (simp add: la(1) main_addr_conflicts)
  show "pr_bound p' = main_addr f i # pr_bound p" "pr_grants p' = pr_grants p" "pr_pick p' = pr_pick p"
    "pr_show p' = pr_show p" "pr_log p' = pr_log p"
    using l(1) la(1) q by simp_all
  show "printed_for E (fl_startChainID f + of_nat i) p p'"
    using o q(1) unfolding l(1) printed_for_def by (auto split: if_splits)
qed

lemma main_loop_Ret:
  assumes "main_loop E K f i n servers p = Ret (servers', p')" "\<And>j. j < n \<Longrightarrow> main_port f (i + j) \<notin> {'''', ''0''}"
  shows "\<exists>new. servers' = servers @ new \<and> length new = n \<and>
    list_all (\<lambda>(j, s). server_of E f (pr_show p) j s) (enumerate i new) \<and>
    pr_bound p' = rev (map sv_addr new) @ pr_bound p \<and>
    pr_log p' = pr_log p @ map (\<lambda>(j, s). ready_line s (fl_startChainID f + of_nat j)) (enumerate i new) \<and>
    (if n = 0 then p' = p else printed_for E (fl_startChainID f + of_nat i) p p') \<and>
    (\<forall>j < n. (\<forall>b \<in> set (pr_bound p). port_of b \<noteq> main_port f (i + j)) \<and> pr_grants p (main_addr f (i + j)))"
  using assms
proof (induction n arbitrary: i servers p)
  case 0
  then show ?case by simp
next
  case (Suc n)
  let ?c = "fl_startChainID f + of_nat i"
  obtain s p1 where
    new: "New E K ?c [srvWithBlocks (fl_blocks f), srvWithAddr (main_addr f i)] p = Ret (s, p1)"
    and rest: "main_loop E K f (Suc i) n (servers @ [s]) (log_Printf (ready_line s ?c) p1) = Ret (servers', p')"
    using Suc.prems(1) by (auto simp: go_bind_eq_Ret Let_def)
  have "main_port f i \<notin> {'''', ''0''}" using Suc.prems(2) [of 0] by simp
  note s = New_server_of [OF new this]
  have "main_port f (Suc i + j) \<notin> {'''', ''0''}" if "j < n" for j using Suc.prems(2) [of "Suc j"] that by simp
  from Suc.IH [OF rest this] s(4-8) obtain ss where ss: "servers' = (servers @ [s]) @ ss" "length ss = n"
    "list_all (\<lambda>(j, s). server_of E f (pr_show p) j s) (enumerate (Suc i) ss)"
    "pr_bound p' = rev (map sv_addr ss) @ main_addr f i # pr_bound p"
    "pr_log p' = (pr_log p @ [ready_line s ?c]) @ map (\<lambda>(j, s). ready_line s (fl_startChainID f + of_nat j)) (enumerate (Suc i) ss)"
    "if n = 0 then p' = log_Printf (ready_line s ?c) p1 else printed_for E (fl_startChainID f + of_nat (Suc i)) (log_Printf (ready_line s ?c) p1) p'"
    "\<forall>j < n. (\<forall>b \<in> set (main_addr f i # pr_bound p). port_of b \<noteq> main_port f (Suc i + j)) \<and> pr_grants p (main_addr f (Suc i + j))"
    by (auto simp: log_Printf_def)
  have "printed_for E ?c p p'"
    using ss(6) s(9) by (auto simp: printed_for_def log_Printf_def split: if_splits)
  moreover have "(\<forall>b \<in> set (pr_bound p). port_of b \<noteq> main_port f (i + j)) \<and> pr_grants p (main_addr f (i + j))" if "j < Suc n" for j
    using that s(2,3) ss(7) by (cases j) auto
  moreover have "sv_addr s = main_addr f i" using s(1) by (simp add: server_of_def)
  ultimately show ?case using ss(1-5) s(1) by (intro exI [of _ "s # ss"]) simp
qed

lemma main_servers:
  assumes "main_program E K f p = Ret (servers, p')" "ports_ok f"
  shows "length servers = nat (fl_chains f)"
    "i < length servers \<Longrightarrow> server_of E f (pr_show p) i (servers ! i)"
    "i < length servers \<Longrightarrow> (\<forall>b \<in> set (pr_bound p). port_of b \<noteq> main_port f i) \<and> pr_grants p (main_addr f i)"
    "pr_bound p' = rev (map sv_addr servers) @ pr_bound p"
    "pr_log p' = pr_log p @ map (\<lambda>(j, s). ready_line s (fl_startChainID f + of_nat j)) (enumerate 0 servers)"
    "0 < fl_chains f \<Longrightarrow> printed_for E (fl_startChainID f) p p'"
proof -
  have "main_loop E K f 0 (nat (fl_chains f)) [] p = Ret (servers, p')"
    using assms(1) by (simp add: main_program_def split: if_splits)
  moreover have "main_port f (0 + j) \<notin> {'''', ''0''}" if "j < nat (fl_chains f)" for j
    using that main_port_fixed [OF assms(2), of j] by simp
  ultimately have m: "length servers = nat (fl_chains f)"
    "list_all (\<lambda>(j, s). server_of E f (pr_show p) j s) (enumerate 0 servers)"
    "pr_bound p' = rev (map sv_addr servers) @ pr_bound p"
    "pr_log p' = pr_log p @ map (\<lambda>(j, s). ready_line s (fl_startChainID f + of_nat j)) (enumerate 0 servers)"
    "if nat (fl_chains f) = 0 then p' = p else printed_for E (fl_startChainID f + of_nat 0) p p'"
    "\<forall>j < nat (fl_chains f). (\<forall>b \<in> set (pr_bound p). port_of b \<noteq> main_port f (0 + j)) \<and> pr_grants p (main_addr f (0 + j))"
    using main_loop_Ret [of E K f 0 "nat (fl_chains f)" "[]" p servers p'] by auto
  show "length servers = nat (fl_chains f)" "pr_bound p' = rev (map sv_addr servers) @ pr_bound p"
    "pr_log p' = pr_log p @ map (\<lambda>(j, s). ready_line s (fl_startChainID f + of_nat j)) (enumerate 0 servers)"
    by (fact m)+
  show "i < length servers \<Longrightarrow> server_of E f (pr_show p) i (servers ! i)"
    using m(2) by (auto simp: list_all_iff in_set_enumerate_eq)
  show "i < length servers \<Longrightarrow> (\<forall>b \<in> set (pr_bound p). port_of b \<noteq> main_port f i) \<and> pr_grants p (main_addr f i)"
    using m(1,6) by simp
  show "0 < fl_chains f \<Longrightarrow> printed_for E (fl_startChainID f) p p'" using m(5) by simp
qed

text \<open>
  Nothing goes wrong when the chains can be built, the keystore takes the keys, the ports are
  free and granted, and the system picks loopback ports outside the range of the servers.
\<close>

definition picks_ok :: "flags \<Rightarrow> string set \<Rightarrow> (string \<Rightarrow> bool) \<Rightarrow> (string list \<Rightarrow> string option) \<Rightarrow> bool" where
  "picks_ok f bound grants pick \<longleftrightarrow>
     (\<forall>bs. set bs \<subseteq> bound \<longrightarrow> (\<exists>port. pick bs = Some port \<and> CHR '':'' \<notin> set port \<and> grants (''127.0.0.1:'' @ port) \<and>
        (\<forall>b \<in> set bs. port_of b \<noteq> port) \<and> (\<forall>j. int j < fl_chains f \<longrightarrow> port \<noteq> main_port f j)))"

definition main_addrs :: "flags \<Rightarrow> string set" where
  "main_addrs f = main_addr f ` {j. int j < fl_chains f}"

definition sockets_free :: "flags \<Rightarrow> 'p process_scheme \<Rightarrow> bool" where
  "sockets_free f p \<longleftrightarrow>
     (\<forall>j. int j < fl_chains f \<longrightarrow> pr_grants p (main_addr f j) \<and> (\<forall>b \<in> set (pr_bound p). port_of b \<noteq> main_port f j)) \<and>
     picks_ok f (set (pr_bound p) \<union> main_addrs f) (pr_grants p) (pr_pick p)"

lemma New_main_returns:
  assumes "keystore_ok E K" "newMockChain E (fl_blocks f) c [] = Ret mc" "int i < fl_chains f" "ports_ok f"
    "pr_grants p (main_addr f i)" "\<forall>b \<in> set (pr_bound p). port_of b \<noteq> main_port f i"
    "picks_ok f bound (pr_grants p) (pr_pick p)" "set (pr_bound p) \<subseteq> bound"
  shows "\<exists>s p'. New E K c [srvWithBlocks (fl_blocks f), srvWithAddr (main_addr f i)] p = Ret (s, p')"
proof -
  obtain p1 where p1: "printOnce E K (validatorSeeds c 10) p = Ret p1" using printOnce_returns [OF assms(1)] by blast
  note q = printOnce_sockets [OF p1]
  have mc: "NewMockChain E K (fl_blocks f) c [] p = Ret (mc, p1)" using assms(2) p1 by (simp add: NewMockChain_Ret)
  obtain port where "pr_pick p (pr_bound p) = Some port" "CHR '':'' \<notin> set port" "pr_grants p (''127.0.0.1:'' @ port)"
    "\<forall>b \<in> set (pr_bound p). port_of b \<noteq> port" "port \<noteq> main_port f i"
    using assms(3,7,8) unfolding picks_ok_def by blast
  then have "server_listener (main_addr f i) p1 = Ret (main_addr f i, p1\<lparr>pr_bound := main_addr f i # pr_bound p1\<rparr>)"
    using assms(5,6) main_port_fixed [OF assms(4,3)] q
    by (intro server_listener_returns) (auto simp: main_addr_parts main_addr_conflicts)
  with mc show ?thesis by (simp add: New_main)
qed

lemma main_loop_returns:
  assumes "keystore_ok E K" "ports_ok f" "int (i + n) \<le> fl_chains f"
    "\<And>c. \<exists>mc. newMockChain E (fl_blocks f) c [] = Ret mc"
    "\<And>j. i \<le> j \<Longrightarrow> j < i + n \<Longrightarrow> pr_grants p (main_addr f j) \<and> (\<forall>b \<in> set (pr_bound p). port_of b \<noteq> main_port f j)"
    "picks_ok f bound (pr_grants p) (pr_pick p)" "set (pr_bound p) \<union> main_addrs f \<subseteq> bound"
  shows "\<exists>r. main_loop E K f i n servers p = Ret r"
  using assms(3,5-7)
proof (induction n arbitrary: i servers p)
  case 0
  then show ?case by simp
next
  case (Suc n)
  let ?c = "fl_startChainID f + of_nat i"
  have i: "int i < fl_chains f" using Suc.prems(1) by simp
  obtain mc where "newMockChain E (fl_blocks f) ?c [] = Ret mc" using assms(4) by blast
  then obtain s p1 where new: "New E K ?c [srvWithBlocks (fl_blocks f), srvWithAddr (main_addr f i)] p = Ret (s, p1)"
    using New_main_returns [OF assms(1) _ i assms(2), of ?c mc p bound] Suc.prems(2) [of i] Suc.prems(3,4) by auto
  note s = New_server_of [OF new main_port_fixed [OF assms(2) i]]
  let ?p = "log_Printf (ready_line s ?c) p1"
  have p: "pr_bound ?p = main_addr f i # pr_bound p" "pr_grants ?p = pr_grants p" "pr_pick ?p = pr_pick p"
    using s(4-6) by (simp_all add: log_Printf_def)
  have "\<exists>r. main_loop E K f (Suc i) n (servers @ [s]) ?p = Ret r"
  proof (rule Suc.IH)
    show "int (Suc i + n) \<le> fl_chains f" using Suc.prems(1) by simp
    show "picks_ok f bound (pr_grants ?p) (pr_pick ?p)" using Suc.prems(3) p by simp
    show "set (pr_bound ?p) \<union> main_addrs f \<subseteq> bound" using Suc.prems(4) p(1) i by (auto simp: main_addrs_def)
    fix j assume j: "Suc i \<le> j" "j < Suc i + n"
    have "main_port f i \<noteq> main_port f j" using main_port_inj [OF assms(2) i, of j] j Suc.prems(1) by auto
    then show "pr_grants ?p (main_addr f j) \<and> (\<forall>b \<in> set (pr_bound ?p). port_of b \<noteq> main_port f j)"
      using Suc.prems(2) [of j] j p by (auto simp: main_addr_parts)
  qed
  then show ?case by (simp add: new Let_def)
qed

text \<open>A port that is taken stops the program, after the servers before it have started.\<close>

lemma main_port_taken:
  assumes "ports_ok f" "int i < fl_chains f"
    "(\<exists>b \<in> set (pr_bound p). port_of b = main_port f i) \<or> \<not> pr_grants p (main_addr f i)"
  shows "\<nexists>r. main_program E K f p = Ret r"
proof
  assume "\<exists>r. main_program E K f p = Ret r"
  then obtain servers p' where r: "main_program E K f p = Ret (servers, p')" by fastforce
  have "i < length servers" using main_servers(1) [OF r assms(1)] assms(2) by linarith
  then show False using main_servers(3) [OF r assms(1)] assms(3) by blast
qed

text \<open>When the chains can be built, a listener that fails is the only other outcome.\<close>

lemma main_loop_outcome:
  assumes "keystore_ok E K" "\<And>c. \<exists>mc. newMockChain E (fl_blocks f) c [] = Ret mc"
  shows "(\<exists>r. main_loop E K f i n servers p = Ret r) \<or> main_loop E K f i n servers p = Panic ListenFailed"
proof (induction n arbitrary: i servers p)
  case 0
  then show ?case by simp
next
  case (Suc n)
  let ?c = "fl_startChainID f + of_nat i"
  obtain mc where mc: "newMockChain E (fl_blocks f) ?c [] = Ret mc" using assms(2) by blast
  obtain p1 where p1: "printOnce E K (validatorSeeds ?c 10) p = Ret p1" using printOnce_returns [OF assms(1)] by blast
  have n: "NewMockChain E K (fl_blocks f) ?c [] p = Ret (mc, p1)" using mc p1 by (simp add: NewMockChain_Ret)
  from server_listener_outcome [of "main_addr f i" p1] show ?case
  proof
    assume "\<exists>r. server_listener (main_addr f i) p1 = Ret r"
    then obtain l p2 where "server_listener (main_addr f i) p1 = Ret (l, p2)" by auto
    with n Suc.IH show ?thesis by (simp add: New_main Let_def)
  next
    assume "server_listener (main_addr f i) p1 = Panic ListenFailed"
    with n show ?thesis by (simp add: New_main Let_def)
  qed
qed

text \<open>The loopback listener that \<open>New\<close> opens first can take the very port it binds next.\<close>

lemma main_first_clash:
  assumes "keystore_ok E K" "\<exists>mc. newMockChain E (fl_blocks f) (fl_startChainID f) [] = Ret mc" "ports_ok f"
    "0 < fl_chains f" "8 * fl_chains f \<le> 2 ^ 48" "newLocalListener p = Some (l, p1)" "port_of l = main_port f 0"
  shows "main_program E K f p = Panic ListenFailed"
proof -
  let ?c = "fl_startChainID f"
  obtain mc where mc: "newMockChain E (fl_blocks f) ?c [] = Ret mc" using assms(2) by blast
  obtain q where q: "printOnce E K (validatorSeeds ?c 10) p = Ret q" using printOnce_returns [OF assms(1)] by blast
  note s = printOnce_sockets [OF q]
  have listen: "net_Listen a q = map_option (\<lambda>(l, _). (l, q\<lparr>pr_bound := l # pr_bound q\<rparr>)) (net_Listen a p)" for a
    using s by (auto simp: net_Listen_def resolve_addr_def split: option.splits)
  obtain p2 where "newLocalListener q = Some (l, p2)"
    using assms(6) unfolding newLocalListener_def listen by (auto split: option.splits)
  then have "server_listener (main_addr f 0) q = Panic ListenFailed"
    using assms(7) main_port_fixed [OF assms(3), of 0] assms(4)
    by (intro server_listener_clash) (auto simp: main_addr_conflicts main_addr_parts)
  then have new: "New E K ?c [srvWithBlocks (fl_blocks f), srvWithAddr (main_addr f 0)] p = Panic ListenFailed"
    using NewMockChain_Ret [of E K "fl_blocks f" ?c "[]" p mc q] mc q by (simp add: New_main)
  obtain n where "nat (fl_chains f) = Suc n" using assms(4) by (metis gr0_implies_Suc zero_less_nat_eq)
  then show ?thesis using assms(4,5) new by (simp add: main_program_def Let_def)
qed

section \<open>Closing\<close>

lemma New_sockets:
  assumes "New E K chainID opts p = Ret (s, p')"
  shows "pr_bound p' = sv_addr s # pr_bound p" "\<forall>b \<in> set (pr_bound p). \<not> conflicts (sv_addr s) b" "pr_printed p'"
proof -
  obtain mc p1 where n: "NewMockChain E K (sc_numBlocks (server_config opts)) chainID (chainOpts (server_config opts)) p = Ret (mc, p1)"
    "server_listener (sc_addr (server_config opts)) p1 = Ret (sv_addr s, p')"
    using assms by (auto simp: New_def Let_def go_bind_eq_Ret)
  obtain seeds where "printOnce E K seeds p = Ret p1" using n(1) by (auto simp: NewMockChain_Ret)
  note q = printOnce_sockets [OF this] and l = server_listener_Ret [OF n(2)]
  show "pr_bound p' = sv_addr s # pr_bound p" "\<forall>b \<in> set (pr_bound p). \<not> conflicts (sv_addr s) b" "pr_printed p'"
    using l(1,2) q by simp_all
qed

section \<open>One validator\<close>

lemma New_one_validator:
  assumes "env_ok E" "fair_source E" "keystore_ok E K" "sc_validatorCount (server_config opts) = 1"
  shows "New E K chainID opts p = Panic IndexOutOfRange"
proof -
  let ?o = "chainOpts (server_config opts)"
  have "validator_count (apply_options ?o) < 2"
    using assms(4) by (simp add: apply_chainOpts validator_count_def)
  note n = newMockChain_panics [OF assms(1,2) this]
  obtain p1 where "printOnce E K (validatorSeeds chainID (validator_count (apply_options ?o))) p = Ret p1"
    using printOnce_returns [OF assms(3)] by blast
  from NewMockChain_eq [OF this] n show ?thesis by (simp add: New_def Let_def)
qed

end
