(* ===== verification/MockState.thy ===== *)
theory MockState
  imports Chain
begin

text \<open>
  \<open>internal/chain/mock_state.go\<close>: the mutable ledger that the closed-form generators
  replaced and that the package still carries. Its maps are association lists, whose order
  stands for the iteration order of a Go map; the pools behind the map are updated in place.
\<close>

section \<open>State\<close>

record validatorInfo =
  vi_addr :: bytes
  vi_pubKey :: bytes
  vi_stake :: u64
  vi_paused :: bool
  vi_delegate :: bool
  vi_compound :: bool
  vi_unstakingAt :: u64
  vi_outputAddress :: bytes
  vi_netAddress :: string
  vi_committees :: "u64 list"

record mockState =
  st_chainID :: u64
  st_height :: u64
  st_accounts :: "(string, u64) gomap"
  st_validators :: "(string, validatorInfo) gomap"
  st_orderBooks :: "(u64, sell_order option list) gomap"
  st_pools :: "(u64, pool) gomap"
  st_params :: params
  st_committeeSet :: committees_data
  st_nonSigners :: "non_signer list option"
  st_doubleSign :: "double_signer list option"
  st_dexPrices :: "dex_price list"
  st_events :: "event list"
  st_delayedEvents :: "(u64, event list) gomap"

definition gm_of :: "('x \<Rightarrow> 'k) \<Rightarrow> ('x \<Rightarrow> 'v) \<Rightarrow> 'x list \<Rightarrow> ('k, 'v) gomap" where
  "gm_of key val xs = fold (\<lambda>x m. gm_put (key x) (val x) m) xs []"

definition info_of :: "validator \<Rightarrow> validatorInfo" where
  "info_of v =
     \<lparr>vi_addr = va_Address v, vi_pubKey = va_PublicKey v, vi_stake = va_StakedAmount v, vi_paused = False,
      vi_delegate = va_Delegate v, vi_compound = va_Compound v, vi_unstakingAt = va_UnstakingHeight v,
      vi_outputAddress = va_Output v, vi_netAddress = va_NetAddress v, vi_committees = va_Committees v\<rparr>"

definition newMockState ::
  "u64 \<Rightarrow> account list \<Rightarrow> validator list \<Rightarrow> pool list \<Rightarrow> params \<Rightarrow> order_book list \<Rightarrow> dex_price list \<Rightarrow>
   committees_data \<Rightarrow> mockState" where
  "newMockState chainID accounts validators pools parms books dexPrices committees =
     \<lparr>st_chainID = chainID, st_height = 0,
      st_accounts = gm_of (\<lambda>a. hex_encode (ac_Address a)) ac_Amount accounts,
      st_validators = gm_of (\<lambda>v. hex_encode (va_Address v)) info_of validators,
      st_orderBooks = gm_of ob_ChainId ob_Orders books,
      st_pools = gm_of po_Id id pools,
      st_params = parms, st_committeeSet = committees, st_nonSigners = None, st_doubleSign = None,
      st_dexPrices = dexPrices, st_events = [], st_delayedEvents = []\<rparr>"

section \<open>Events\<close>

definition buildEvent :: "string \<Rightarrow> event_msg option \<Rightarrow> u64 \<Rightarrow> u64 \<Rightarrow> bytes \<Rightarrow> string \<Rightarrow> event list" where
  "buildEvent typ msg height chainID addr reference =
     [\<lparr>ev_EventType = typ, ev_Msg = msg, ev_Height = height, ev_Reference = reference, ev_ChainId = chainID,
       ev_BlockHeight = height, ev_BlockHash = blockHash height, ev_Address = addr\<rparr>]"

definition addEvents :: "event list \<Rightarrow> event list \<Rightarrow> mockState \<Rightarrow> event list \<times> mockState" where
  "addEvents events newEvents s = (events @ newEvents, s\<lparr>st_events := st_events s @ newEvents\<rparr>)"

definition orderIDFromTxHash :: "bytes \<Rightarrow> bytes" where
  "orderIDFromTxHash txHash = (if length txHash < 20 then txHash else take 20 txHash)"

definition orderIDFromTxHashString :: "string \<Rightarrow> bytes" where
  "orderIDFromTxHashString txHash =
     (if txHash = '''' then []
      else case hex_decode txHash of None \<Rightarrow> [] | Some hashBytes \<Rightarrow> orderIDFromTxHash hashBytes)"

section \<open>Blocks\<close>

definition validatorsOrdered :: "mockState \<Rightarrow> validatorInfo list" where
  "validatorsOrdered s = sort_key (\<lambda>v. hex_encode (vi_addr v)) (map snd (st_validators s))"

definition pool_add :: "u64 \<Rightarrow> u64 \<Rightarrow> mockState \<Rightarrow> mockState" where
  "pool_add k amount s =
     (case gm_get (st_pools s) k of
        None \<Rightarrow> s
      | Some p \<Rightarrow> s\<lparr>st_pools := gm_put k (p\<lparr>po_Amount := po_Amount p + amount\<rparr>) (st_pools s)\<rparr>)"

definition beginBlock :: "'a env_scheme \<Rightarrow> u64 \<Rightarrow> mockState \<Rightarrow> (quorum_certificate \<times> mockState) go" where
  "beginBlock E height s =
     (let s = s\<lparr>st_height := height, st_events := [], st_doubleSign := None\<rparr>;
          s = pool_add 1 1000 s;
          vals = validatorsOrdered s;
          s = (if 2 \<le> length vals
               then s\<lparr>st_nonSigners := Some [\<lparr>ns_Address = vi_addr (vals ! 0), ns_Counter = height mod 3 + 1\<rparr>,
                                             \<lparr>ns_Address = vi_addr (vals ! 1), ns_Counter = height mod 2 + 1\<rparr>]\<rparr>
               else s);
          s = (if height mod 25 = 0 \<and> 0 < length vals
               then snd (addEvents [] (buildEvent (en_event_name E SlashEvent) (Some (EventSlash 100)) height
                      (st_chainID s) (vi_addr (vals ! 0)) ''BEGIN_BLOCK'') s)
               else s);
          s = (if height mod 30 = 0 \<and> 1 < length vals
               then s\<lparr>st_doubleSign := Some [\<lparr>ds_Id = vi_addr (vals ! 1), ds_Heights = [height - 1, height]\<rparr>]\<rparr>
               else s)
      in go_bind (go_nth (validatorsOrdered s) 0) (\<lambda>v0. go_bind (go_nth (validatorsOrdered s) 1) (\<lambda>v1.
        Ret (\<lparr>qc_Header = \<lparr>vw_NetworkId = mockNetworkID, vw_ChainId = st_chainID s, vw_Height = height,
                          vw_RootHeight = height, vw_Round = 1, vw_Phase = en_phase_precommit_vote E\<rparr>,
              qc_Results =
                \<lparr>cr_PaymentPercents = [payment (vi_addr v0) 60 (st_chainID s), payment (vi_addr v1) 40 (st_chainID s)],
                 cr_NumberOfSamples = height, cr_Orders = None, cr_CheckpointHeight = height,
                 cr_CheckpointBlockHash = blockHash height, cr_DexBatch = None, cr_DoubleSigners = None\<rparr>,
              qc_ResultsHash = [], qc_Block = [], qc_BlockHash = blockHash height, qc_ProposerKey = [],
              qc_Signature = [], qc_Bitmap = []\<rparr>, s))))"

text \<open>The delayed events of the height are handed out once.\<close>

definition endBlock :: "bytes \<Rightarrow> mockState \<Rightarrow> event list \<times> mockState" where
  "endBlock proposer s =
     (case gm_get (st_delayedEvents s) (st_height s) of
        Some (d # ds) \<Rightarrow> (st_events s @ d # ds,
          s\<lparr>st_delayedEvents := AList.delete (st_height s) (st_delayedEvents s)\<rparr>)
      | _ \<Rightarrow> (st_events s, s))"

section \<open>Snapshots\<close>

definition computeSupply :: "validator list \<Rightarrow> pool list \<Rightarrow> pool list \<Rightarrow> mockState \<Rightarrow> supply_info" where
  "computeSupply validators pools shared s =
     (let tot = foldl (+) 0 (map snd (st_accounts s));
          staked = foldl (+) 0 (map va_StakedAmount validators);
          tot = foldl (+) tot (map po_Amount pools)
      in \<lparr>su_Total = tot + staked, su_Staked = staked, su_DelegatedOnly = staked div 4,
          su_CommitteeStaked = shared, su_CommitteeDelegatedOnly = shared\<rparr>)"

definition account_of :: "string \<times> u64 \<Rightarrow> account" where
  "account_of kv = \<lparr>ac_Address = (case hex_decode (fst kv) of Some a \<Rightarrow> a | None \<Rightarrow> []), ac_Amount = snd kv\<rparr>"

definition validator_of :: "validatorInfo \<Rightarrow> validator" where
  "validator_of v =
     \<lparr>va_Address = vi_addr v, va_PublicKey = vi_pubKey v, va_NetAddress = vi_netAddress v,
      va_StakedAmount = vi_stake v, va_Committees = vi_committees v, va_MaxPausedHeight = 0,
      va_UnstakingHeight = vi_unstakingAt v, va_Output = vi_outputAddress v, va_Delegate = vi_delegate v,
      va_Compound = vi_compound v\<rparr>"

definition pool_view :: "'a env_scheme \<Rightarrow> u64 \<Rightarrow> pool \<Rightarrow> pool" where
  "pool_view E chainID p =
     (if po_Id p \<noteq> chainID + en_liquidity_addend E then p\<lparr>po_Points := [], po_TotalPoolPoints := 0\<rparr> else p)"

text \<open>
  \<open>sort.Slice\<close> orders the slice of pools that the supply already holds, so the supply shows
  the sorted one; the order books are sorted by their chain read as a signed integer.
\<close>

definition snapshot :: "'a env_scheme \<Rightarrow> mockState \<Rightarrow> genesis_state" where
  "snapshot E s =
     (let accounts = sort_key (\<lambda>a. hex_encode (ac_Address a)) (map account_of (st_accounts s));
          validators = map (\<lambda>kv. validator_of (snd kv)) (st_validators s);
          pools = map (\<lambda>kv. pool_view E (st_chainID s) (snd kv)) (st_pools s);
          sortedPools = sort_key po_Id pools;
          books = map (\<lambda>(k, orders). Some \<lparr>ob_ChainId = k, ob_Orders = orders\<rparr>)
                    (sort_key (\<lambda>kv. sint (fst kv)) (st_orderBooks s))
      in \<lparr>gs_Time = of_int (blockTimeMicro (st_height s)),
          gs_Pools = sortedPools,
          gs_Accounts = accounts,
          gs_Validators = sort_key (\<lambda>v. hex_encode (va_Address v)) validators,
          gs_Params = st_params s,
          gs_Supply = computeSupply validators pools sortedPools s,
          gs_Committees = st_committeeSet s,
          gs_OrderBooks = \<lparr>obs_OrderBooks = books\<rparr>,
          gs_NonSigners = st_nonSigners s,
          gs_DoubleSigners = st_doubleSign s,
          gs_RetiredCommittees = [42]\<rparr>)"

section \<open>Dex batches\<close>

definition applyBatchOrders :: "'a env_scheme \<Rightarrow> dex_limit_order list \<Rightarrow> mockState \<Rightarrow> mockState" where
  "applyBatchOrders E orders s =
     fold (\<lambda>o' s. pool_add (st_chainID s + en_holding_addend E) (lo_AmountForSale o') s) orders s"

definition applyDeposit :: "'a env_scheme \<Rightarrow> dex_deposit \<Rightarrow> mockState \<Rightarrow> mockState" where
  "applyDeposit E d s =
     (let liqID = st_chainID s + en_liquidity_addend E;
          s = (case gm_get (st_pools s) liqID of
                 None \<Rightarrow> s
               | Some pool \<Rightarrow>
                   let share = de_Amount d div 10 in
                   s\<lparr>st_pools := gm_put liqID
                       (pool\<lparr>po_Amount := po_Amount pool + de_Amount d,
                             po_TotalPoolPoints := po_TotalPoolPoints pool + share,
                             po_Points := po_Points pool @ [\<lparr>pt_Address = de_Address d, pt_Points = share\<rparr>]\<rparr>)
                       (st_pools s)\<rparr>);
          holdingID = st_chainID s + en_holding_addend E
      in case gm_get (st_pools s) holdingID of
           None \<Rightarrow> s
         | Some hold \<Rightarrow>
             if de_Amount d \<le> po_Amount hold
             then s\<lparr>st_pools := gm_put holdingID (hold\<lparr>po_Amount := po_Amount hold - de_Amount d\<rparr>) (st_pools s)\<rparr>
             else s)"

definition applyBatchDeposits :: "'a env_scheme \<Rightarrow> dex_deposit list \<Rightarrow> mockState \<Rightarrow> mockState" where
  "applyBatchDeposits E deposits s = fold (applyDeposit E) deposits s"

record dexWithdrawalResult =
  dw_localAmount :: u64
  dw_pointsBurned :: u64

definition points_of :: "(bytes, u64) gomap \<Rightarrow> bytes \<Rightarrow> u64" where
  "points_of m a = (case gm_get m a of Some p \<Rightarrow> p | None \<Rightarrow> 0)"

definition burn_of :: "'a env_scheme \<Rightarrow> u64 \<Rightarrow> u64 \<Rightarrow> u64" where
  "burn_of E points percent =
     (let percent = (if 100 < percent then 100 else percent);
          burn = en_safe_mul_div E points percent 100
      in if points < burn then points else burn)"

text \<open>The first loop: the remaining points, the running total, and one result per withdrawal.\<close>

fun withdraw_loop ::
  "'a env_scheme \<Rightarrow> u64 \<Rightarrow> u64 \<Rightarrow> dex_withdraw list \<Rightarrow> (bytes, u64) gomap \<Rightarrow> u64 \<Rightarrow>
   dexWithdrawalResult list \<times> u64" where
  "withdraw_loop E amount points [] m acc = ([], acc)"
| "withdraw_loop E amount points (w # ws) m acc =
     (let held = points_of m (wi_Address w);
          burn = burn_of E held (wi_Percent w);
          m' = (if 0 < burn then gm_put (wi_Address w) (held - burn) m else m);
          withdraw = en_safe_mul_div E amount burn points;
          (results, acc') = withdraw_loop E amount points ws m' (acc + withdraw)
      in (\<lparr>dw_localAmount = withdraw, dw_pointsBurned = burn\<rparr> # results, acc'))"

definition zero_result :: dexWithdrawalResult where
  "zero_result = \<lparr>dw_localAmount = 0, dw_pointsBurned = 0\<rparr>"

definition remove_burned ::
  "'a env_scheme \<Rightarrow> dex_withdraw list \<Rightarrow> dexWithdrawalResult list \<Rightarrow> pool \<Rightarrow> pool" where
  "remove_burned E ws results p =
     fold (\<lambda>(w, r) p. if dw_pointsBurned r = 0 then p else en_remove_points E p (wi_Address w) (dw_pointsBurned r))
       (zip ws results) p"

definition applyBatchWithdrawals ::
  "'a env_scheme \<Rightarrow> dex_withdraw list \<Rightarrow> mockState \<Rightarrow> dexWithdrawalResult list \<times> mockState" where
  "applyBatchWithdrawals E withdrawals s =
     (let liqID = st_chainID s + en_liquidity_addend E; zeros = map (\<lambda>_. zero_result) withdrawals in
      case gm_get (st_pools s) liqID of
        None \<Rightarrow> (zeros, s)
      | Some pool \<Rightarrow>
          if po_TotalPoolPoints pool = 0 \<or> po_Amount pool = 0 then (zeros, s)
          else
            let pointsByAddress = gm_of pt_Address pt_Points (po_Points pool);
                (results, totalWithdrawn) =
                  withdraw_loop E (po_Amount pool) (po_TotalPoolPoints pool) withdrawals pointsByAddress 0;
                pool = pool\<lparr>po_Amount := (if totalWithdrawn < po_Amount pool
                               then po_Amount pool - totalWithdrawn else 0)\<rparr>;
                pool = remove_burned E withdrawals results pool
            in (results, s\<lparr>st_pools := gm_put liqID pool (st_pools s)\<rparr>))"

definition mustAny :: "'a env_scheme \<Rightarrow> fsm_message \<Rightarrow> bytes option" where
  "mustAny E msg = en_any_new E msg"

end
