(* ===== verification/MockStateProps.thy ===== *)
theory MockStateProps
  imports MockState "HOL-Library.Multiset"
begin

text \<open>
  The mutable ledger: what a snapshot shows does not depend on the iteration order of the
  maps, a new ledger's snapshot returns the accounts it was made from, deposits keep the
  points of a pool consistent, withdrawals never take more than the pool holds, and delayed
  events are handed out once.
\<close>

section \<open>Maps built from lists\<close>

lemma gm_put_append: "k \<notin> fst ` set m \<Longrightarrow> gm_put k v m = m @ [(k, v)]"
  unfolding gm_put_def by (induction m) auto

lemma gm_of_fold:
  "distinct (map key xs) \<Longrightarrow> key ` set xs \<inter> fst ` set m = {} \<Longrightarrow>
   fold (\<lambda>x m. gm_put (key x) (val x) m) xs m = m @ map (\<lambda>x. (key x, val x)) xs"
proof (induction xs arbitrary: m)
  case Nil
  then show ?case by simp
next
  case (Cons x xs)
  have "gm_put (key x) (val x) m = m @ [(key x, val x)]" using Cons.prems by (intro gm_put_append) auto
  then show ?case using Cons.prems by (simp add: Cons.IH)
qed

lemma gm_of_distinct: "distinct (map key xs) \<Longrightarrow> gm_of key val xs = map (\<lambda>x. (key x, val x)) xs"
  using gm_of_fold [of key xs "[]" val] by (simp add: gm_of_def)

lemma gm_ok_gm_of: "gm_ok (gm_of key val xs)"
proof -
  have "gm_ok m \<Longrightarrow> gm_ok (fold (\<lambda>x m. gm_put (key x) (val x) m) xs m)" for m
    by (induction xs arbitrary: m) (auto intro: gm.ok_put)
  then show ?thesis unfolding gm_of_def using gm.ok_empty by blast
qed

section \<open>A new ledger shows the accounts it was made from\<close>

lemma hex_encode_eq: "hex_encode a = hex_encode b \<longleftrightarrow> a = b"
  by (metis hex_decode_encode option.inject)

lemma distinct_hex: "distinct (map f xs) \<Longrightarrow> distinct (map (\<lambda>x. hex_encode (f x)) xs)"
  by (auto simp: distinct_map inj_on_def hex_encode_eq)

lemma snapshot_new_accounts:
  assumes "distinct (map ac_Address accounts)"
  shows "gs_Accounts (snapshot E (newMockState c accounts vs ps pa bs dp cs)) =
    sort_key (\<lambda>a. hex_encode (ac_Address a)) accounts"
proof -
  have "map account_of (map (\<lambda>a. (hex_encode (ac_Address a), ac_Amount a)) accounts) = accounts"
    unfolding map_map by (rule map_idI) (simp add: account_of_def hex_decode_encode)
  then have "map account_of (gm_of (\<lambda>a. hex_encode (ac_Address a)) ac_Amount accounts) = accounts"
    using assms by (simp only: gm_of_distinct distinct_hex)
  then show ?thesis by (simp add: snapshot_def newMockState_def Let_def)
qed

section \<open>The iteration order of the maps does not show\<close>

definition keyed_by :: "('v \<Rightarrow> 'k) \<Rightarrow> ('k, 'v) gomap \<Rightarrow> bool" where
  "keyed_by key m \<longleftrightarrow> (\<forall>(k, v) \<in> set m. key v = k)"

definition ledger_ok :: "mockState \<Rightarrow> bool" where
  "ledger_ok s \<longleftrightarrow>
     gm_ok (st_accounts s) \<and> gm_ok (st_validators s) \<and> gm_ok (st_pools s) \<and> gm_ok (st_orderBooks s) \<and>
     (\<forall>(k, v) \<in> set (st_accounts s). \<exists>a. k = hex_encode a) \<and>
     keyed_by (\<lambda>v. hex_encode (vi_addr v)) (st_validators s) \<and> keyed_by po_Id (st_pools s)"

definition same_maps :: "mockState \<Rightarrow> mockState \<Rightarrow> bool" where
  "same_maps s t \<longleftrightarrow>
     mset (st_accounts s) = mset (st_accounts t) \<and> mset (st_validators s) = mset (st_validators t) \<and>
     mset (st_pools s) = mset (st_pools t) \<and> mset (st_orderBooks s) = mset (st_orderBooks t) \<and>
     st_chainID s = st_chainID t \<and> st_height s = st_height t \<and> st_params s = st_params t \<and>
     st_committeeSet s = st_committeeSet t \<and> st_nonSigners s = st_nonSigners t \<and> st_doubleSign s = st_doubleSign t"

lemma sort_map_cong:
  assumes "mset xs = mset ys" "distinct (map fst xs)" "\<And>x y. x \<in> set xs \<Longrightarrow> y \<in> set xs \<Longrightarrow> f (g x) = f (g y) \<Longrightarrow> fst x = fst y"
  shows "sort_key f (map g xs) = sort_key f (map g ys)"
proof (rule sort_key_eq_sort_key)
  show "mset (map g xs) = mset (map g ys)" using assms(1) by simp
  have "x = y" if "x \<in> set xs" "y \<in> set xs" "f (g x) = f (g y)" for x y
    using assms(2) assms(3) [OF that] that(1,2) by (auto simp: distinct_map inj_on_def)
  then show "inj_on f (set (map g xs))" by (auto simp: inj_on_def)
qed

lemma sum_list_mset: "mset xs = mset ys \<Longrightarrow> sum_list (map f xs) = sum_list (map (f :: _ \<Rightarrow> u64) ys)"
  by (metis mset_map sum_mset_sum_list)

lemma sum_list_accounts: "foldl (+) a xs = a + sum_list (xs :: u64 list)"
  by (rule foldl_plus_sum_list)

lemma snapshot_order_independent:
  assumes "ledger_ok s" "same_maps s t"
  shows "snapshot E s = snapshot E t"
proof -
  have m: "mset (st_accounts s) = mset (st_accounts t)" "mset (st_validators s) = mset (st_validators t)"
    "mset (st_pools s) = mset (st_pools t)" "mset (st_orderBooks s) = mset (st_orderBooks t)"
    using assms(2) by (simp_all add: same_maps_def)
  have d: "distinct (map fst (st_accounts s))" "distinct (map fst (st_validators s))"
    "distinct (map fst (st_pools s))" "distinct (map fst (st_orderBooks s))"
    using assms(1) by (simp_all add: ledger_ok_def gm_ok_def)
  have accounts: "sort_key (\<lambda>a. hex_encode (ac_Address a)) (map account_of (st_accounts s)) =
      sort_key (\<lambda>a. hex_encode (ac_Address a)) (map account_of (st_accounts t))"
  proof (rule sort_map_cong [OF m(1) d(1)])
    fix x y assume xy: "x \<in> set (st_accounts s)" "y \<in> set (st_accounts s)"
      "hex_encode (ac_Address (account_of x)) = hex_encode (ac_Address (account_of y))"
    obtain a b where "fst x = hex_encode a" "fst y = hex_encode b"
      using assms(1) xy(1,2) unfolding ledger_ok_def by fastforce
    with xy(3) show "fst x = fst y" by (simp add: account_of_def hex_decode_encode hex_encode_eq)
  qed
  have keys: "\<And>x. x \<in> set (st_validators s) \<Longrightarrow> hex_encode (vi_addr (snd x)) = fst x"
    "\<And>x. x \<in> set (st_pools s) \<Longrightarrow> po_Id (snd x) = fst x"
    using assms(1) by (auto simp: ledger_ok_def keyed_by_def)
  have validators: "sort_key (\<lambda>v. hex_encode (va_Address v)) (map (\<lambda>kv. validator_of (snd kv)) (st_validators s)) =
      sort_key (\<lambda>v. hex_encode (va_Address v)) (map (\<lambda>kv. validator_of (snd kv)) (st_validators t))"
    by (rule sort_map_cong [OF m(2) d(2)]) (simp add: validator_of_def keys(1))
  have ident: "po_Id (pool_view E c p) = po_Id p" for c p by (simp add: pool_view_def)
  have pools: "sort_key po_Id (map (\<lambda>kv. pool_view E c (snd kv)) (st_pools s)) =
      sort_key po_Id (map (\<lambda>kv. pool_view E c (snd kv)) (st_pools t))" for c
    by (rule sort_map_cong [OF m(3) d(3)]) (simp add: ident keys(2))
  have "sort_key (\<lambda>kv. sint (fst kv)) (map id (st_orderBooks s)) = sort_key (\<lambda>kv. sint (fst kv)) (map id (st_orderBooks t))"
    by (rule sort_map_cong [OF m(4) d(4)]) (simp add: signed_word_eqI)
  then have books: "sort_key (\<lambda>kv. sint (fst kv)) (st_orderBooks s) = sort_key (\<lambda>kv. sint (fst kv)) (st_orderBooks t)"
    by simp
  have sums: "sum_list (map snd (st_accounts s)) = sum_list (map snd (st_accounts t))"
    "sum_list (map (\<lambda>kv. va_StakedAmount (validator_of (snd kv))) (st_validators s)) =
     sum_list (map (\<lambda>kv. va_StakedAmount (validator_of (snd kv))) (st_validators t))"
    "sum_list (map (\<lambda>kv. po_Amount (pool_view E c (snd kv))) (st_pools s)) =
     sum_list (map (\<lambda>kv. po_Amount (pool_view E c (snd kv))) (st_pools t))" for c
    using m(1-3) by (auto intro: sum_list_mset)
  have rest: "st_chainID s = st_chainID t" "st_height s = st_height t" "st_params s = st_params t"
    "st_committeeSet s = st_committeeSet t" "st_nonSigners s = st_nonSigners t" "st_doubleSign s = st_doubleSign t"
    using assms(2) by (simp_all add: same_maps_def)
  show ?thesis
    by (simp add: snapshot_def Let_def accounts validators pools books rest computeSupply_def sum_list_accounts
        sums o_def)
qed

text \<open>A new ledger is well formed whenever its lists have no duplicates, or even when they do.\<close>

lemma gm_of_entries: "kv \<in> set (gm_of key val xs) \<Longrightarrow> \<exists>x \<in> set xs. kv = (key x, val x)"
proof -
  have upd: "q \<in> set (gm_put k v m) \<Longrightarrow> q = (k, v) \<or> q \<in> set m" for q k v m
    unfolding gm_put_def by (induction m) (auto split: if_splits)
  have "kv \<in> set (fold (\<lambda>x m. gm_put (key x) (val x) m) xs m) \<Longrightarrow> (\<exists>x \<in> set xs. kv = (key x, val x)) \<or> kv \<in> set m" for m
  proof (induction xs arbitrary: m)
    case (Cons x xs)
    then show ?case using upd [of kv "key x" "val x" m] by fastforce
  qed simp
  then show "kv \<in> set (gm_of key val xs) \<Longrightarrow> \<exists>x \<in> set xs. kv = (key x, val x)"
    by (fastforce simp: gm_of_def)
qed

lemma newMockState_ok: "ledger_ok (newMockState c accounts vs ps pa bs dp cs)"
  by (auto simp: ledger_ok_def newMockState_def gm_ok_gm_of keyed_by_def info_of_def dest!: gm_of_entries)

section \<open>Blocks\<close>

lemma beginBlock_panics:
  "length (st_validators s) < 2 \<Longrightarrow> beginBlock E h s = Panic IndexOutOfRange"
proof -
  assume "length (st_validators s) < 2"
  then have l: "length (validatorsOrdered t) < 2" if "st_validators t = st_validators s" for t
    using that by (simp add: validatorsOrdered_def)
  have p: "st_validators (pool_add k a t) = st_validators t" for k a t
    by (simp add: pool_add_def split: option.split)
  have go: "go_bind (go_nth xs 0) (\<lambda>v0. go_bind (go_nth xs 1) (f v0)) = Panic IndexOutOfRange" if "length xs < 2" for xs :: "validatorInfo list" and f :: "_ \<Rightarrow> _ \<Rightarrow> (quorum_certificate \<times> mockState) go"
    using that by (cases xs) auto
  show ?thesis unfolding beginBlock_def Let_def
    by (rule go, rule l) (simp add: p addEvents_def)
qed

text \<open>Height zero counts as a multiple of 30 here, and the heights reported wrap around.\<close>

lemma endBlock_once:
  assumes "endBlock p s = (evs, s')"
  shows "endBlock q s' = (st_events s, s')"
proof -
  have "gm_get (AList.delete k m) k = None" for k and m :: "(u64, event list) gomap"
    by (simp add: gm_get_def AList.delete_conv')
  then show ?thesis
    using assms by (auto simp: endBlock_def split: option.splits list.splits)
qed

lemma endBlock_events:
  assumes "endBlock p s = (evs, s')"
  shows "evs = st_events s @ (case gm_get (st_delayedEvents s) (st_height s) of Some ds \<Rightarrow> ds | None \<Rightarrow> [])"
  using assms by (auto simp: endBlock_def split: option.splits list.splits)

section \<open>Order identifiers\<close>

lemma orderID_of_hash: "txHash \<noteq> [] \<Longrightarrow> orderIDFromTxHashString (hex_encode txHash) = take 20 txHash"
proof -
  assume "txHash \<noteq> []"
  then have "hex_encode txHash \<noteq> []" by (cases txHash) (simp_all add: hex_encode_def)
  then show ?thesis by (simp add: orderIDFromTxHashString_def orderIDFromTxHash_def hex_decode_encode)
qed

section \<open>Pool points\<close>

text \<open>Every pool's total is the sum of its points; deposits and orders keep it so.\<close>

definition points_ok :: "mockState \<Rightarrow> bool" where
  "points_ok s \<longleftrightarrow> gm_ok (st_pools s) \<and>
     (\<forall>k p. gm_get (st_pools s) k = Some p \<longrightarrow> sum_list (map pt_Points (po_Points p)) = po_TotalPoolPoints p)"

lemma points_ok_put:
  assumes "points_ok s" "sum_list (map pt_Points (po_Points p)) = po_TotalPoolPoints p"
  shows "points_ok (s\<lparr>st_pools := gm_put k p (st_pools s)\<rparr>)"
  using assms by (auto simp: points_ok_def gm.get_put intro: gm.ok_put split: if_splits)

lemma points_ok_get: "points_ok s \<Longrightarrow> gm_get (st_pools s) k = Some p \<Longrightarrow>
    sum_list (map pt_Points (po_Points p)) = po_TotalPoolPoints p"
  by (simp add: points_ok_def)

lemma points_ok_pool_add:
  assumes "points_ok s"
  shows "points_ok (pool_add k a s)"
proof (cases "gm_get (st_pools s) k")
  case None
  with assms show ?thesis by (simp add: pool_add_def)
next
  case (Some p)
  have "points_ok (s\<lparr>st_pools := gm_put k (p\<lparr>po_Amount := po_Amount p + a\<rparr>) (st_pools s)\<rparr>)"
    by (rule points_ok_put [OF assms]) (simp add: points_ok_get [OF assms Some])
  with Some show ?thesis by (simp add: pool_add_def)
qed

definition credit_liquidity :: "u64 \<Rightarrow> dex_deposit \<Rightarrow> mockState \<Rightarrow> mockState" where
  "credit_liquidity k d s =
     (case gm_get (st_pools s) k of
        None \<Rightarrow> s
      | Some pool \<Rightarrow>
          s\<lparr>st_pools := gm_put k
            (pool\<lparr>po_Amount := po_Amount pool + de_Amount d,
                  po_TotalPoolPoints := po_TotalPoolPoints pool + de_Amount d div 10,
                  po_Points := po_Points pool @ [\<lparr>pt_Address = de_Address d, pt_Points = de_Amount d div 10\<rparr>]\<rparr>)
            (st_pools s)\<rparr>)"

definition debit_holding :: "u64 \<Rightarrow> dex_deposit \<Rightarrow> mockState \<Rightarrow> mockState" where
  "debit_holding k d s =
     (case gm_get (st_pools s) k of
        None \<Rightarrow> s
      | Some hold \<Rightarrow>
          if de_Amount d \<le> po_Amount hold
          then s\<lparr>st_pools := gm_put k (hold\<lparr>po_Amount := po_Amount hold - de_Amount d\<rparr>) (st_pools s)\<rparr>
          else s)"

lemma applyDeposit_steps:
  "applyDeposit E d s = debit_holding (st_chainID s + en_holding_addend E) d
     (credit_liquidity (st_chainID s + en_liquidity_addend E) d s)"
  by (simp add: applyDeposit_def credit_liquidity_def debit_holding_def Let_def split: option.split)

lemma points_ok_credit: "points_ok s \<Longrightarrow> points_ok (credit_liquidity k d s)"
  unfolding credit_liquidity_def
  by (cases "gm_get (st_pools s) k") (auto intro!: points_ok_put dest: points_ok_get)

lemma points_ok_debit: "points_ok s \<Longrightarrow> points_ok (debit_holding k d s)"
  unfolding debit_holding_def
  by (cases "gm_get (st_pools s) k") (auto intro!: points_ok_put dest: points_ok_get)

lemma points_ok_deposit: "points_ok s \<Longrightarrow> points_ok (applyDeposit E d s)"
  by (simp add: applyDeposit_steps points_ok_credit points_ok_debit)

lemma batches_keep_points:
  assumes "points_ok s"
  shows "points_ok (applyBatchOrders E orders s)" "points_ok (applyBatchDeposits E deposits s)"
proof -
  have "points_ok t \<Longrightarrow> points_ok (fold (\<lambda>o' s. pool_add (st_chainID s + en_holding_addend E) (lo_AmountForSale o') s) orders t)" for t
    by (induction orders arbitrary: t) (auto intro: points_ok_pool_add)
  with assms show "points_ok (applyBatchOrders E orders s)" by (simp add: applyBatchOrders_def)
  have "points_ok t \<Longrightarrow> points_ok (fold (applyDeposit E) deposits t)" for t
    by (induction deposits arbitrary: t) (auto intro: points_ok_deposit)
  with assms show "points_ok (applyBatchDeposits E deposits s)" by (simp add: applyBatchDeposits_def)
qed

text \<open>
  A deposit moves its amount from the holding pool to the liquidity pool; when the holding
  pool does not have it, the liquidity pool is credited all the same.
\<close>

definition pool_amount :: "mockState \<Rightarrow> u64 \<Rightarrow> u64" where
  "pool_amount s k = (case gm_get (st_pools s) k of Some p \<Rightarrow> po_Amount p | None \<Rightarrow> 0)"

lemma deposit_amounts:
  assumes "gm_ok (st_pools s)" "gm_get (st_pools s) (st_chainID s + en_liquidity_addend E) = Some liq"
    "gm_get (st_pools s) (st_chainID s + en_holding_addend E) = Some hold"
    "en_liquidity_addend E \<noteq> en_holding_addend E"
  shows "pool_amount (applyDeposit E d s) (st_chainID s + en_liquidity_addend E) = po_Amount liq + de_Amount d"
    "pool_amount (applyDeposit E d s) (st_chainID s + en_holding_addend E) =
       (if de_Amount d \<le> po_Amount hold then po_Amount hold - de_Amount d else po_Amount hold)"
  using assms gm.ok_put [OF assms(1)]
  by (auto simp: applyDeposit_def Let_def pool_amount_def gm.get_put)

lemma deposit_pools:
  assumes "gm_ok (st_pools s)" "gm_get (st_pools s) (st_chainID s + en_liquidity_addend E) = Some liq"
    "gm_get (st_pools s) (st_chainID s + en_holding_addend E) = Some hold"
    "en_liquidity_addend E \<noteq> en_holding_addend E"
  obtains liq' hold' where "gm_ok (st_pools (applyDeposit E d s))" "st_chainID (applyDeposit E d s) = st_chainID s"
    "gm_get (st_pools (applyDeposit E d s)) (st_chainID s + en_liquidity_addend E) = Some liq'"
    "gm_get (st_pools (applyDeposit E d s)) (st_chainID s + en_holding_addend E) = Some hold'"
    "po_Amount liq' = po_Amount liq + de_Amount d"
    "po_Amount hold' = (if de_Amount d \<le> po_Amount hold then po_Amount hold - de_Amount d else po_Amount hold)"
proof -
  have e: "gm_ok (st_pools (applyDeposit E d s))" "st_chainID (applyDeposit E d s) = st_chainID s"
    "gm_get (st_pools (applyDeposit E d s)) (st_chainID s + en_liquidity_addend E) \<noteq> None"
    "gm_get (st_pools (applyDeposit E d s)) (st_chainID s + en_holding_addend E) \<noteq> None"
    using assms gm.ok_put [OF assms(1)] by (auto simp: applyDeposit_def Let_def gm.get_put gm.ok_put)
  then obtain liq' hold' where g: "gm_get (st_pools (applyDeposit E d s)) (st_chainID s + en_liquidity_addend E) = Some liq'"
    "gm_get (st_pools (applyDeposit E d s)) (st_chainID s + en_holding_addend E) = Some hold'"
    by blast
  with deposit_amounts [OF assms, of d] show thesis by (intro that [OF e(1,2) g]) (simp_all add: pool_amount_def)
qed

definition deposited :: "dex_deposit list \<Rightarrow> nat" where
  "deposited ds = sum_list (map (\<lambda>d. unat (de_Amount d)) ds)"

text \<open>A batch that the holding pool covers moves its units; any other batch adds units.\<close>

lemma deposits_accounting:
  assumes "gm_ok (st_pools s)" "gm_get (st_pools s) (st_chainID s + en_liquidity_addend E) = Some liq"
    "gm_get (st_pools s) (st_chainID s + en_holding_addend E) = Some hold"
    "en_liquidity_addend E \<noteq> en_holding_addend E" "unat (po_Amount liq) + deposited ds < 2 ^ 64"
  defines "s' \<equiv> fold (applyDeposit E) ds s"
  shows "unat (pool_amount s' (st_chainID s + en_liquidity_addend E)) = unat (po_Amount liq) + deposited ds \<and>
    (if deposited ds \<le> unat (po_Amount hold)
     then unat (pool_amount s' (st_chainID s + en_holding_addend E)) + deposited ds = unat (po_Amount hold)
     else unat (po_Amount hold) < unat (pool_amount s' (st_chainID s + en_holding_addend E)) + deposited ds)"
  using assms(1-3,5) unfolding s'_def
proof (induction ds arbitrary: s liq hold)
  case Nil
  then show ?case by (simp add: pool_amount_def deposited_def)
next
  case (Cons d ds)
  obtain liq' hold' where n: "gm_ok (st_pools (applyDeposit E d s))" "st_chainID (applyDeposit E d s) = st_chainID s"
    "gm_get (st_pools (applyDeposit E d s)) (st_chainID s + en_liquidity_addend E) = Some liq'"
    "gm_get (st_pools (applyDeposit E d s)) (st_chainID s + en_holding_addend E) = Some hold'"
    "po_Amount liq' = po_Amount liq + de_Amount d"
    "po_Amount hold' = (if de_Amount d \<le> po_Amount hold then po_Amount hold - de_Amount d else po_Amount hold)"
    by (rule deposit_pools [OF Cons.prems(1-3) assms(4)])
  have l: "unat (po_Amount liq') = unat (po_Amount liq) + unat (de_Amount d)"
    using Cons.prems(4) unfolding n(5) by (intro unat_add_no_wrap) (simp add: deposited_def)
  have h: "unat (po_Amount hold') = (if unat (de_Amount d) \<le> unat (po_Amount hold)
      then unat (po_Amount hold) - unat (de_Amount d) else unat (po_Amount hold))"
    unfolding n(6) by (simp add: word_le_nat_alt unat_sub_no_wrap)
  have d: "deposited (d # ds) = unat (de_Amount d) + deposited ds" by (simp add: deposited_def)
  have "unat (po_Amount liq') + deposited ds < 2 ^ 64" using Cons.prems(4) l d by simp
  with Cons.IH [of "applyDeposit E d s" liq' hold'] n(1-4) l h d show ?case by (auto split: if_splits)
qed

section \<open>Withdrawals\<close>

text \<open>What the ledger relies on in \<open>SafeMulDiv\<close>: the truncated quotient of the exact product.\<close>

definition muldiv_ok :: "'a env_scheme \<Rightarrow> bool" where
  "muldiv_ok E \<longleftrightarrow> (\<forall>a b c. c \<noteq> 0 \<longrightarrow> unat a * unat b div unat c < 2 ^ 64 \<longrightarrow>
     unat (en_safe_mul_div E a b c) = unat a * unat b div unat c)"

definition held_sum :: "(bytes, u64) gomap \<Rightarrow> nat" where
  "held_sum m = sum_list (map (\<lambda>kv. unat (snd kv)) m)"

lemma held_sum_put: "gm_ok m \<Longrightarrow> gm_get m k = Some v \<Longrightarrow> held_sum (gm_put k v' m) + unat v = held_sum m + unat v'"
proof (induction m)
  case Nil
  then show ?case by (simp add: gm_get_def)
next
  case (Cons kv m)
  then show ?case
    by (cases kv) (auto simp: held_sum_def gm_get_def gm_put_def gm_ok_def split: if_splits)
qed

lemma held_sum_put_le: "held_sum (gm_put k v m) \<le> held_sum m + unat v"
  by (induction m) (auto simp: held_sum_def gm_put_def)

lemma held_sum_gm_of: "held_sum (gm_of pt_Address pt_Points ps) \<le> sum_list (map (\<lambda>p. unat (pt_Points p)) ps)"
proof -
  have "held_sum (fold (\<lambda>x m. gm_put (pt_Address x) (pt_Points x) m) ps m) \<le>
      held_sum m + sum_list (map (\<lambda>p. unat (pt_Points p)) ps)" for m
  proof (induction ps arbitrary: m)
    case (Cons x ps)
    have "held_sum (fold (\<lambda>x m. gm_put (pt_Address x) (pt_Points x) m) ps (gm_put (pt_Address x) (pt_Points x) m)) \<le>
        held_sum (gm_put (pt_Address x) (pt_Points x) m) + sum_list (map (\<lambda>p. unat (pt_Points p)) ps)"
      by (rule Cons.IH)
    also have "\<dots> \<le> held_sum m + unat (pt_Points x) + sum_list (map (\<lambda>p. unat (pt_Points p)) ps)"
      by (intro add_right_mono held_sum_put_le)
    finally show ?case by simp
  qed simp
  from this [of "[]"] show ?thesis by (simp add: gm_of_def held_sum_def)
qed

lemma burn_le_held: "burn_of E held percent \<le> held"
  by (auto simp: burn_of_def Let_def)

lemma burn_keeps_sum:
  assumes "gm_ok m" "burn \<le> points_of m a"
  shows "held_sum (if 0 < burn then gm_put a (points_of m a - burn) m else m) + unat burn = held_sum m"
    "gm_ok (if 0 < burn then gm_put a (points_of m a - burn) m else m)"
proof -
  show "gm_ok (if 0 < burn then gm_put a (points_of m a - burn) m else m)" using assms(1) by (auto intro: gm.ok_put)
  show "held_sum (if 0 < burn then gm_put a (points_of m a - burn) m else m) + unat burn = held_sum m"
  proof (cases "0 < burn")
    case True
    then have "points_of m a \<noteq> 0" using assms(2) by auto
    then obtain v where v: "gm_get m a = Some v" "points_of m a = v" by (auto simp: points_of_def split: option.splits)
    have "unat (v - burn) = unat v - unat burn" "unat burn \<le> unat v"
      using assms(2) v(2) by (simp_all add: unat_sub word_le_nat_alt)
    with held_sum_put [OF assms(1) v(1), of "v - burn"] v(2) True show ?thesis by simp
  next
    case False
    then have "burn = 0" by (simp add: word_greater_zero_iff)
    then show ?thesis by simp
  qed
qed

definition burned :: "dexWithdrawalResult list \<Rightarrow> nat" where
  "burned rs = sum_list (map (\<lambda>r. unat (dw_pointsBurned r)) rs)"

definition paid :: "dexWithdrawalResult list \<Rightarrow> nat" where
  "paid rs = sum_list (map (\<lambda>r. unat (dw_localAmount r)) rs)"

lemma withdraw_loop_step:
  assumes "gm_ok m" "withdraw_loop E amount points (w # ws) m acc = (rs, acc')"
  obtains b m' rs' where "gm_ok m'" "held_sum m' + unat b = held_sum m"
    "withdraw_loop E amount points ws m' (acc + en_safe_mul_div E amount b points) = (rs', acc')"
    "rs = \<lparr>dw_localAmount = en_safe_mul_div E amount b points, dw_pointsBurned = b\<rparr> # rs'"
proof -
  let ?b = "burn_of E (points_of m (wi_Address w)) (wi_Percent w)"
  let ?m = "if 0 < ?b then gm_put (wi_Address w) (points_of m (wi_Address w) - ?b) m else m"
  obtain rs' where "withdraw_loop E amount points ws ?m (acc + en_safe_mul_div E amount ?b points) = (rs', acc')"
    "rs = \<lparr>dw_localAmount = en_safe_mul_div E amount ?b points, dw_pointsBurned = ?b\<rparr> # rs'"
    using assms(2) by (cases "withdraw_loop E amount points ws ?m (acc + en_safe_mul_div E amount ?b points)")
      (simp add: Let_def)
  with burn_keeps_sum [OF assms(1) burn_le_held [of E "points_of m (wi_Address w)" "wi_Percent w"]]
  show thesis by (intro that)
qed

lemma withdraw_burned:
  "gm_ok m \<Longrightarrow> withdraw_loop E amount points ws m acc = (rs, acc') \<Longrightarrow> burned rs \<le> held_sum m"
proof (induction ws arbitrary: m acc rs)
  case Nil
  then show ?case by (simp add: burned_def)
next
  case (Cons w ws)
  obtain b m' rs' where m': "gm_ok m'" "held_sum m' + unat b = held_sum m"
    and rs': "withdraw_loop E amount points ws m' (acc + en_safe_mul_div E amount b points) = (rs', acc')"
    "rs = \<lparr>dw_localAmount = en_safe_mul_div E amount b points, dw_pointsBurned = b\<rparr> # rs'"
    by (rule withdraw_loop_step [OF Cons.prems])
  from Cons.IH [OF m'(1) rs'(1)] m'(2) rs'(2) show ?case by (simp add: burned_def)
qed

lemma div_add_le: "a div c + b div c \<le> (a + b) div (c :: nat)"
  unfolding div_add1_eq [of a b c] by simp

lemma withdraw_paid:
  assumes "muldiv_ok E" "points \<noteq> 0"
  shows "gm_ok m \<Longrightarrow> withdraw_loop E amount points ws m acc = (rs, acc') \<Longrightarrow> held_sum m \<le> unat points \<Longrightarrow>
    unat acc + unat amount * held_sum m div unat points < 2 ^ 64 \<Longrightarrow>
    paid rs \<le> unat amount * burned rs div unat points \<and> unat acc' = unat acc + paid rs \<and> length rs = length ws"
proof (induction ws arbitrary: m acc rs)
  case Nil
  then show ?case by (simp add: paid_def)
next
  case (Cons w ws)
  obtain b m' rs' where m': "gm_ok m'" "held_sum m' + unat b = held_sum m"
    and rs': "withdraw_loop E amount points ws m' (acc + en_safe_mul_div E amount b points) = (rs', acc')"
    "rs = \<lparr>dw_localAmount = en_safe_mul_div E amount b points, dw_pointsBurned = b\<rparr> # rs'"
    by (rule withdraw_loop_step [OF Cons.prems(1,2)])
  let ?x = "en_safe_mul_div E amount b points"
  have split: "unat amount * unat b div unat points + unat amount * held_sum m' div unat points \<le>
      unat amount * held_sum m div unat points"
    using div_add_le [of "unat amount * unat b" "unat points" "unat amount * held_sum m'"] m'(2)
    by (simp flip: distrib_left add: add.commute)
  then have "unat amount * unat b div unat points < 2 ^ 64" using Cons.prems(4) by linarith
  then have x: "unat ?x = unat amount * unat b div unat points" using assms by (simp add: muldiv_ok_def)
  have a: "unat (acc + ?x) = unat acc + unat ?x"
    using Cons.prems(4) split x by (intro unat_add_no_wrap) linarith
  have "paid rs' \<le> unat amount * burned rs' div unat points \<and> unat acc' = unat (acc + ?x) + paid rs' \<and> length rs' = length ws"
    using m' Cons.prems(3,4) a x split by (intro Cons.IH [OF m'(1) rs'(1)]) linarith+
  moreover have "unat amount * unat b div unat points + unat amount * burned rs' div unat points \<le>
      unat amount * burned rs div unat points"
    using div_add_le [of "unat amount * unat b" "unat points" "unat amount * burned rs'"] rs'(2)
    by (simp add: burned_def flip: distrib_left)
  ultimately show ?case using a x rs'(2) by (simp add: paid_def)
qed

lemma withdrawals_within_pool:
  assumes "muldiv_ok E" "\<And>p a b. po_Amount (en_remove_points E p a b) = po_Amount p"
    "gm_ok (st_pools s)" "gm_get (st_pools s) (st_chainID s + en_liquidity_addend E) = Some pool"
    "sum_list (map (\<lambda>p. unat (pt_Points p)) (po_Points pool)) \<le> unat (po_TotalPoolPoints pool)"
    "applyBatchWithdrawals E ws s = (rs, s')"
  shows "paid rs \<le> unat (po_Amount pool)"
    "unat (pool_amount s' (st_chainID s + en_liquidity_addend E)) = unat (po_Amount pool) - paid rs"
    "length rs = length ws"
proof -
  let ?k = "st_chainID s + en_liquidity_addend E" and ?A = "po_Amount pool" and ?T = "po_TotalPoolPoints pool"
  have zeros: "paid (map (\<lambda>_. zero_result) ws) = 0" by (induction ws) (simp_all add: paid_def zero_result_def)
  have "paid rs \<le> unat ?A \<and> unat (pool_amount s' ?k) = unat ?A - paid rs \<and> length rs = length ws"
  proof (cases "?T = 0 \<or> ?A = 0")
    case True
    then show ?thesis
      using assms(4,6) zeros by (auto simp: applyBatchWithdrawals_def Let_def pool_amount_def)
  next
    case False
    let ?m = "gm_of pt_Address pt_Points (po_Points pool)"
    obtain acc where l: "withdraw_loop E ?A ?T ws ?m 0 = (rs, acc)"
      and s': "s' = s\<lparr>st_pools := gm_put ?k (remove_burned E ws rs
        (pool\<lparr>po_Amount := (if acc < ?A then ?A - acc else 0)\<rparr>)) (st_pools s)\<rparr>"
      using assms(4,6) False by (auto simp: applyBatchWithdrawals_def Let_def split: prod.splits)
    have held: "held_sum ?m \<le> unat ?T" using held_sum_gm_of [of "po_Points pool"] assms(5) by linarith
    have pos: "0 < unat ?T" using False by (simp add: unat_gt_0)
    have full: "unat ?A * n div unat ?T \<le> unat ?A" if "n \<le> unat ?T" for n
    proof -
      have "unat ?A * n div unat ?T \<le> unat ?A * unat ?T div unat ?T" using that by (intro div_le_mono mult_left_mono) simp_all
      then show ?thesis using pos by simp
    qed
    have "unat (0 :: u64) + unat ?A * held_sum ?m div unat ?T < 2 ^ 64"
      using full [OF held] unat_less_u64 [of ?A] by simp
    from withdraw_paid [OF assms(1) _ gm_ok_gm_of l held this] False
    have p: "paid rs \<le> unat ?A * burned rs div unat ?T" "unat acc = paid rs" "length rs = length ws" by simp_all
    have "burned rs \<le> unat ?T" using withdraw_burned [OF gm_ok_gm_of l] held by linarith
    then have le: "paid rs \<le> unat ?A" using p(1) full by (meson order_trans)
    have rb: "po_Amount (remove_burned E ws rs q) = po_Amount q" for q
    proof -
      have "po_Amount (fold (\<lambda>(w, r) p. if dw_pointsBurned r = 0 then p
          else en_remove_points E p (wi_Address w) (dw_pointsBurned r)) zs q) = po_Amount q" for zs q
        by (induction zs arbitrary: q) (auto simp: assms(2))
      then show ?thesis by (simp add: remove_burned_def)
    qed
    have "pool_amount s' ?k = (if acc < ?A then ?A - acc else 0)"
      unfolding s' by (simp add: pool_amount_def gm.get_put [OF assms(3)] rb)
    moreover have "unat (if acc < ?A then ?A - acc else 0) = unat ?A - unat acc"
      by (simp add: unat_sub word_less_nat_alt order_less_imp_le word_le_nat_alt)
    ultimately show ?thesis using le p(2,3) by simp
  qed
  then show "paid rs \<le> unat (po_Amount pool)"
    "unat (pool_amount s' (st_chainID s + en_liquidity_addend E)) = unat (po_Amount pool) - paid rs"
    "length rs = length ws"
    by blast+
qed

end
