(* ===== verification/Sample.thy ===== *)
theory Sample
  imports Server MockStateProps
begin

text \<open>
  A concrete environment that meets every hypothesis about code outside the repository, and
  a concrete chain built in it. The witnesses of the properties are evaluated here: it
  shows that the hypotheses can hold together.
\<close>

unbundle bit_operations_syntax

section \<open>A platform\<close>

text \<open>
  A source that gives eight draws of three quarters of the range and then eight of one
  quarter, for ever, and step functions within the bounds asked of the mathematical ones. What is drawn
  does not depend on the seed, so the samples can be computed.
\<close>

definition sample_source :: "u64 \<Rightarrow> nat \<Rightarrow> u64" where
  "sample_source seed k = (if k mod 16 < 8 then 0x6000000000000000 else 0x2000000000000000)"

definition step :: "rat \<Rightarrow> rat \<Rightarrow> rat \<Rightarrow> rat \<Rightarrow> f64 \<Rightarrow> f64" where
  "step edge lo mid hi a =
     (case a of Fin x \<Rightarrow> Fin (if x < edge then lo else if x = edge then mid else hi) | _ \<Rightarrow> a)"

definition sample_sqrt :: "f64 \<Rightarrow> f64" where
  "sample_sqrt a = (case a of Fin x \<Rightarrow> Fin (if x \<le> 0 then 0 else if x \<le> 64 then 1 else 17 / 2) | _ \<Rightarrow> a)"

definition sample_any :: "fsm_message \<Rightarrow> bytes option" where
  "sample_any m = Some []"

fun sample_marshal :: "proto_value \<Rightarrow> string + bytes" where
  "sample_marshal (PBlock b) = Inr [1, ucast (bh_Height (br_BlockHeader b))]"
| "sample_marshal (PAccount a) = Inr [2, ucast (ac_Amount a)]"
| "sample_marshal (PPool p) = Inr [3, ucast (po_Id p)]"
| "sample_marshal (PValidator v) = Inr [4, ucast (va_StakedAmount v)]"
| "sample_marshal (PParams p) = Inr [5]"
| "sample_marshal (PSupply s) = Inr [6, ucast (su_Total s)]"
| "sample_marshal (POrderBooks b) = Inr [7]"
| "sample_marshal (PCommittees c) = Inr [8]"
| "sample_marshal (PBlobs b) = Inr [9]"

definition sample_mul_div :: "u64 \<Rightarrow> u64 \<Rightarrow> u64 \<Rightarrow> u64" where
  "sample_mul_div a b c = (if c = 0 then 0 else of_nat (unat a * unat b div unat c))"

definition sample_remove_points :: "pool \<Rightarrow> bytes \<Rightarrow> u64 \<Rightarrow> pool" where
  "sample_remove_points p a n =
     p\<lparr>po_Points := map (\<lambda>q. if pt_Address q = a then q\<lparr>pt_Points := pt_Points q - n\<rparr> else q) (po_Points p),
       po_TotalPoolPoints := po_TotalPoolPoints p - n\<rparr>"

fun sample_page_len :: "page_results \<Rightarrow> int option" where
  "sample_page_len (RTxs xs) = Some (int (length xs))"
| "sample_page_len (REvents xs) = Some (int (length xs))"
| "sample_page_len (RAccounts xs) = Some (int (length xs))"
| "sample_page_len (RPools xs) = Some (int (length xs))"
| "sample_page_len (RValidators xs) = Some (int (length xs))"

text \<open>The environment, for a given JSON parser.\<close>

definition no_json :: "bytes \<Rightarrow> json option" where
  "no_json b = None"

definition sample :: "(bytes \<Rightarrow> json option) \<Rightarrow> rpc_env" where
  "sample j =
     \<lparr>pl_source = sample_source,
      pl_exp = step 0 (1 / 2) 1 2, pl_log = step 1 (- 1) 0 1, pl_sqrt = sample_sqrt, pl_cos = (\<lambda>_. Fin 1),
      pl_pow = (\<lambda>_ _. Fin 1), pl_conv = (\<lambda>_. 0x8000000000000000),
      en_ed25519_public = sha256,
      en_new_public_key = (\<lambda>b. if length b = 32 then Some b else None),
      en_key_address = (\<lambda>k. take 20 (sha256 k)), en_address_size = 20,
      en_holding_addend = 65536, en_liquidity_addend = 131072,
      en_message_name = (\<lambda>k. case k of SendMsg \<Rightarrow> ''send'' | DexLimitOrderMsg \<Rightarrow> ''dexLimitOrder''
        | EditStakeMsg \<Rightarrow> ''editStake'' | CertificateResultsMsg \<Rightarrow> ''certificateResults''
        | DexLiquidityDepositMsg \<Rightarrow> ''dexLiquidityDeposit'' | DexLiquidityWithdrawMsg \<Rightarrow> ''dexLiquidityWithdraw''
        | StakeMsg \<Rightarrow> ''stake'' | UnstakeMsg \<Rightarrow> ''unstake''),
      en_event_name = (\<lambda>k. case k of RewardEvent \<Rightarrow> ''reward'' | SlashEvent \<Rightarrow> ''slash''
        | DexSwapEvent \<Rightarrow> ''dex-swap'' | DexLiquidityDepositEvent \<Rightarrow> ''dex-liquidity-deposit''),
      en_phase_precommit_vote = ''PRECOMMIT_VOTE'',
      en_any_new = sample_any, en_marshal = sample_marshal,
      en_safe_mul_div = sample_mul_div, en_remove_points = sample_remove_points, en_delta_blobs = Inr,
      en_json_parse = j, en_page_name = (\<lambda>_. ''page''), en_page_len = sample_page_len,
      en_json_encode = (\<lambda>_. Some [0x7b, 0x7d, 0x0a]),
      en_redirect_code = 301, en_redirect_location = (\<lambda>p _. p), en_redirect_page = bytes_of_string\<rparr>"

lemma sample_fields [simp]:
  "pl_source (sample j) = sample_source" "pl_exp (sample j) = step 0 (1 / 2) 1 2"
  "pl_log (sample j) = step 1 (- 1) 0 1" "pl_sqrt (sample j) = sample_sqrt" "pl_cos (sample j) = (\<lambda>_. Fin 1)"
  "en_ed25519_public (sample j) = sha256"
  "en_new_public_key (sample j) = (\<lambda>b. if length b = 32 then Some b else None)"
  "en_address_size (sample j) = 20" "en_holding_addend (sample j) = 65536" "en_liquidity_addend (sample j) = 131072"
  "en_marshal (sample j) = sample_marshal" "en_safe_mul_div (sample j) = sample_mul_div"
  "en_remove_points (sample j) = sample_remove_points" "en_json_parse (sample j) = j"
  "en_delta_blobs (sample j) = Inr" "en_json_encode (sample j) = (\<lambda>_. Some [0x7b, 0x7d, 0x0a])"
  "en_redirect_code (sample j) = 301" "en_redirect_location (sample j) = (\<lambda>p _. p)"
  "en_redirect_page (sample j) = bytes_of_string"
  by (simp_all add: sample_def)

section \<open>It meets the hypotheses\<close>

lemma sample_draw: "draw63 (sample j) s k = (if k mod 16 < 8 then 3 * 2 ^ 61 else 2 ^ 61)"
  by (simp add: draw63_def raw63_def sample_source_def)

lemma sample_fair: "fair_source (sample j)"
  unfolding fair_source_def
proof (intro allI)
  fix s n
  have "(16 * n + 8 + i) mod 16 = 8 + i" if "i < 6" for i :: nat using that by presburger
  then have "n \<le> 16 * n + 8" "quarter_draws (sample j) s (16 * n + 8)" by (simp_all add: quarter_draws_def sample_draw)
  then show "\<exists>k \<ge> n. quarter_draws (sample j) s k" by blast
qed

lemma sample_exp:
  assumes "\<bar>x\<bar> \<le> rat_of_nat n"
  shows "\<exists>y. step 0 (1 / 2) 1 2 (Fin x) = Fin y \<and> 2 powi (- 2 * int n) \<le> y \<and> y \<le> 2 powi (2 * int n)"
proof (cases "n = 0")
  case True
  with assms show ?thesis by (simp add: step_def)
next
  case False
  then have "(2 :: rat) powi 1 \<le> 2 powi (2 * int n)" "(2 :: rat) powi (- 2 * int n) \<le> 2 powi (- 1)"
    by (simp_all only: powi2_le_iff)
  then have "(2 :: rat) \<le> 2 powi (2 * int n)" "(2 :: rat) powi (- 2 * int n) \<le> 1 / 2"
    by simp_all
  then show ?thesis by (auto simp: step_def)
qed

lemma sample_math: "math_ok (sample j)"
  unfolding math_ok_def sample_fields using sample_exp
  by (auto simp: step_def sample_sqrt_def intro!: exI [of _ "17 / 2 :: rat"])

lemma sample_env_ok: "env_ok (sample j)"
  by (simp add: env_ok_def)

lemma sample_marshals: "marshals (sample j)"
proof -
  have "\<exists>b. sample_marshal v = Inr b" for v by (cases v) auto
  then show ?thesis by (simp add: marshals_def)
qed

lemma sample_muldiv: "muldiv_ok (sample j)"
  by (simp add: muldiv_ok_def sample_mul_div_def unat_of_nat_u64)

lemma sample_remove_points_amount: "po_Amount (en_remove_points (sample j) p a n) = po_Amount p"
  by (simp add: sample_remove_points_def)

section \<open>Other sources\<close>

text \<open>
  The sample with another source, fair as long as every sixteen draws end in the eight small
  ones of the sample.
\<close>

definition sourced :: "(u64 \<Rightarrow> nat \<Rightarrow> u64) \<Rightarrow> rpc_env" where
  "sourced f = sample no_json\<lparr>pl_source := f\<rparr>"

lemma sourced_fields [simp]:
  "pl_source (sourced f) = f" "pl_exp (sourced f) = step 0 (1 / 2) 1 2"
  "pl_log (sourced f) = step 1 (- 1) 0 1" "pl_sqrt (sourced f) = sample_sqrt" "pl_cos (sourced f) = (\<lambda>_. Fin 1)"
  by (simp_all add: sourced_def)

lemma sourced_math: "math_ok (sourced f)"
  using sample_math [of no_json] by (simp add: math_ok_def)

lemma sourced_env_ok: "env_ok (sourced f)"
  using sample_env_ok [of no_json] by (simp add: env_ok_def sourced_def)

lemma sourced_fair:
  assumes "\<And>seed k. 8 \<le> k mod 16 \<Longrightarrow> f seed k = 0x2000000000000000"
  shows "fair_source (sourced f)"
  unfolding fair_source_def
proof (intro allI)
  fix s n
  have "(16 * n + 8 + i) mod 16 = 8 + i" if "i < 6" for i :: nat using that by presburger
  then have "n \<le> 16 * n + 8" "quarter_draws (sourced f) s (16 * n + 8)"
    by (simp_all add: quarter_draws_def draw63_def raw63_def assms)
  then show "\<exists>k \<ge> n. quarter_draws (sourced f) s k" by blast
qed

section \<open>What is drawn\<close>

lemma unit_of_quarters: "unit_of (2 ^ 61) = Fin (1 / 4)" "unit_of (3 * 2 ^ 61) = Fin (3 / 4)"
  by (simp_all add: unit_of_def f64_of_int_def float_eval)

lemma sample_float64:
  "float64 (sample j) r = Some (Fin (if rd_pos r mod 16 < 8 then 3 / 4 else 1 / 4), advance r)"
  by (subst float64.simps) (simp add: raw63_draw63 sample_draw unit_of_quarters [simplified] feq_def)

lemma sample_poisson:
  assumes "rd_pos r mod 16 < 6" "0 < x"
  shows "map_option fst (samplePoisson (sample j) r (Fin x)) = Some 2"
proof -
  let ?E = "sample j"
  have loop: "poisson_loop ?E l k p r =
    (let p' = fmul p (Fin (if rd_pos r mod 16 < 8 then 3 / 4 else 1 / 4)) in
     if fle p' l then Some (k, advance r) else poisson_loop ?E l (Suc k) p' (advance r))" for l k p r
    by (subst poisson_loop.simps) (simp add: sample_float64 Let_def)
  have pos: "rd_pos r mod 16 < 8" "Suc (rd_pos r) mod 16 < 8" "Suc (Suc (rd_pos r)) mod 16 < 8"
    using assms(1) by presburger+
  have "poisson_loop ?E (Fin (1 / 2)) 0 (Fin 1) r = Some (2, advance (advance (advance r)))"
    by (subst loop, simp add: pos float_eval fle_def)
      (subst loop, simp add: pos float_eval fle_def, subst loop, simp add: pos float_eval fle_def)
  then show ?thesis using assms(2) by (simp add: samplePoisson_def fle_def fneg_def step_def)
qed

lemma RngForHeight_pos [simp]: "rd_pos (RngForHeight c h) = 0" "rd_pos (RngForAddrHeight a h) = 0"
  by (simp_all add: RngForHeight_def RngForAddrHeight_def new_rand_def)

text \<open>Three transactions and two events at every height of a quiet chain.\<close>

lemma sample_tx_count: "TxCountAt (sample j) c ProfileQuiet k = Some 3"
proof -
  have mean: "txCountMean quietParams = Fin (3602879701896397 / 4503599627370496)"
    and zero: "zeroTxChance quietParams = Fin (2431943798780068 / 4503599627370496)"
    by (simp_all add: quietParams_def float_eval)
  obtain n r where "samplePoisson (sample j) (advance (RngForHeight c k)) (Fin (3602879701896397 / 4503599627370496)) = Some (n, r)"
    "n = 2"
    using sample_poisson [of "advance (RngForHeight c k)" "3602879701896397 / 4503599627370496" j] by auto
  then show ?thesis
    by (simp add: TxCountAt_def ParamsForProfile_def sample_float64 mean zero flt_def)
qed

lemma sample_event_count: "EventCountAt (sample j) c ProfileQuiet k = Some 2"
proof -
  have "fconst (6 / 10) = Fin (5404319552844595 / 9007199254740992)" by (simp add: float_eval)
  then show ?thesis
    using sample_poisson [of "RngForHeight (c XOR event_salt) k" "5404319552844595 / 9007199254740992" j]
    by (simp add: EventCountAt_def)
qed

text \<open>Every base value is 2, no address is active, no validator is scheduled to leave.\<close>

lemma sample_normal: "rd_pos r = 0 \<Longrightarrow> \<exists>r'. StandardNormal (sample j) r = Some (Fin 1, r')"
  by (simp add: StandardNormal_def sample_float64 flt_def float_eval step_def sample_sqrt_def pi_times_2_def)

lemma sample_fit: "1 < a \<Longrightarrow> 1 < b \<Longrightarrow> 1 < c \<Longrightarrow> fitLogNormal (sample j) (Fin a) (Fin b) (Fin c) = (Fin 1, Fin 0)"
  by (simp add: fitLogNormal_def step_def float_eval z75_def z25_def)

lemma sample_baseValue: "baseValue (sample j) addr = Some (Fin 2)"
proof -
  obtain r' where "StandardNormal (sample j) (RngForAddrHeight addr 0) = Some (Fin 1, r')"
    using sample_normal [of "RngForAddrHeight addr 0" j] by auto
  then show ?thesis
    by (simp add: baseValue_def balanceFit_def float_eval sample_fit sampleLogNormal_def step_def)
qed

lemma sample_inactive: "addrActiveAtHeight (sample j) addr h = Some False"
  by (simp add: addrActiveAtHeight_def sample_float64 flt_def float_eval)

lemma sample_stays: "UnstakeHeightFor (sample j) addr 0 = Some 1000000000"
  by (simp add: UnstakeHeightFor_def sample_float64 flt_def float_eval)

text \<open>With ten accounts, nine share nine tenths of the supply: no fallback.\<close>

lemma sample_supply: "TotalSupplyAt (sample j) 2 0 = 70000000" "TotalSupplyAt (sample j) 2 2 = 70000070"
  by (simp_all add: TotalSupplyAt_def f64_of_u64_def f64_of_int_def u64_of_f64_def float_eval)

lemma ten: "replicate 10 x = [x, x, x, x, x, x, x, x, x, x]"
  by (simp add: eval_nat_numeral)

lemma sample_bases: "length addrs = 10 \<Longrightarrow> opt_mapM (baseValue (sample j)) addrs = Some (replicate 10 (Fin 2))"
  by (auto simp: opt_mapM_eq_Some sample_baseValue list_all2_conv_all_nth)

lemma sample_sum: "foldl fadd (Fin 0) (replicate 10 (Fin 2)) = Fin 20"
  by (simp add: ten float_eval)

lemma sample_rate:
  assumes "length addrs = 10"
  shows "exchangeRate (sample j) addrs 2 = Some (Fin 3500000)"
proof -
  have "f64_of_u64 (TotalSupplyAt (sample j) 2 0) = Fin 70000000"
    unfolding sample_supply by (simp add: f64_of_u64_def f64_of_int_def float_eval)
  moreover have "fdiv (Fin 70000000) (Fin 20) = Fin 3500000" by (simp add: float_eval)
  ultimately show ?thesis using assms by (simp add: exchangeRate_def sample_bases sample_sum feq_def Let_def)
qed

lemma sample_residual: "length addrs = 10 \<Longrightarrow> residualIndex (sample j) addrs = Some 0"
  by (simp add: residualIndex_def sample_bases ten flt_def)

lemma sample_no_fallback:
  assumes "length addrs = 10" "h = 0 \<or> h = 2"
  shows "snapshot_falls_back (sample j) addrs 2 h = Some False"
proof -
  let ?raws = "Fin 0 # replicate 9 (Fin 7000000)"
  have "fmul (Fin 2) (Fin 3500000) = Fin 7000000" by (simp add: float_eval)
  then have "raws_of (sample j) addrs h 0 (Fin 3500000) = Some ?raws"
    using assms(1) by (auto simp: raws_of_def opt_mapM_eq_Some list_all2_conv_all_nth nth_enumerate_eq rawValue_def
        sample_inactive sample_baseValue nth_Cons')
  moreover have "others 0 ?raws = replicate 9 (Fin 7000000)"
    by (simp add: others_def filter_empty_conv eval_nat_numeral)
  moreover have "foldl fadd (Fin 0) (replicate 9 (Fin 7000000)) = Fin 63000000"
    by (simp add: eval_nat_numeral(2,3)) (simp add: float_eval)
  moreover have "f64_of_u64 70000070 = Fin 70000070" "f64_of_u64 70000000 = Fin 70000000"
    by (simp_all add: f64_of_u64_def f64_of_int_def float_eval)
  ultimately show ?thesis
    using assms by (auto simp: snapshot_falls_back_def sample_rate sample_residual sample_supply flt_def)
qed

section \<open>A concrete chain\<close>

text \<open>Chain 2 of \<open>n\<close> blocks with the default options: ten validators and ten accounts.\<close>

lemma sample_chain:
  assumes "n \<le> 2 ^ 40"
  obtains mc where "newMockChain (sample j) n 2 [] = Ret mc" "length (mc_validators mc) = 10"
    "length (mc_accounts mc) = 10" "mc_chainID mc = 2"
  using newMockChain_returns [OF sample_env_ok [of j] sample_fair sample_math assms, of "[]" 2]
  by (auto simp: validator_count_def account_total_def)

lemma sample_3:
  obtains mc where "newMockChain (sample j) 3 2 [] = Ret mc" "length (mc_validators mc) = 10"
    "length (mc_accounts mc) = 10" "mc_chainID mc = 2"
  by (rule sample_chain [of 3 j]) simp_all

lemma sample_profile: "chain_profile 2 zero_options = ProfileQuiet"
  by (simp add: chain_profile_def ProfileForChain_def)

lemma sample_lengths:
  assumes "newMockChain (sample j) n 2 [] = Ret mc" "n < 2 ^ 63" "1 \<le> unat k" "int (unat k) \<le> n"
  shows "length (TxsAt mc k) = 3" "length (EventsAt mc k) = 2"
proof -
  show "length (TxsAt mc k) = 3"
    using chain_txs(1) [OF assms] sample_tx_count [of j 2 k] by (simp add: sample_profile)
  have "generateClosedFormEvents (sample j) (entities mc) k ProfileQuiet = Ret (EventsAt mc k)" "mc_chainID mc = 2"
    by (rule chain_height [OF assms], simp add: sample_profile)+
  with generateClosedFormEvents_Ret(1) [OF this(1)] sample_event_count [of j 2 k]
  show "length (EventsAt mc k) = 2" by simp
qed

end
