(* ===== verification/ChainProperties.thy ===== *)
theory ChainProperties
  imports Sample
begin

text \<open>
  The properties of a built chain: which heights exist, how blocks link, what certificates,
  transactions, events and state snapshots say, and when the construction returns.
\<close>

definition has_height :: "int \<Rightarrow> u64 \<Rightarrow> bool" where
  "has_height n k \<longleftrightarrow> 1 \<le> unat k \<and> int (unat k) \<le> n"

lemma has_height_1 [simp]: "1 \<le> n \<Longrightarrow> has_height n 1"
  by (simp add: has_height_def)

lemma lt63: "(3 :: int) < 2 ^ 63"
  by simp

lemma missing_heights:
  assumes "newMockChain E n chainID opts = Ret mc" "n < 2 ^ 63"
  shows "BlockAt mc k = None \<longleftrightarrow> \<not> has_height n k" "CertAt mc k = None \<longleftrightarrow> \<not> has_height n k"
    "DexBatchAt mc k = None \<longleftrightarrow> \<not> has_height n k" "NextDexBatchAt mc k = None \<longleftrightarrow> \<not> has_height n k"
    "gm_get (mc_txs mc) k = None \<longleftrightarrow> \<not> has_height n k" "gm_get (mc_events mc) k = None \<longleftrightarrow> \<not> has_height n k"
    "stateAt mc k = None \<longleftrightarrow> k \<noteq> 0 \<and> \<not> has_height n k"
proof -
  have "k = 0 \<or> int (unat k) \<le> n \<longleftrightarrow> k = 0 \<or> has_height n k"
    by (metis has_height_def less_one linorder_not_less unat_eq_zero)
  then show "stateAt mc k = None \<longleftrightarrow> k \<noteq> 0 \<and> \<not> has_height n k"
    using chain_heights(6) [OF assms, of k] by blast
qed (use chain_heights(2-5,7,8) [OF assms, of k] in \<open>unfold has_height_def, blast+\<close>)

text \<open>
  C1. A chain of \<open>n\<close> blocks reports \<open>n\<close> as its latest height, and every store (blocks,
  certificates, both dex batches, transactions, events) has an entry for exactly the heights
  from 1 to \<open>n\<close>; the states also for the genesis height 0.
\<close>

theorem served_heights:
  assumes "newMockChain E n chainID opts = Ret mc" "n < 2 ^ 63"
  shows "unat (latestHeight mc) = nat n \<and>
    (\<forall>k. (BlockAt mc k = None) = (\<not> has_height n k) \<and> (CertAt mc k = None) = (\<not> has_height n k) \<and>
         (DexBatchAt mc k = None) = (\<not> has_height n k) \<and> (NextDexBatchAt mc k = None) = (\<not> has_height n k) \<and>
         (gm_get (mc_txs mc) k = None) = (\<not> has_height n k) \<and>
         (gm_get (mc_events mc) k = None) = (\<not> has_height n k) \<and>
         (stateAt mc k = None) = (k \<noteq> 0 \<and> \<not> has_height n k))"
proof -
  have "nat n < 2 ^ 64" using assms(2) by simp
  then have "unat (latestHeight mc) = nat n" by (simp add: chain_heights(1) [OF assms] unat_of_nat_u64)
  then show ?thesis by (simp add: missing_heights [OF assms])
qed

theorem served_heights_witness:
  "\<exists>mc. newMockChain (sample no_json) 3 2 [] = Ret mc \<and> unat (latestHeight mc) = 3 \<and> BlockAt mc 3 \<noteq> None \<and>
    BlockAt mc 4 = None \<and> stateAt mc 0 \<noteq> None"
proof -
  obtain mc where c: "newMockChain (sample no_json) 3 2 [] = Ret mc" by (rule sample_3 [of no_json])
  have "has_height 3 3" "\<not> has_height 3 4" by (simp_all add: has_height_def)
  with served_heights [OF c lt63] c show ?thesis by (intro exI [of _ mc]) (simp del: not_None_eq)
qed

lemma total_txs_sum:
  assumes "newMockChain E n chainID opts = Ret mc" "n < 2 ^ 63" "1 \<le> i" "int i \<le> n" "BlockAt mc (of_nat i) = Some b"
  shows "bh_TotalTxs (br_BlockHeader b) = of_nat (\<Sum>j = 1..i. length (TxsAt mc (of_nat j)))"
  using assms(3-5)
proof (induction i arbitrary: b)
  case 0
  then show ?case by simp
next
  case (Suc i)
  have "Suc i < 2 ^ 64" using Suc.prems(2) assms(2) by simp
  then have u: "unat (of_nat (Suc i) :: u64) = Suc i" by (rule unat_of_nat_u64)
  then have k: "1 \<le> unat (of_nat (Suc i) :: u64)" "int (unat (of_nat (Suc i) :: u64)) \<le> n"
    using Suc.prems(2) by linarith+
  have p: "(of_nat (Suc i) :: u64) - 1 = of_nat i" by simp
  note f = chain_block [OF assms(1,2) k, unfolded p]
  show ?case
  proof (cases "BlockAt mc (of_nat i)")
    case None
    with f have "(of_nat (Suc i) :: u64) = 1" by auto
    then have "i = 0" using u by (metis One_nat_def old.nat.inject unat_1)
    with None f Suc.prems(3) show ?thesis by auto
  next
    case (Some b')
    have "1 \<le> i"
    proof (rule ccontr)
      assume "\<not> 1 \<le> i"
      then have "i = 0" by simp
      then have "BlockAt mc (of_nat i) = None" using chain_heights(2) [OF assms(1,2), of 0] by simp
      with Some show False by simp
    qed
    with Suc.IH [OF _ _ Some] Suc.prems(2)
    have "bh_TotalTxs (br_BlockHeader b') = of_nat (\<Sum>j = 1..i. length (TxsAt mc (of_nat j)))" by simp
    with f Some Suc.prems(3) show ?thesis by (auto simp: sum.nat_ivl_Suc')
  qed
qed

text \<open>
  C2. Blocks are linked: the block of a height carries that height, its hash, the height's
  transactions and events and their number; its last-block hash is the hash of the block
  before it (zeros for the first), and its running total is the number of transactions
  of all heights up to it.
\<close>

theorem blocks_linked:
  assumes "newMockChain E n chainID opts = Ret mc" "n < 2 ^ 63" "has_height n k"
  shows "\<exists>b. BlockAt mc k = Some b \<and> bh_Height (br_BlockHeader b) = k \<and>
    br_Transactions b = TxsAt mc k \<and> br_Events b = EventsAt mc k \<and>
    bh_NumTxs (br_BlockHeader b) = of_nat (length (TxsAt mc k)) \<and>
    bh_TotalTxs (br_BlockHeader b) = of_nat (\<Sum>j = 1..unat k. length (TxsAt mc (of_nat j))) \<and>
    bh_LastBlockHash (br_BlockHeader b) =
      (case BlockAt mc (k - 1) of Some prev \<Rightarrow> bh_Hash (br_BlockHeader prev) | None \<Rightarrow> replicate 32 0) \<and>
    (BlockAt mc (k - 1) = None) = (k = 1)"
proof -
  have k: "1 \<le> unat k" "int (unat k) \<le> n" using assms(3) by (simp_all add: has_height_def)
  obtain b where b: "BlockAt mc k = Some b" using chain_block [OF assms(1,2) k] by blast
  have "BlockAt mc 0 = None" using chain_heights(2) [OF assms(1,2), of 0] by simp
  moreover have "bh_TotalTxs (br_BlockHeader b) = of_nat (\<Sum>j = 1..unat k. length (TxsAt mc (of_nat j)))"
    using b by (intro total_txs_sum [OF assms(1,2) k]) simp
  ultimately show ?thesis
    using chain_block [OF assms(1,2) k] b by (cases "BlockAt mc (k - 1)") auto
qed

theorem blocks_linked_witness:
  "\<exists>mc b1 b2. newMockChain (sample no_json) 3 2 [] = Ret mc \<and> BlockAt mc 1 = Some b1 \<and> BlockAt mc 2 = Some b2 \<and>
    bh_LastBlockHash (br_BlockHeader b2) = bh_Hash (br_BlockHeader b1) \<and>
    bh_LastBlockHash (br_BlockHeader b1) = replicate 32 0"
proof -
  obtain mc where c: "newMockChain (sample no_json) 3 2 [] = Ret mc" by (rule sample_3 [of no_json])
  from blocks_linked [OF c, of 1] blocks_linked [OF c, of 2]
  obtain b1 b2 where "BlockAt mc 1 = Some b1" "BlockAt mc 2 = Some b2"
    "bh_LastBlockHash (br_BlockHeader b2) = bh_Hash (br_BlockHeader b1)"
    "bh_LastBlockHash (br_BlockHeader b1) = replicate 32 0"
    by (auto simp: has_height_def split: option.splits)
  with c show ?thesis by blast
qed

text \<open>
  C3. On a fair source with a conforming \<open>math\<close> package, building a chain returns for every
  identifier and profile, every number of blocks up to \<open>2 ^ 40\<close> and any options asking for at
  least two validators, with the numbers of validators and accounts asked for: no sampling
  loop runs for ever, and no index is out of range.
\<close>

theorem chain_built:
  assumes "env_ok E" "fair_source E" "math_ok E" "numBlocks \<le> 2 ^ 40"
    "2 \<le> validator_count (apply_options opts)" "account_total (apply_options opts) < 2 ^ 64"
  shows "\<exists>mc. newMockChain E numBlocks chainID opts = Ret mc \<and> mc_chainID mc = chainID \<and>
    length (mc_validators mc) = validator_count (apply_options opts) \<and>
    length (mc_accounts mc) = account_total (apply_options opts)"
  using newMockChain_returns [OF assms] by blast

theorem chain_built_witness:
  "\<exists>mc. newMockChain (sample no_json) 100 1 [WithValidatorCount 3, WithAccountCount 5] = Ret mc \<and>
    length (mc_validators mc) = 3 \<and> length (mc_accounts mc) = 5"
proof -
  let ?o = "[WithValidatorCount 3, WithAccountCount 5]"
  have o: "apply_options ?o = WithAccountCount 5 (WithValidatorCount 3 zero_options)"
    by (simp add: apply_options_def)
  have "validator_count (apply_options ?o) = 3" "account_total (apply_options ?o) = 5"
    by (simp_all add: o validator_count_def account_total_def)
  with chain_built [OF sample_env_ok sample_fair sample_math, of 100 ?o no_json 1] show ?thesis by auto
qed

section \<open>Accounts and validators of a chain\<close>

lemma chain_accounts:
  assumes "newMockChain E n chainID opts = Ret mc"
  shows "mc_accounts mc \<noteq> []" "2 \<le> length (mc_validators mc)"
proof -
  obtain addrs mc0 where s: "started E chainID opts addrs mc0"
    "builds E (chain_profile chainID (apply_options opts)) addrs mc0 (nat n) mc"
    using newMockChain_builds [OF assms] .
  note e = generators_cong [OF builds_entities [OF s(2)]]
  obtain mc1 genesis where m: "initChain E chainID (apply_options opts) = Ret mc1"
    "mc0 = mc1\<lparr>mc_states := [(0, genesis)]\<rparr>"
    using s(1) by (auto simp: started_def)
  obtain rng pools rng' where "buildPools E (mc_accounts mc1) chainID rng = Ret (pools, rng')"
    "buildOrderBooks (mc_validators mc1) chainID = Ret (mc_orderBooks mc1)"
    by (rule initChain_Ret [OF m(1)]) blast
  then have "mc_accounts mc1 \<noteq> []" "\<not> length (mc_validators mc1) < 2"
    using buildOrderBooks_Panic [of "mc_validators mc1" chainID]
    by (auto simp: buildPools_def go_bind_eq_Ret go_nth_eq_Ret)
  then show "mc_accounts mc \<noteq> []" "2 \<le> length (mc_validators mc)" using e(2,4) m(2) by simp_all
qed

lemma state_height:
  assumes "newMockChain E n chainID opts = Ret mc" "n < 2 ^ 63" "stateAt mc k = Some s"
  shows "unat k \<le> nat n"
proof (cases "k = 0")
  case False
  then have "int (unat k) \<le> n"
    using missing_heights(7) [OF assms(1,2), of k] assms(3) by (simp add: has_height_def)
  then show ?thesis by linarith
qed simp

text \<open>
  C4. Conservation: in the state of every height the account balances add up exactly to the
  total supply of that state, unless the proportional fallback of \<open>SnapshotBalancesAt\<close> was
  taken at that height.
\<close>

theorem balances_conserved:
  assumes "math_ok E" "fair_source E" "newMockChain E n chainID opts = Ret mc" "n \<le> 2 ^ 40" "stateAt mc k = Some s"
  shows "\<exists>fb. snapshot_falls_back E (map ac_Address (mc_accounts mc)) chainID k = Some fb \<and>
    (fb \<or> sum_list (map (\<lambda>a. unat (ac_Amount a)) (gs_Accounts s)) = unat (su_Total (gs_Supply s))) \<and>
    map ac_Address (gs_Accounts s) = map ac_Address (mc_accounts mc)"
proof -
  have n: "n < 2 ^ 63" using assms(4) by simp
  note st = chain_state [OF assms(3) n assms(5)]
  note sn = snapshotStateAt_Ret [OF st(1)]
  have "nat n \<le> 2 ^ 40" using assms(4) by simp
  with state_height [OF assms(3) n assms(5)] have k: "unat k \<le> 2 ^ 40" by (rule order_trans)
  have "map ac_Address (mc_accounts mc) \<noteq> []" using chain_accounts(1) [OF assms(3)] by simp
  from snapshot_conservation [OF assms(1,2) this k, of chainID]
  obtain bs fb where b: "SnapshotBalancesAt E (map ac_Address (mc_accounts mc)) chainID k = Some bs"
    "length bs = length (map ac_Address (mc_accounts mc))"
    "snapshot_falls_back E (map ac_Address (mc_accounts mc)) chainID k = Some fb"
    "\<not> fb \<Longrightarrow> sum_list (map unat bs) = unat (TotalSupplyAt E chainID k)" by blast
  have "map ac_Amount (gs_Accounts s) = bs" using sn(2) [of bs] b(1,2) st(2) by simp
  then have "map (\<lambda>a. unat (ac_Amount a)) (gs_Accounts s) = map unat bs" by auto
  then show ?thesis using b(3,4) sn(1,3) st(2) by auto
qed

theorem balances_conserved_witness:
  "\<exists>mc s. newMockChain (sample no_json) 3 2 [] = Ret mc \<and> stateAt mc 2 = Some s \<and>
    sum_list (map (\<lambda>a. unat (ac_Amount a)) (gs_Accounts s)) = unat (su_Total (gs_Supply s))"
proof -
  obtain mc where c: "newMockChain (sample no_json) 3 2 [] = Ret mc" "length (mc_accounts mc) = 10"
    by (rule sample_3 [of no_json])
  have "has_height 3 2" by (simp add: has_height_def)
  then obtain s where s: "stateAt mc 2 = Some s" using missing_heights(7) [OF c(1) lt63, of 2] by auto
  have "snapshot_falls_back (sample no_json) (map ac_Address (mc_accounts mc)) 2 2 = Some False"
    using c(2) by (intro sample_no_fallback) simp_all
  with balances_conserved [OF sample_math sample_fair c(1) _ s] c(1) s show ?thesis by auto
qed

text \<open>
  C5. Closed form: a chain with more blocks serves the same blocks, certificates,
  transactions, events, batches and states for every height of the shorter chain.
\<close>

theorem prefix_stable:
  assumes "newMockChain E n chainID opts = Ret mc" "newMockChain E m chainID opts = Ret mc'"
    "n \<le> m" "m < 2 ^ 63" "int (unat k) \<le> n"
  shows "BlockAt mc' k = BlockAt mc k \<and> CertAt mc' k = CertAt mc k \<and> TxsAt mc' k = TxsAt mc k \<and>
    EventsAt mc' k = EventsAt mc k \<and> DexBatchAt mc' k = DexBatchAt mc k \<and>
    NextDexBatchAt mc' k = NextDexBatchAt mc k \<and> stateAt mc' k = stateAt mc k"
  using chain_prefix [OF assms] by simp

theorem prefix_stable_witness:
  "\<exists>mc mc'. newMockChain (sample no_json) 3 2 [] = Ret mc \<and> newMockChain (sample no_json) 8 2 [] = Ret mc' \<and>
    BlockAt mc' 3 = BlockAt mc 3 \<and> BlockAt mc 3 \<noteq> None"
proof -
  obtain mc where c: "newMockChain (sample no_json) 3 2 [] = Ret mc" by (rule sample_3 [of no_json])
  obtain mc' where c': "newMockChain (sample no_json) 8 2 [] = Ret mc'"
    by (rule sample_chain [of 8 no_json]) simp_all
  have "BlockAt mc' 3 = BlockAt mc 3" using prefix_stable [OF c c', of 3] by simp
  moreover have "BlockAt mc 3 \<noteq> None" using missing_heights(1) [OF c lt63, of 3] by (simp add: has_height_def)
  ultimately show ?thesis using c c' by blast
qed

text \<open>
  C6. The certificate of a height agrees with the block: same height, both block fields and
  the checkpoint are the block's hash, the dex batch and the double signers are the ones
  served for the height, the payments add up to 100 percent, and block and certificate name
  the first validator as proposer.
\<close>

theorem certificates_agree:
  assumes "newMockChain E n chainID opts = Ret mc" "n < 2 ^ 63" "has_height n k"
  shows "\<exists>b c v0. BlockAt mc k = Some b \<and> CertAt mc k = Some c \<and> vw_Height (qc_Header c) = k \<and>
    vw_ChainId (qc_Header c) = chainID \<and>
    qc_BlockHash c = bh_Hash (br_BlockHeader b) \<and> qc_Block c = qc_BlockHash c \<and>
    cr_CheckpointHeight (qc_Results c) = k \<and> cr_CheckpointBlockHash (qc_Results c) = qc_BlockHash c \<and>
    cr_DexBatch (qc_Results c) = DexBatchAt mc k \<and> cr_DoubleSigners (qc_Results c) = doubleSigners mc k \<and>
    sum_list (map pp_Percent (cr_PaymentPercents (qc_Results c))) = 100 \<and>
    go_nth (mc_validators mc) 0 = Ret v0 \<and> bh_ProposerAddress (br_BlockHeader b) = va_Address v0 \<and>
    qc_ProposerKey c = va_PublicKey v0"
proof -
  have k: "1 \<le> unat k" "int (unat k) \<le> n" using assms(3) by (simp_all add: has_height_def)
  obtain b c s mc1 where f: "BlockAt mc k = Some b" "CertAt mc k = Some c"
    "generateBlock E mc1 k (TxsAt mc k) (EventsAt mc k) = Ret b" "mc_validators mc1 = mc_validators mc"
    "buildCertificateForTx E (mc\<lparr>mc_states := gm_put k s [], mc_blocks := gm_put k b [],
       mc_dexBatches := gm_put k (mc_lockedBatch mc) []\<rparr>) k = Ret c" "mc_chainID mc = chainID"
    by (rule chain_height [OF assms(1,2) k])
  have "0 < length (mc_validators mc)" using chain_accounts(2) [OF assms(1)] by linarith
  then have "go_nth (mc_validators mc) 0 = Ret (mc_validators mc ! 0)" by simp
  with generateBlock_Ret(9) [OF f(3)] buildCertificateForTx_Ret(2,11) [OF f(5)] f(4,6)
  have "go_nth (mc_validators mc) 0 = Ret (mc_validators mc ! 0) \<and>
    bh_ProposerAddress (br_BlockHeader b) = va_Address (mc_validators mc ! 0) \<and>
    qc_ProposerKey c = va_PublicKey (mc_validators mc ! 0) \<and> vw_ChainId (qc_Header c) = chainID" by simp
  with chain_certificate [OF assms(1,2) k] f(1,2) show ?thesis by auto
qed

theorem certificates_agree_witness:
  "\<exists>mc b c. newMockChain (sample no_json) 3 2 [] = Ret mc \<and> BlockAt mc 2 = Some b \<and> CertAt mc 2 = Some c \<and>
    qc_BlockHash c = bh_Hash (br_BlockHeader b)"
proof -
  obtain mc where c: "newMockChain (sample no_json) 3 2 [] = Ret mc" by (rule sample_3 [of no_json])
  have "has_height 3 2" by (simp add: has_height_def)
  from certificates_agree [OF c lt63 this] c show ?thesis by blast
qed

section \<open>Transactions and events\<close>





text \<open>
  C7. Every transaction of a height carries that height, its position as index, the chain's
  identifier and the hash of exactly those three; its type is one of the profile's types and
  its sender one of the chain's accounts. Their number is the drawn count.
\<close>

theorem transactions_of_height:
  assumes "newMockChain E n chainID opts = Ret mc" "n < 2 ^ 63" "has_height n k"
  shows "TxCountAt E chainID (chain_profile chainID (apply_options opts)) k = Some (length (TxsAt mc k)) \<and>
    (\<forall>i < length (TxsAt mc k). let t = TxsAt mc k ! i in
       tr_Height t = k \<and> tr_Index t = of_nat i \<and> tx_ChainId (tr_Transaction t) = chainID \<and>
       tx_CreatedHeight (tr_Transaction t) = k \<and> tx_MessageType (tr_Transaction t) = tr_MessageType t \<and>
       (\<exists>l \<in> set (type_labels (chain_profile chainID (apply_options opts))). tr_MessageType t = messageTypeForLabel E l) \<and>
       tr_Sender t \<in> ac_Address ` set (mc_accounts mc) \<and>
       tr_TxHash t = hex_encode (HashBytes [VStr ''tx'', VUint chainID, VUint k, VInt (int i)]))"
proof -
  have k: "1 \<le> unat k" "int (unat k) \<le> n" using assms(3) by (simp_all add: has_height_def)
  have "mc_chainID mc = chainID" by (rule chain_height [OF assms(1,2) k])
  with buildTx_Ret [OF chain_txs(2) [OF assms(1,2) k]] chain_txs(1) [OF assms(1,2) k] show ?thesis
    by (simp add: Let_def)
qed

theorem transactions_of_height_witness:
  "\<exists>mc. newMockChain (sample no_json) 3 2 [] = Ret mc \<and>
    TxCountAt (sample no_json) 2 ProfileQuiet 2 = Some (length (TxsAt mc 2)) \<and>
    length (TxsAt mc 2) = 3 \<and> tr_Height (TxsAt mc 2 ! 1) = 2"
proof -
  obtain mc where c: "newMockChain (sample no_json) 3 2 [] = Ret mc" by (rule sample_3 [of no_json])
  have "length (TxsAt mc 2) = 3" using sample_lengths [OF c lt63, of 2] by simp
  moreover have "has_height 3 2" by (simp add: has_height_def)
  ultimately show ?thesis using transactions_of_height [OF c lt63, of 2] c by (auto simp: Let_def sample_profile)
qed



text \<open>
  C9. Every event of a height carries that height, its block hash and the chain's identifier,
  has a message and the address of one of the chain's accounts; their number is the drawn
  count.
\<close>

theorem events_of_height:
  assumes "newMockChain E n chainID opts = Ret mc" "n < 2 ^ 63" "has_height n k"
  shows "EventCountAt E chainID (chain_profile chainID (apply_options opts)) k = Some (length (EventsAt mc k)) \<and>
    (\<forall>e \<in> set (EventsAt mc k). ev_Height e = k \<and> ev_BlockHeight e = k \<and> ev_ChainId e = chainID \<and>
       (\<exists>b. BlockAt mc k = Some b \<and> ev_BlockHash e = bh_Hash (br_BlockHeader b)) \<and>
       ev_Msg e \<noteq> None \<and> ev_Address e \<in> ac_Address ` set (mc_accounts mc))"
proof -
  have k: "1 \<le> unat k" "int (unat k) \<le> n" using assms(3) by (simp_all add: has_height_def)
  obtain b mc1 where f: "BlockAt mc k = Some b" "generateBlock E mc1 k (TxsAt mc k) (EventsAt mc k) = Ret b"
    "generateClosedFormEvents E (entities mc) k (chain_profile chainID (apply_options opts)) = Ret (EventsAt mc k)"
    "mc_chainID mc = chainID"
    by (rule chain_height [OF assms(1,2) k])
  show ?thesis
    using generateClosedFormEvents_Ret [OF f(3)] f(1,4) generateBlock_Ret(2) [OF f(2)] by simp
qed

theorem events_of_height_witness:
  "\<exists>mc. newMockChain (sample no_json) 3 2 [] = Ret mc \<and> length (EventsAt mc 3) = 2 \<and>
    ev_Height (EventsAt mc 3 ! 0) = 3"
proof -
  obtain mc where c: "newMockChain (sample no_json) 3 2 [] = Ret mc" by (rule sample_3 [of no_json])
  have l: "length (EventsAt mc 3) = 2" using sample_lengths [OF c lt63, of 3] by simp
  then have "EventsAt mc 3 ! 0 \<in> set (EventsAt mc 3)" by simp
  moreover have "has_height 3 3" by (simp add: has_height_def)
  ultimately show ?thesis using events_of_height [OF c lt63, of 3] c l by blast
qed

section \<open>States\<close>

lemma opt_mapM_map: "opt_mapM f xs = Some ys \<Longrightarrow> (\<And>x y. x \<in> set xs \<Longrightarrow> f x = Some y \<Longrightarrow> h y = g x) \<Longrightarrow> map h ys = map g xs"
  by (induction xs arbitrary: ys) (auto simp: bind_eq_Some_conv)

text \<open>
  C10. The validators of a state are the chain's validators in the same order, with every field
  unchanged but three: the stake is the schedule's at the state's height, no validator is
  paused, and the unstaking height is the validator's scheduled height, \<open>10 ^ 9\<close> or between
  100 and 9999, once the state's height has reached it, and 0 before. Every later state
  shows the same unstaking height for a validator that has left.
\<close>

theorem validators_of_states:
  assumes "newMockChain E n chainID opts = Ret mc" "n < 2 ^ 63" "stateAt mc k = Some s" "stateAt mc k' = Some s'"
    "k \<le> k'" "i < length (mc_validators mc)"
  shows "length (gs_Validators s) = length (mc_validators mc) \<and>
    map va_Address (gs_Validators s) = map va_Address (mc_validators mc) \<and>
    map va_PublicKey (gs_Validators s) = map va_PublicKey (mc_validators mc) \<and>
    (\<exists>u stake. UnstakeHeightFor E (va_Address (mc_validators mc ! i)) 0 = Some u \<and>
       (unat u = 10 ^ 9 \<or> 100 \<le> unat u \<and> unat u < 10000) \<and>
       StakeAt E (va_Address (mc_validators mc ! i)) chainID k = Some stake \<and>
       gs_Validators s ! i = (mc_validators mc ! i)
         \<lparr>va_StakedAmount := stake, va_MaxPausedHeight := 0, va_UnstakingHeight := (if u \<le> k then u else 0)\<rparr> \<and>
       (u \<le> k \<longrightarrow> va_UnstakingHeight (gs_Validators s' ! i) = u))"
proof -
  note st = chain_state [OF assms(1-3)] and st' = chain_state [OF assms(1,2,4)]
  let ?v = "mc_validators mc ! i" and ?w = "gs_Validators s ! i" and ?w' = "gs_Validators s' ! i"
  have m: "opt_mapM (snapshot_validator E chainID k) (mc_validators mc) = Some (gs_Validators s)"
    "opt_mapM (snapshot_validator E chainID k') (mc_validators mc) = Some (gs_Validators s')"
    using snapshotStateAt_Ret(5) [OF st(1)] snapshotStateAt_Ret(5) [OF st'(1)] st(2) by simp_all
  have w: "snapshot_validator E chainID k ?v = Some ?w" "snapshot_validator E chainID k' ?v = Some ?w'"
    using opt_mapM_nth [OF m(1) assms(6)] opt_mapM_nth [OF m(2) assms(6)] .
  have maps: "map va_Address (gs_Validators s) = map va_Address (mc_validators mc)"
    "map va_PublicKey (gs_Validators s) = map va_PublicKey (mc_validators mc)"
    by (rule opt_mapM_map [OF m(1)], simp add: snapshot_validator_Some(1,2))+
  obtain u stake where "UnstakeHeightFor E (va_Address ?v) 0 = Some u" "StakeAt E (va_Address ?v) chainID k = Some stake"
    "?w = ?v\<lparr>va_StakedAmount := stake, va_MaxPausedHeight := 0, va_UnstakingHeight := (if u \<le> k then u else 0)\<rparr>"
    by (rule snapshot_validator_update [OF w(1)])
  moreover from snapshot_validator_update [OF w(2)] this(1) have "va_UnstakingHeight ?w' = (if u \<le> k' then u else 0)"
    by fastforce
  ultimately show ?thesis
    using maps opt_mapM_length [OF m(1)] UnstakeHeightFor_genesis_range [of E "va_Address ?v" u] assms(5) by auto
qed

text \<open>A first draw of fifteen sixteenths: every validator has a height at which it leaves.\<close>

definition leaving_source :: "u64 \<Rightarrow> nat \<Rightarrow> u64" where
  "leaving_source seed k = (if k mod 16 = 0 then 0x7800000000000000 else sample_source seed k)"

lemma leaving_fair: "fair_source (sourced leaving_source)"
  by (rule sourced_fair) (auto simp: leaving_source_def sample_source_def)

lemma leaving_height:
  assumes "UnstakeHeightFor (sourced leaving_source) addr 0 = Some u"
  shows "100 \<le> unat u" "unat u < 10000"
proof -
  have "draw63 (sourced leaving_source) s 0 = 15 * 2 ^ 59" for s
    by (simp add: draw63_def raw63_def leaving_source_def)
  moreover have "unit_of (15 * 2 ^ 59) = Fin (15 / 16)" by (simp add: unit_of_def f64_of_int_def float_eval)
  ultimately have "float64 (sourced leaving_source) (RngForAddrHeight addr 0) =
      Some (Fin (15 / 16), advance (RngForAddrHeight addr 0))"
    by (subst float64.simps) (simp add: raw63_draw63 feq_def)
  then obtain k r where "intn (sourced leaving_source) 9900 (advance (RngForAddrHeight addr 0)) = Some (k, r)"
    "u = of_nat (100 + k)"
    using assms by (auto simp: UnstakeHeightFor_def bind_eq_Some_conv flt_def float_eval)
  moreover from intn_less [OF _ this(1)] have "k < 9900" by simp
  ultimately show "100 \<le> unat u" "unat u < 10000" by (simp_all add: unat_of_nat_u64 del: of_nat_add)
qed

theorem validators_of_states_witness:
  "\<exists>mc s s'. newMockChain (sourced leaving_source) 10000 2 [] = Ret mc \<and> stateAt mc 9999 = Some s \<and>
    stateAt mc 10000 = Some s' \<and> length (gs_Validators s) = 10 \<and> va_Output (gs_Validators s ! 3) = va_Output (mc_validators mc ! 3) \<and>
    100 \<le> unat (va_UnstakingHeight (gs_Validators s ! 3)) \<and>
    va_UnstakingHeight (gs_Validators s' ! 3) = va_UnstakingHeight (gs_Validators s ! 3) \<and>
    (\<exists>g. stateAt mc 0 = Some g \<and> va_UnstakingHeight (gs_Validators g ! 3) = 0)"
proof -
  let ?E = "sourced leaving_source"
  have ten: "validator_count zero_options = 10" "account_total zero_options = 10"
    by (simp_all add: validator_count_def account_total_def)
  have pre: "(10000 :: int) \<le> 2 ^ 40" "2 \<le> validator_count (apply_options [])" "account_total (apply_options []) < 2 ^ 64"
    and n: "(10000 :: int) < 2 ^ 63" using ten by simp_all
  obtain mc where c: "newMockChain ?E 10000 2 [] = Ret mc" "length (mc_validators mc) = 10"
    by (rule newMockChain_returns [OF sourced_env_ok leaving_fair sourced_math pre, of 2]) (use ten in simp)
  have "\<exists>s. stateAt mc k = Some s" if "k = 0 \<or> k = 9999 \<or> k = 10000" for k
    using missing_heights(7) [OF c(1) n, of k] that by (auto simp: has_height_def)
  then obtain g s s' where s: "stateAt mc 0 = Some g" "stateAt mc 9999 = Some s" "stateAt mc 10000 = Some s'" by metis
  have i: "3 < length (mc_validators mc)" using c(2) by simp
  have le: "(9999 :: u64) \<le> 10000" "(0 :: u64) \<le> 10000" by simp_all
  obtain u where u: "UnstakeHeightFor ?E (va_Address (mc_validators mc ! 3)) 0 = Some u"
    using UnstakeHeightFor_returns [OF leaving_fair] by blast
  note l = leaving_height [OF u]
  then have "u \<le> 9999" "\<not> u \<le> 0" by (simp_all add: word_le_nat_alt)
  with validators_of_states [OF c(1) n s(2,3) le(1) i] validators_of_states [OF c(1) n s(1,3) le(2) i] u l c s show ?thesis
    by (intro exI [of _ mc] exI [of _ s] exI [of _ s']) auto
qed

text \<open>
  C11. Supply: the staked amount of a state is the sum of its validators' stakes, and the
  total supply never falls from one height to a later one and stays between 70 million and
  \<open>2 ^ 52\<close>.
\<close>

theorem supply_of_states:
  assumes "newMockChain E n chainID opts = Ret mc" "n \<le> 2 ^ 40" "stateAt mc k = Some s" "stateAt mc k' = Some s'" "k \<le> k'"
  shows "su_Staked (gs_Supply s) = sum_list (map va_StakedAmount (gs_Validators s)) \<and>
    su_Total (gs_Supply s) \<le> su_Total (gs_Supply s') \<and>
    70000000 \<le> unat (su_Total (gs_Supply s')) \<and> unat (su_Total (gs_Supply s')) \<le> 2 ^ 52"
proof -
  have n: "n < 2 ^ 63" "nat n \<le> 2 ^ 40" using assms(2) by simp_all
  note st = chain_state [OF assms(1) n(1) assms(3)] and st' = chain_state [OF assms(1) n(1) assms(4)]
  have k': "unat k' \<le> 2 ^ 40" using state_height [OF assms(1) n(1) assms(4)] n(2) by (rule order_trans)
  have "unat k \<le> unat k'" using assms(5) by (simp add: word_le_nat_alt)
  from TotalSupplyAt_mono [OF this k', of E chainID] TotalSupplyAt_bounds(1,2) [OF k', of E chainID] snapshotStateAt_Ret(3,4) [OF st(1)]
    snapshotStateAt_Ret(3) [OF st'(1)] st(2)
  show ?thesis by simp
qed

theorem supply_of_states_witness:
  "\<exists>mc s s'. newMockChain (sample no_json) 3 2 [] = Ret mc \<and> stateAt mc 0 = Some s \<and> stateAt mc 3 = Some s' \<and>
    su_Total (gs_Supply s) \<le> su_Total (gs_Supply s')"
proof -
  obtain mc where c: "newMockChain (sample no_json) 3 2 [] = Ret mc" by (rule sample_3 [of no_json])
  obtain s where s: "stateAt mc 0 = Some s" using missing_heights(7) [OF c lt63, of 0] by auto
  have "has_height 3 3" by (simp add: has_height_def)
  then obtain s' where s': "stateAt mc 3 = Some s'" using missing_heights(7) [OF c lt63, of 3] by auto
  from supply_of_states [OF c _ s s'] c s s' show ?thesis by auto
qed

text \<open>
  C12. Signers: the snapshot of every height, genesis included, holds as non-signers the two
  first validators, with counters one more than the height modulo 3 and modulo 2, and as
  double signer, at the positive multiples of 30, the second validator with the heights
  \<open>k - 1\<close> and \<open>k\<close>. The double signers served are the snapshot's; the non-signers served are
  too, except at the positive multiples of ten, where none are served.
\<close>

theorem signers_of_height:
  assumes "newMockChain E n chainID opts = Ret mc" "n < 2 ^ 63" "stateAt mc k = Some s"
  shows "gs_NonSigners s =
      Some [\<lparr>ns_Address = va_Address (mc_validators mc ! 0), ns_Counter = k mod 3 + 1\<rparr>,
            \<lparr>ns_Address = va_Address (mc_validators mc ! 1), ns_Counter = k mod 2 + 1\<rparr>] \<and>
    nonSigners mc k = (if k \<noteq> 0 \<and> k mod 10 = 0 then None else gs_NonSigners s) \<and>
    gs_DoubleSigners s = (if k \<noteq> 0 \<and> k mod 30 = 0
      then Some [\<lparr>ds_Id = va_Address (mc_validators mc ! 1), ds_Heights = [k - 1, k]\<rparr>] else None) \<and>
    doubleSigners mc k = gs_DoubleSigners s"
proof -
  note st = snapshotStateAt_Ret(11,12) [OF chain_state(1) [OF assms]]
  have "0 < k \<longleftrightarrow> k \<noteq> 0" by (simp add: word_gt_0)
  moreover have "2 \<le> length (mc_validators mc)" using chain_accounts(2) [OF assms(1)] .
  then obtain v0 v1 vs where "mc_validators mc = v0 # v1 # vs"
    by (cases "mc_validators mc"; cases "tl (mc_validators mc)") auto
  moreover have "nonSigners mc k = (if k \<noteq> 0 \<and> k mod 10 = 0 then None else gs_NonSigners s)"
    "doubleSigners mc k = gs_DoubleSigners s"
    using assms(3) by (auto simp: nonSigners_def doubleSigners_def)
  ultimately show ?thesis using st by (simp add: snapshot_nonSigners_def snapshot_doubleSigners_def)
qed

theorem signers_of_height_witness:
  "\<exists>mc s. newMockChain (sample no_json) 60 2 [] = Ret mc \<and> nonSigners mc 30 = None \<and> stateAt mc 30 = Some s \<and>
    gs_NonSigners s = Some [\<lparr>ns_Address = va_Address (mc_validators mc ! 0), ns_Counter = 1\<rparr>,
      \<lparr>ns_Address = va_Address (mc_validators mc ! 1), ns_Counter = 1\<rparr>] \<and>
    doubleSigners mc 30 = Some [\<lparr>ds_Id = va_Address (mc_validators mc ! 1), ds_Heights = [29, 30]\<rparr>] \<and>
    nonSigners mc 35 = Some [\<lparr>ns_Address = va_Address (mc_validators mc ! 0), ns_Counter = 3\<rparr>,
      \<lparr>ns_Address = va_Address (mc_validators mc ! 1), ns_Counter = 2\<rparr>] \<and> doubleSigners mc 35 = None"
proof -
  obtain mc where c: "newMockChain (sample no_json) 60 2 [] = Ret mc" by (rule sample_chain [of 60 no_json]) simp_all
  have n: "(60 :: int) < 2 ^ 63" by simp
  have "\<exists>s. stateAt mc k = Some s" if "k = 30 \<or> k = 35" for k
    using missing_heights(7) [OF c n, of k] that by (auto simp: has_height_def)
  then obtain s t where s: "stateAt mc 30 = Some s" "stateAt mc 35 = Some t" by metis
  have "(30 :: u64) mod 3 + 1 = 1" "(30 :: u64) mod 2 + 1 = 1" "(30 :: u64) mod 10 = 0" "(30 :: u64) mod 30 = 0"
    "(35 :: u64) mod 3 + 1 = 3" "(35 :: u64) mod 2 + 1 = 2" "(35 :: u64) mod 10 \<noteq> 0" "(35 :: u64) mod 30 \<noteq> 0"
    by simp_all
  with signers_of_height [OF c n s(1)] signers_of_height [OF c n s(2)] c s show ?thesis
    by (intro exI [of _ mc] exI [of _ s]) simp
qed

text \<open>
  C13. The dex batch is locked at height 0 and served for every height, so the dex prices
  are the same at every height of the chain (and for the query 0): pools of one and two
  million, prices of one half and two in millionths.
\<close>

theorem dex_prices_constant:
  assumes "muldiv_ok E" "newMockChain E n chainID opts = Ret mc" "n < 2 ^ 63" "has_height n k \<or> k = 0 \<and> 0 < n"
  shows "dexPricesAt E mc k =
    Some [\<lparr>dp_LocalChainId = chainID, dp_RemoteChainId = chainID + 1, dp_LocalPool = 1000000,
           dp_RemotePool = 2000000, dp_E6ScaledPrice = 500000\<rparr>,
          \<lparr>dp_LocalChainId = chainID + 1, dp_RemoteChainId = chainID, dp_LocalPool = 2000000,
           dp_RemotePool = 1000000, dp_E6ScaledPrice = 2000000\<rparr>]"
proof -
  define h where "h = (if k = 0 then latestHeight mc else k)"
  have "nat n < 2 ^ 64" using assms(3) by simp
  then have u: "unat (latestHeight mc) = nat n" by (simp add: chain_heights(1) [OF assms(2,3)] unat_of_nat_u64)
  have "has_height n h"
  proof (cases "k = 0")
    case True
    then have "h = latestHeight mc" "0 < n" using assms(4) by (auto simp: h_def has_height_def)
    then show ?thesis unfolding has_height_def \<open>h = latestHeight mc\<close> u by simp
  qed (use assms(4) in \<open>simp add: h_def\<close>)
  then have h: "1 \<le> unat h" "int (unat h) \<le> n" by (simp_all add: has_height_def)
  have d: "DexBatchAt mc h = Some (mc_lockedBatch mc)" "mc_chainID mc = chainID"
    "mc_lockedBatch mc = generateDexBatch (entities mc) 0 False None None None"
    by (rule chain_height [OF assms(2,3) h], assumption)+
  have "unat (en_safe_mul_div E 1000000 1000000 2000000) = 500000"
    "unat (en_safe_mul_div E 2000000 1000000 1000000) = 2000000"
    using assms(1) unfolding muldiv_ok_def by simp_all
  then have "en_safe_mul_div E 1000000 1000000 2000000 = 500000" "en_safe_mul_div E 2000000 1000000 1000000 = 2000000"
    by (simp_all add: word_unat_eq_iff)
  with d show ?thesis
    by (simp add: dexPricesAt_def DexBatchAt_def generateDexBatch_def flip: h_def)
qed

theorem dex_prices_constant_witness:
  "\<exists>mc. newMockChain (sample no_json) 3 2 [] = Ret mc \<and> dexPricesAt (sample no_json) mc 1 = dexPricesAt (sample no_json) mc 0 \<and>
    dexPricesAt (sample no_json) mc 1 \<noteq> None"
proof -
  obtain mc where c: "newMockChain (sample no_json) 3 2 [] = Ret mc" by (rule sample_3 [of no_json])
  have "dexPricesAt (sample no_json) mc 0 = dexPricesAt (sample no_json) mc 1" "dexPricesAt (sample no_json) mc 1 \<noteq> None"
    using dex_prices_constant [OF sample_muldiv c lt63, of 0] dex_prices_constant [OF sample_muldiv c lt63, of 1] by simp_all
  with c show ?thesis by auto
qed

end
