(* ===== verification/Wire.thy ===== *)
theory Wire
  imports RpcProps
begin

text \<open>
  The answers on the wire: the response writer of \<open>net/http\<close>, \<open>writeJSON\<close>, \<open>http.Error\<close>, the
  raw write of the indexer route and the redirects of the multiplexer, and the exchange of one request, in which the server turns
  a panic of the handler into a dropped connection. With what every exchange looks like.
\<close>

section \<open>The response writer\<close>

text \<open>The status is \<open>None\<close> until the header is written; what is sent cannot be changed.\<close>

record response_writer =
  rw_header :: "(string \<times> string) list"
  rw_status :: "int option"
  rw_body :: bytes

definition new_writer :: response_writer where
  "new_writer = \<lparr>rw_header = [], rw_status = None, rw_body = []\<rparr>"

definition header_Set :: "string \<Rightarrow> string \<Rightarrow> response_writer \<Rightarrow> response_writer" where
  "header_Set k v w = (if rw_status w = None then w\<lparr>rw_header := AList.update k v (rw_header w)\<rparr> else w)"

definition header_Del :: "string \<Rightarrow> response_writer \<Rightarrow> response_writer" where
  "header_Del k w = (if rw_status w = None then w\<lparr>rw_header := AList.delete k (rw_header w)\<rparr> else w)"

definition WriteHeader :: "int \<Rightarrow> response_writer \<Rightarrow> response_writer" where
  "WriteHeader code w = (if rw_status w = None then w\<lparr>rw_status := Some code\<rparr> else w)"

definition rw_Write :: "bytes \<Rightarrow> response_writer \<Rightarrow> response_writer" where
  "rw_Write bz w = (let w = WriteHeader 200 w in w\<lparr>rw_body := rw_body w @ bz\<rparr>)"

section \<open>Writing a response\<close>

text \<open>The error of the encoder is dropped, after the status has gone out.\<close>

definition writeJSON :: "'a rpc_env_scheme \<Rightarrow> response_writer \<Rightarrow> int \<Rightarrow> payload \<Rightarrow> response_writer" where
  "writeJSON E w code payload' =
     (let w = WriteHeader code (header_Set ''Content-Type'' ''application/json'' w) in
      case en_json_encode E payload' of None \<Rightarrow> w | Some bz \<Rightarrow> rw_Write bz w)"

definition http_Error :: "response_writer \<Rightarrow> string \<Rightarrow> int \<Rightarrow> response_writer" where
  "http_Error w msg code =
     (let w = header_Del ''Content-Length'' w;
          w = header_Set ''Content-Type'' ''text/plain; charset=utf-8'' w;
          w = header_Set ''X-Content-Type-Options'' ''nosniff'' w
      in rw_Write (bytes_of_string msg @ [10]) (WriteHeader code w))"

definition writeProto :: "response_writer \<Rightarrow> int \<Rightarrow> bytes \<Rightarrow> response_writer" where
  "writeProto w code bz =
     rw_Write bz (WriteHeader code (header_Set ''Content-Type'' ''application/x-protobuf'' w))"

text \<open>
  \<open>http.Redirect\<close>: the page is for \<open>GET\<close> and \<open>HEAD\<close>, and \<open>HEAD\<close> gets its type without its text.
\<close>

definition http_Redirect :: "'a rpc_env_scheme \<Rightarrow> response_writer \<Rightarrow> int \<Rightarrow> string \<Rightarrow> bytes option \<Rightarrow> response_writer" where
  "http_Redirect E w code location body =
     (let w = header_Set ''Location'' location w in
      case body of
        None \<Rightarrow> WriteHeader code w
      | Some bz \<Rightarrow> rw_Write bz (WriteHeader code (header_Set ''Content-Type'' ''text/html; charset=utf-8'' w)))"

fun write_response :: "'a rpc_env_scheme \<Rightarrow> response_writer \<Rightarrow> response \<Rightarrow> response_writer" where
  "write_response E w (JsonResp code p) = writeJSON E w code p"
| "write_response E w (ErrorResp code msg) = http_Error w msg code"
| "write_response E w (ProtoResp code bz) = writeProto w code bz"
| "write_response E w (RedirectResp code location body) = http_Redirect E w code location body"

text \<open>What a client sees; a handler that does not return leaves it waiting.\<close>

datatype reply = Reply response_writer | Dropped | Waiting

definition exchange :: "'a rpc_env_scheme \<Rightarrow> mock_chain \<Rightarrow> string \<Rightarrow> http_request \<Rightarrow> reply" where
  "exchange E mc path r =
     (case serve E mc path r of
        Ret resp \<Rightarrow> Reply (write_response E new_writer resp) | Panic p \<Rightarrow> Dropped | Diverge \<Rightarrow> Waiting)"

section \<open>The form of the answers\<close>

lemmas writer_defs = new_writer_def header_Set_def header_Del_def WriteHeader_def rw_Write_def Let_def

fun content_type :: "response \<Rightarrow> string option" where
  "content_type (JsonResp _ _) = Some ''application/json''"
| "content_type (ErrorResp _ _) = Some ''text/plain; charset=utf-8''"
| "content_type (ProtoResp _ _) = Some ''application/x-protobuf''"
| "content_type (RedirectResp _ _ body) = map_option (\<lambda>_. ''text/html; charset=utf-8'') body"

fun response_code :: "response \<Rightarrow> int" where
  "response_code (JsonResp c _) = c"
| "response_code (ErrorResp c _) = c"
| "response_code (ProtoResp c _) = c"
| "response_code (RedirectResp c _ _) = c"

fun response_body :: "'a rpc_env_scheme \<Rightarrow> response \<Rightarrow> bytes" where
  "response_body E (JsonResp _ p) = (case en_json_encode E p of None \<Rightarrow> [] | Some bz \<Rightarrow> bz)"
| "response_body E (ErrorResp _ msg) = bytes_of_string msg @ [10]"
| "response_body E (ProtoResp _ bz) = bz"
| "response_body E (RedirectResp _ _ body) = (case body of None \<Rightarrow> [] | Some bz \<Rightarrow> bz)"

fun response_location :: "response \<Rightarrow> string option" where
  "response_location (RedirectResp _ location _) = Some location"
| "response_location _ = None"

lemma write_response:
  "rw_status (write_response E new_writer resp) = Some (response_code resp)"
  "map_of (rw_header (write_response E new_writer resp)) ''Content-Type'' = content_type resp"
  "map_of (rw_header (write_response E new_writer resp)) ''Location'' = response_location resp"
  "rw_body (write_response E new_writer resp) = response_body E resp"
  by (cases resp; simp add: writer_defs writeJSON_def http_Error_def writeProto_def http_Redirect_def split: option.split)+

text \<open>The outcomes of the handlers: statuses 200, 404 and 500, the last on one route only.\<close>

definition well_formed :: "response \<Rightarrow> bool" where
  "well_formed resp \<longleftrightarrow>
     (case resp of JsonResp c _ \<Rightarrow> c = 200 | ProtoResp c _ \<Rightarrow> c = 200 | ErrorResp c _ \<Rightarrow> c = 404 \<or> c = 500
      | RedirectResp _ _ _ \<Rightarrow> False)"

lemma well_formed_simps [simp]:
  "well_formed (JsonResp c p) \<longleftrightarrow> c = 200" "well_formed (ProtoResp c b) \<longleftrightarrow> c = 200"
  "well_formed (ErrorResp c m) \<longleftrightarrow> c = 404 \<or> c = 500" "well_formed not_found"
  by (simp_all add: well_formed_def not_found_def)

definition wf_outcome :: "response go \<Rightarrow> bool" where
  "wf_outcome g \<longleftrightarrow> (\<forall>resp. g = Ret resp \<longrightarrow> well_formed resp)"

lemma wf_outcome_simps [simp]:
  "wf_outcome (Ret resp) \<longleftrightarrow> well_formed resp" "wf_outcome (Panic p)" "wf_outcome Diverge"
  "wf_outcome (found f v)" "wf_outcome (simple_page x n)"
  by (auto simp: wf_outcome_def found_def simple_page_def split: option.splits)

lemma wf_outcome_bind: "(\<And>x. m = Ret x \<Longrightarrow> wf_outcome (f x)) \<Longrightarrow> wf_outcome (go_bind m f)"
  by (cases m) simp_all

lemma wf_serve_page [simp]: "wf_outcome (serve_page E kind wrap q items)"
  unfolding serve_page_def by (rule wf_outcome_bind) (simp split: prod.split)

lemmas handler_defs = handle_head_def handle_block_def handle_cert_def handle_state_def handle_txs_def
  handle_events_def handle_accounts_def handle_orders_def handle_pools_def handle_dexPrice_def
  handle_dexBatch_def handle_nextDexBatch_def handle_allParams_def handle_feeParams_def handle_conParams_def
  handle_valParams_def handle_govParams_def handle_supply_def handle_validators_def handle_nonSigners_def
  handle_doubleSigners_def handle_committees_def handle_subsidized_def handle_retired_def handle_poll_def
  handle_proposals_def

lemma wf_indexerBlobs: "wf_outcome (handle_indexerBlobs E mc r)"
  by (auto simp: handle_indexerBlobs_def split: prod.split sum.split intro!: wf_outcome_bind)

lemma wf_routes: "h \<in> snd ` set (routes E) \<Longrightarrow> wf_outcome (h mc r)"
  by (auto simp: routes_def handler_defs serve_batch_def Let_def wf_indexerBlobs split: prod.split option.split)

text \<open>What is served: the redirect of a path that is not clean, or a handler's answer.\<close>

lemma wf_serve:
  assumes "serve E mc path r = Ret resp"
  shows "if rq_method r \<noteq> ''CONNECT'' \<and> cleanPath path \<noteq> path then resp = mux_redirect E (cleanPath path) r
    else well_formed resp"
proof (cases rule: serve_cases [of E mc path r])
  case redirect
  with assms show ?thesis unfolding if_P [OF redirect(2)] by simp
next
  case (handler h)
  then have "well_formed resp" using wf_routes [of h E mc r] assms by (simp add: wf_outcome_def)
  then show ?thesis unfolding if_not_P [OF handler(3)] .
next
  case unknown
  with assms show ?thesis unfolding if_not_P [OF unknown(2)] by auto
qed

lemma exchange_Reply:
  assumes "exchange E mc path r = Reply w"
  obtains resp where "serve E mc path r = Ret resp" "rw_status w = Some (response_code resp)"
    "map_of (rw_header w) ''Content-Type'' = content_type resp"
    "map_of (rw_header w) ''Location'' = response_location resp" "rw_body w = response_body E resp"
proof -
  obtain resp where "serve E mc path r = Ret resp" "w = write_response E new_writer resp"
    using assms by (auto simp: exchange_def split: go.splits)
  then show ?thesis using that write_response by metis
qed

section \<open>Every request is answered\<close>

lemma sum_case_returns: "(\<And>x. \<exists>r. f x = Ret r) \<Longrightarrow> \<exists>r. (case s of Inl e \<Rightarrow> Ret (Inl e) | Inr x \<Rightarrow> f x) = Ret r"
  by (cases s) auto

lemma option_case_returns: "(\<And>x. \<exists>r. f x = Ret r) \<Longrightarrow> \<exists>r. (case v of None \<Rightarrow> Ret a | Some x \<Rightarrow> f x) = Ret r"
  by (cases v) auto

lemma count_bind_returns:
  "fair_source E \<Longrightarrow> \<exists>r. go_bind (go_of_option (count_status E h vs acc)) (\<lambda>(a, u). Ret (f a u)) = Ret r"
  using count_status_returns [of E h vs acc] by auto

text \<open>No handler waits for ever on a fair source.\<close>

lemma BuildIndexerBlob_returns:
  assumes "fair_source E"
  shows "\<exists>r. BuildIndexerBlob E mc h = Ret r"
  unfolding BuildIndexerBlob_def
  by (intro sum_case_returns option_case_returns count_bind_returns assms)

lemma BuildIndexerBlobs_returns:
  assumes "fair_source E"
  shows "\<exists>r. BuildIndexerBlobs E mc q = Ret r"
proof -
  obtain r1 r2 where "BuildIndexerBlob E mc (q - 1) = Ret r1" "BuildIndexerBlob E mc (q - 2) = Ret r2"
    using BuildIndexerBlob_returns [OF assms] by metis
  then show ?thesis by (auto simp: BuildIndexerBlobs_def split: sum.split)
qed

definition answers :: "response go \<Rightarrow> bool" where
  "answers g \<longleftrightarrow> g \<noteq> Diverge"

lemma slice_bind_answers: "go_bind (go_slice xs lo hi) (\<lambda>x. Ret (f x)) \<noteq> Diverge"
  by (simp add: go_slice_def)

lemma paginate_answers: "paginate items n k \<noteq> Diverge"
  unfolding paginate_def Let_def by (rule slice_bind_answers)

lemma serve_page_answers: "serve_page E kind wrap q items \<noteq> Diverge"
  using paginate_answers by (simp add: serve_page_def) (cases "paginate items (hp_PageNumber q) (hp_PerPage q)"; auto)

lemma answers_simps [simp]:
  "answers (Ret resp)" "answers (serve_page E kind wrap q items)" "answers (found f v)" "answers (simple_page x n)"
  by (simp_all add: answers_def serve_page_answers) (simp_all add: found_def simple_page_def)

lemma indexerBlobs_answers: "fair_source E \<Longrightarrow> answers (handle_indexerBlobs E mc r)"
proof -
  assume fair: "fair_source E"
  obtain h d where d: "decodeBody E r blobs_field (0, False) = (h, d)" by fastforce
  obtain x where "BuildIndexerBlobs E mc (or_latest mc h) = Ret x" using BuildIndexerBlobs_returns [OF fair] by blast
  with d show ?thesis by (simp add: handle_indexerBlobs_def)
qed

lemma routes_answer: "fair_source E \<Longrightarrow> h \<in> snd ` set (routes E) \<Longrightarrow> answers (h mc r)"
  by (auto simp: routes_def handler_defs serve_batch_def Let_def indexerBlobs_answers split: prod.split option.split)

lemma serve_answers:
  assumes "fair_source E"
  shows "answers (serve E mc path r)"
  by (cases rule: serve_cases [of E mc path r]) (simp_all add: routes_answer [OF assms])

text \<open>The three outcomes of an exchange, by the outcome of the handler.\<close>

lemma exchange_cases:
  assumes "fair_source E"
  shows "exchange E mc path r \<noteq> Waiting"
    "exchange E mc path r = Dropped \<longleftrightarrow> (\<exists>p. serve E mc path r = Panic p)"
  using serve_answers [OF assms, of mc path r] by (auto simp: exchange_def answers_def split: go.split)

end
