(* ===== verification/OrderHeap.thy ===== *)
theory OrderHeap
  imports Rpc
begin

text \<open>
  \<open>normalizeOrderBooks\<close> with the pointers of the Go program. The order books of a chain are one
  heap object that the states of all heights point to and that concurrent requests read, so
  the copy it makes must share nothing it writes to. Objects live in an explicit heap;
  the function refines the one on values and leaves every object it finds as it is.
\<close>

section \<open>The heap\<close>

datatype order_obj =
    OBooks "nat option list"       \<comment> \<open>\<open>lib.OrderBooks\<close>: pointers to books\<close>
  | OBook u64 "nat option list"    \<comment> \<open>\<open>lib.OrderBook\<close>: identifier, pointers to orders\<close>
  | OOrder sell_order              \<comment> \<open>\<open>lib.SellOrder\<close>\<close>

record order_heap =
  hp_objs :: "nat \<Rightarrow> order_obj option"
  hp_next :: nat

definition heap_ok :: "order_heap \<Rightarrow> bool" where
  "heap_ok h \<longleftrightarrow> (\<forall>a. hp_next h \<le> a \<longrightarrow> hp_objs h a = None)"

definition heap_alloc :: "order_obj \<Rightarrow> order_heap \<Rightarrow> nat \<times> order_heap" where
  "heap_alloc x h = (hp_next h, h\<lparr>hp_objs := (hp_objs h)(hp_next h \<mapsto> x), hp_next := Suc (hp_next h)\<rparr>)"

definition heap_store :: "nat \<Rightarrow> order_obj \<Rightarrow> order_heap \<Rightarrow> order_heap" where
  "heap_store a x h = h\<lparr>hp_objs := (hp_objs h)(a \<mapsto> x)\<rparr>"

section \<open>The copy\<close>

text \<open>The inner loop over the orders of a book; reading through a dangling pointer panics.\<close>

fun clone_orders :: "u64 \<Rightarrow> nat option list \<Rightarrow> order_heap \<Rightarrow> (nat option list \<times> order_heap) go" where
  "clone_orders c [] h = Ret ([], h)"
| "clone_orders c (None # ps) h = clone_orders c ps h"
| "clone_orders c (Some a # ps) h =
     (case hp_objs h a of
        Some (OOrder order) \<Rightarrow>
          let (clone, h) = heap_alloc (OOrder order) h;
              h = heap_store clone (OOrder (order\<lparr>so_Committee := c\<rparr>)) h
          in go_bind (clone_orders c ps h) (\<lambda>(orders, h). Ret (Some clone # orders, h))
      | _ \<Rightarrow> Panic NilDereference)"

text \<open>The outer loop over the books.\<close>

fun copy_books :: "nat option list \<Rightarrow> order_heap \<Rightarrow> (nat option list \<times> order_heap) go" where
  "copy_books [] h = Ret ([], h)"
| "copy_books (None # ps) h = copy_books ps h"
| "copy_books (Some a # ps) h =
     (case hp_objs h a of
        Some (OBook c orders) \<Rightarrow>
          go_bind (clone_orders c orders h) (\<lambda>(clones, h).
            let (book, h) = heap_alloc (OBook c clones) h
            in go_bind (copy_books ps h) (\<lambda>(books, h). Ret (Some book # books, h)))
      | _ \<Rightarrow> Panic NilDereference)"

definition normalizeOrderBooks_heap :: "nat option \<Rightarrow> order_heap \<Rightarrow> (nat option \<times> order_heap) go" where
  "normalizeOrderBooks_heap src h =
     (case src of None \<Rightarrow> Ret (None, h)
      | Some a \<Rightarrow> (case hp_objs h a of
          Some (OBooks books) \<Rightarrow>
            let (dst, h) = heap_alloc (OBooks []) h in
            go_bind (copy_books books h) (\<lambda>(copies, h). Ret (Some dst, heap_store dst (OBooks copies) h))
        | _ \<Rightarrow> Panic NilDereference))"

section \<open>The values a heap represents\<close>

fun read_orders :: "(nat \<Rightarrow> order_obj option) \<Rightarrow> nat option list \<Rightarrow> sell_order option list option" where
  "read_orders m [] = Some []"
| "read_orders m (None # ps) = map_option (\<lambda>os. None # os) (read_orders m ps)"
| "read_orders m (Some a # ps) =
     (case m a of Some (OOrder order) \<Rightarrow> map_option (\<lambda>os. Some order # os) (read_orders m ps) | _ \<Rightarrow> None)"

fun read_book_list :: "(nat \<Rightarrow> order_obj option) \<Rightarrow> nat option list \<Rightarrow> order_book option list option" where
  "read_book_list m [] = Some []"
| "read_book_list m (None # ps) = map_option (\<lambda>bs. None # bs) (read_book_list m ps)"
| "read_book_list m (Some a # ps) =
     (case m a of
        Some (OBook c orders) \<Rightarrow>
          (case read_orders m orders of None \<Rightarrow> None
           | Some os \<Rightarrow> map_option (\<lambda>bs. Some \<lparr>ob_ChainId = c, ob_Orders = os\<rparr> # bs) (read_book_list m ps))
      | _ \<Rightarrow> None)"

definition read_books :: "(nat \<Rightarrow> order_obj option) \<Rightarrow> nat \<Rightarrow> order_books option" where
  "read_books m a =
     (case m a of Some (OBooks books) \<Rightarrow> map_option (\<lambda>bs. \<lparr>obs_OrderBooks = bs\<rparr>) (read_book_list m books) | _ \<Rightarrow> None)"

section \<open>Heaps that only grow\<close>

text \<open>\<open>h'\<close> has the objects of \<open>h\<close>, unchanged, and new ones above.\<close>

definition extends :: "order_heap \<Rightarrow> order_heap \<Rightarrow> bool" where
  "extends h h' \<longleftrightarrow> heap_ok h' \<and> hp_next h \<le> hp_next h' \<and> (\<forall>a < hp_next h. hp_objs h' a = hp_objs h a)"

lemma extends_refl: "heap_ok h \<Longrightarrow> extends h h"
  by (simp add: extends_def)

lemma extends_trans: "extends h1 h2 \<Longrightarrow> extends h2 h3 \<Longrightarrow> extends h1 h3"
  by (auto simp: extends_def)

lemma extends_le: "extends h h' \<Longrightarrow> heap_ok h \<Longrightarrow> hp_objs h \<subseteq>\<^sub>m hp_objs h'"
  unfolding extends_def heap_ok_def map_le_def by (metis domIff linorder_not_le)

lemma heap_alloc_extends: "heap_ok h \<Longrightarrow> extends h (snd (heap_alloc x h))"
  by (auto simp: extends_def heap_ok_def heap_alloc_def)

lemma heap_store_extends:
  "extends h h' \<Longrightarrow> hp_next h \<le> a \<Longrightarrow> a < hp_next h' \<Longrightarrow> extends h (heap_store a x h')"
  by (auto simp: extends_def heap_ok_def heap_store_def)

text \<open>A heap that has the books and the orders of another reads the same from them.\<close>

definition keeps_parts :: "(nat \<Rightarrow> order_obj option) \<Rightarrow> (nat \<Rightarrow> order_obj option) \<Rightarrow> bool" where
  "keeps_parts m m' \<longleftrightarrow> (\<forall>a x. m a = Some x \<longrightarrow> (\<forall>l. x \<noteq> OBooks l) \<longrightarrow> m' a = Some x)"

lemma keeps_partsD:
  "keeps_parts m m' \<Longrightarrow> m a = Some (OOrder ord) \<Longrightarrow> m' a = Some (OOrder ord)"
  "keeps_parts m m' \<Longrightarrow> m a = Some (OBook c l) \<Longrightarrow> m' a = Some (OBook c l)"
  by (simp_all add: keeps_parts_def)

lemma map_le_keeps: "m \<subseteq>\<^sub>m m' \<Longrightarrow> keeps_parts m m'"
  by (auto simp: keeps_parts_def map_le_def dom_def)

lemma read_orders_keeps:
  assumes "keeps_parts m m'" "read_orders m ps = Some os"
  shows "read_orders m' ps = Some os"
  using assms(2)
proof (induction ps arbitrary: os)
  case (Cons p ps)
  then show ?case
    by (cases p) (auto simp: keeps_partsD [OF assms(1)] split: option.splits order_obj.splits)
qed simp

lemma read_book_list_keeps:
  assumes "keeps_parts m m'" "read_book_list m ps = Some bs"
  shows "read_book_list m' ps = Some bs"
  using assms(2)
proof (induction ps arbitrary: bs)
  case (Cons p ps)
  show ?case
  proof (cases p)
    case None
    with Cons show ?thesis by auto
  next
    case (Some a)
    then obtain c orders os bs' where "m a = Some (OBook c orders)" "read_orders m orders = Some os"
      "read_book_list m ps = Some bs'" "bs = Some \<lparr>ob_ChainId = c, ob_Orders = os\<rparr> # bs'"
      using Cons.prems by (auto split: option.splits order_obj.splits)
    with Some Cons.IH keeps_partsD(2) [OF assms(1)] read_orders_keeps [OF assms(1)] show ?thesis by simp
  qed
qed simp

lemmas read_orders_mono = read_orders_keeps [OF map_le_keeps]
lemmas read_book_list_mono = read_book_list_keeps [OF map_le_keeps]

lemma read_books_mono:
  assumes "m \<subseteq>\<^sub>m m'" "read_books m a = Some obs"
  shows "read_books m' a = Some obs"
proof -
  obtain books bs where "m a = Some (OBooks books)" "read_book_list m books = Some bs" "obs = \<lparr>obs_OrderBooks = bs\<rparr>"
    using assms(2) by (auto simp: read_books_def split: option.splits order_obj.splits)
  moreover from this(1) have "m' a = Some (OBooks books)" using assms(1) by (auto simp: map_le_def dom_def)
  ultimately show ?thesis using read_book_list_mono [OF assms(1)] by (simp add: read_books_def)
qed

section \<open>The copy refines the function on values\<close>

lemma clone_orders_refines:
  assumes "heap_ok h" "read_orders (hp_objs h) ps = Some os"
  shows "\<exists>qs h'. clone_orders c ps h = Ret (qs, h') \<and> extends h h' \<and>
    read_orders (hp_objs h') qs = Some (map (\<lambda>order. Some (order\<lparr>so_Committee := c\<rparr>)) (List.map_filter id os))"
  using assms
proof (induction ps arbitrary: h os)
  case Nil
  then show ?case by (auto simp: extends_refl List.map_filter_def)
next
  case (Cons p ps)
  show ?case
  proof (cases p)
    case None
    then obtain os' where "read_orders (hp_objs h) ps = Some os'" "os = None # os'" using Cons.prems(2) by auto
    with None Cons.IH [OF Cons.prems(1)] show ?thesis by (simp add: List.map_filter_def)
  next
    case (Some a)
    then obtain order os' where o: "hp_objs h a = Some (OOrder order)" "read_orders (hp_objs h) ps = Some os'" "os = Some order # os'"
      using Cons.prems(2) by (auto split: option.splits order_obj.splits)
    let ?n = "hp_next h" and ?o = "OOrder (order\<lparr>so_Committee := c\<rparr>)"
    let ?h = "heap_store ?n ?o (snd (heap_alloc (OOrder order) h))"
    have e: "extends h ?h"
      using heap_alloc_extends [OF Cons.prems(1)] by (rule heap_store_extends) (simp_all add: heap_alloc_def)
    have ok: "heap_ok ?h" using e by (simp add: extends_def)
    have "read_orders (hp_objs ?h) ps = Some os'"
      by (rule read_orders_mono [OF extends_le [OF e Cons.prems(1)] o(2)])
    from Cons.IH [OF ok this] obtain qs h' where q: "clone_orders c ps ?h = Ret (qs, h')" "extends ?h h'"
      "read_orders (hp_objs h') qs = Some (map (\<lambda>order. Some (order\<lparr>so_Committee := c\<rparr>)) (List.map_filter id os'))" by blast
    have "hp_objs ?h ?n = Some ?o" by (simp add: heap_store_def)
    then have "hp_objs h' ?n = Some ?o" using extends_le [OF q(2) ok] by (auto simp: map_le_def dom_def)
    moreover have "clone_orders c (p # ps) h = Ret (Some ?n # qs, h')"
      using Some o(1) q(1) by (simp add: heap_alloc_def Let_def)
    ultimately show ?thesis using q(3) o(3) extends_trans [OF e q(2)] by (simp add: List.map_filter_def)
  qed
qed

definition normalize_book :: "order_book \<Rightarrow> order_book" where
  "normalize_book book =
     \<lparr>ob_ChainId = ob_ChainId book,
      ob_Orders = map (\<lambda>order. Some (order\<lparr>so_Committee := ob_ChainId book\<rparr>)) (List.map_filter id (ob_Orders book))\<rparr>"

lemma copy_books_refines:
  assumes "heap_ok h" "read_book_list (hp_objs h) ps = Some bs"
  shows "\<exists>qs h'. copy_books ps h = Ret (qs, h') \<and> extends h h' \<and>
    read_book_list (hp_objs h') qs = Some (map (\<lambda>book. Some (normalize_book book)) (List.map_filter id bs))"
  using assms
proof (induction ps arbitrary: h bs)
  case Nil
  then show ?case by (auto simp: extends_refl List.map_filter_def)
next
  case (Cons p ps)
  show ?case
  proof (cases p)
    case None
    then obtain bs' where "read_book_list (hp_objs h) ps = Some bs'" "bs = None # bs'" using Cons.prems(2) by auto
    with None Cons.IH [OF Cons.prems(1)] show ?thesis by (simp add: List.map_filter_def)
  next
    case (Some a)
    then obtain c orders os bs' where b: "hp_objs h a = Some (OBook c orders)" "read_orders (hp_objs h) orders = Some os"
      "read_book_list (hp_objs h) ps = Some bs'" "bs = Some \<lparr>ob_ChainId = c, ob_Orders = os\<rparr> # bs'"
      using Cons.prems(2) by (auto split: option.splits order_obj.splits)
    obtain clones h1 where c: "clone_orders c orders h = Ret (clones, h1)" "extends h h1"
      "read_orders (hp_objs h1) clones = Some (map (\<lambda>order. Some (order\<lparr>so_Committee := c\<rparr>)) (List.map_filter id os))"
      using clone_orders_refines [OF Cons.prems(1) b(2)] by blast
    have ok1: "heap_ok h1" using c(2) by (simp add: extends_def)
    let ?n = "hp_next h1" and ?h2 = "snd (heap_alloc (OBook c clones) h1)"
    have e2: "extends h1 ?h2" by (rule heap_alloc_extends [OF ok1])
    then have ok2: "heap_ok ?h2" by (simp add: extends_def)
    have "read_book_list (hp_objs ?h2) ps = Some bs'"
      using read_book_list_mono [OF extends_le [OF extends_trans [OF c(2) e2] Cons.prems(1)] b(3)] .
    from Cons.IH [OF ok2 this] obtain qs h' where q: "copy_books ps ?h2 = Ret (qs, h')" "extends ?h2 h'"
      "read_book_list (hp_objs h') qs = Some (map (\<lambda>book. Some (normalize_book book)) (List.map_filter id bs'))" by blast
    have "hp_objs ?h2 ?n = Some (OBook c clones)" by (simp add: heap_alloc_def)
    then have "hp_objs h' ?n = Some (OBook c clones)" using extends_le [OF q(2) ok2] by (auto simp: map_le_def dom_def)
    moreover have "read_orders (hp_objs h') clones = Some (map (\<lambda>order. Some (order\<lparr>so_Committee := c\<rparr>)) (List.map_filter id os))"
      using read_orders_mono [OF extends_le [OF extends_trans [OF e2 q(2)] ok1] c(3)] .
    moreover have "copy_books (p # ps) h = Ret (Some ?n # qs, h')"
      using Some b(1) c(1) q(1) by (simp add: heap_alloc_def Let_def)
    ultimately show ?thesis
      using q(3) b(4) extends_trans [OF extends_trans [OF c(2) e2] q(2)] by (simp add: List.map_filter_def normalize_book_def)
  qed
qed

lemma normalizeOrderBooks_refines:
  assumes "heap_ok h" "read_books (hp_objs h) src = Some obs"
  shows "\<exists>dst h'. normalizeOrderBooks_heap (Some src) h = Ret (Some dst, h') \<and> extends h h' \<and> hp_next h \<le> dst \<and>
    read_books (hp_objs h') dst = Some (normalizeOrderBooks obs)"
proof -
  obtain books bs where s: "hp_objs h src = Some (OBooks books)" "read_book_list (hp_objs h) books = Some bs"
    "obs = \<lparr>obs_OrderBooks = bs\<rparr>"
    using assms(2) by (auto simp: read_books_def split: option.splits order_obj.splits)
  let ?n = "hp_next h" and ?h1 = "snd (heap_alloc (OBooks []) h)"
  have e1: "extends h ?h1" by (rule heap_alloc_extends [OF assms(1)])
  then have ok1: "heap_ok ?h1" by (simp add: extends_def)
  have "read_book_list (hp_objs ?h1) books = Some bs"
    by (rule read_book_list_mono [OF extends_le [OF e1 assms(1)] s(2)])
  from copy_books_refines [OF ok1 this] obtain qs h2 where q: "copy_books books ?h1 = Ret (qs, h2)" "extends ?h1 h2"
    "read_book_list (hp_objs h2) qs = Some (map (\<lambda>book. Some (normalize_book book)) (List.map_filter id bs))" by blast
  have "hp_objs ?h1 ?n = Some (OBooks [])" "?n < hp_next ?h1" by (simp_all add: heap_alloc_def)
  moreover from this have n: "hp_objs h2 ?n = Some (OBooks [])" "?n < hp_next h2"
    using extends_le [OF q(2) ok1] q(2) by (auto simp: map_le_def dom_def extends_def)
  ultimately have e2: "extends h (heap_store ?n (OBooks qs) h2)"
    using heap_store_extends [OF extends_trans [OF e1 q(2)]] by blast
  have "keeps_parts (hp_objs h2) ((hp_objs h2)(?n \<mapsto> OBooks qs))" using n(1) by (auto simp: keeps_parts_def)
  from read_book_list_keeps [OF this q(3)] have "read_books (hp_objs (heap_store ?n (OBooks qs) h2)) ?n = Some (normalizeOrderBooks obs)"
    by (simp add: read_books_def heap_store_def s(3) normalizeOrderBooks_def normalize_book_def)
  moreover have "normalizeOrderBooks_heap (Some src) h = Ret (Some ?n, heap_store ?n (OBooks qs) h2)"
    using s(1) q(1) by (simp add: normalizeOrderBooks_heap_def heap_alloc_def Let_def)
  ultimately show ?thesis using e2 by blast
qed

end
