(* ===== verification/RpcProperties.thy ===== *)
theory RpcProperties
  imports ChainProperties Wire OrderHeap
begin

text \<open>
  The properties of the RPC layer over a built chain: indexer blobs, status codes, the round
  trip of a height in the query, pages, and order books.
\<close>

text \<open>A request with neither query nor body, and one with a body.\<close>

definition plain_request :: "(string \<times> string list) list \<Rightarrow> http_request" where
  "plain_request qs = \<lparr>rq_method = ''GET'', rq_query = qs, rq_body = [], rq_body_err = False, rq_contentLength = 0\<rparr>"

definition body_request :: "bytes \<Rightarrow> http_request" where
  "body_request b = \<lparr>rq_method = ''POST'', rq_query = [], rq_body = b, rq_body_err = False, rq_contentLength = int (length b)\<rparr>"

lemma digits: "dec_nat 2 = ''2''" "dec_nat 4 = ''4''"
  by code_simp+

text \<open>
  C14. The blobs of query height \<open>q\<close> exist exactly for \<open>2 \<le> q \<le> n + 1\<close>: the current blob holds
  the marshalled block and state of height \<open>q - 1\<close>, the previous one those of \<open>q - 2\<close> and is
  missing only for \<open>q = 2\<close>; any other query is an unknown-height error.
\<close>

theorem indexer_blobs_of_chain:
  assumes "marshals E" "fair_source E" "newMockChain E n chainID opts = Ret mc" "n < 2 ^ 63"
  shows "if 2 \<le> unat q \<and> int (unat q) \<le> n + 1
    then \<exists>cur prev. BuildIndexerBlobs E mc q = Ret (Inr \<lparr>ibs_Current = Some cur, ibs_Previous = prev\<rparr>) \<and>
      blob_matches E mc (q - 1) cur \<and>
      (case prev of None \<Rightarrow> q = 2 | Some pb \<Rightarrow> 2 < q \<and> blob_matches E mc (q - 2) pb)
    else \<exists>h. BuildIndexerBlobs E mc q = Ret (Inl (UnknownHeight h))"
proof (cases "2 \<le> unat q \<and> int (unat q) \<le> n + 1")
  case True
  then show ?thesis using BuildIndexerBlobs_chain(1) [OF assms, of q] by simp
next
  case False
  then have "unat q < 2 \<or> n + 1 < int (unat q)" by linarith
  then show ?thesis unfolding if_not_P [OF False] by (rule BuildIndexerBlobs_chain(2) [OF assms])
qed

theorem indexer_blobs_of_chain_witness:
  "\<exists>mc cur prev h. newMockChain (sample no_json) 3 2 [] = Ret mc \<and>
    BuildIndexerBlobs (sample no_json) mc 4 = Ret (Inr \<lparr>ibs_Current = Some cur, ibs_Previous = Some prev\<rparr>) \<and>
    blob_matches (sample no_json) mc 3 cur \<and> blob_matches (sample no_json) mc 2 prev \<and>
    BuildIndexerBlobs (sample no_json) mc 5 = Ret (Inl (UnknownHeight h))"
proof -
  obtain mc where c: "newMockChain (sample no_json) 3 2 [] = Ret mc" by (rule sample_3 [of no_json])
  note f = indexer_blobs_of_chain [OF sample_marshals sample_fair c lt63]
  have q: "(4 :: u64) - 1 = 3" "(4 :: u64) - 2 = 2" by simp_all
  from f [of 4, unfolded q] obtain cur prev where b: "BuildIndexerBlobs (sample no_json) mc 4 = Ret (Inr \<lparr>ibs_Current = Some cur, ibs_Previous = prev\<rparr>)"
    "blob_matches (sample no_json) mc 3 cur"
    "case prev of None \<Rightarrow> (4 :: u64) = 2 | Some pb \<Rightarrow> (2 :: u64) < 4 \<and> blob_matches (sample no_json) mc 2 pb"
    by auto
  then obtain pb where "prev = Some pb" "blob_matches (sample no_json) mc 2 pb" by (cases prev) auto
  moreover obtain h where "BuildIndexerBlobs (sample no_json) mc 5 = Ret (Inl (UnknownHeight h))" using f [of 5] by auto
  ultimately show ?thesis using c b by blast
qed

lemma snapshot_status_count:
  assumes "opt_mapM (snapshot_validator E chainID k) vs = Some ws"
  shows "length (filter (\<lambda>a. ValidatorStatusAt E a 0 k = Some ValidatorActive) (map va_Address vs)) =
      length (filter (\<lambda>w. va_UnstakingHeight w = 0) ws)"
    "length (filter (\<lambda>a. ValidatorStatusAt E a 0 k = Some ValidatorUnstaked) (map va_Address vs)) =
      length (filter (\<lambda>w. va_UnstakingHeight w \<noteq> 0) ws)"
  using assms
  by (induction vs arbitrary: ws) (auto simp: bind_eq_Some_conv dest!: snapshot_validator_Some(6) split: if_splits)

text \<open>
  C15. The indexer can walk the chain: the previous blob of query height \<open>q + 1\<close> is the
  current blob of \<open>q\<close>. The totals of active and unstaking validators in a blob are those of
  the next state, one height after the validators the blob lists.
\<close>

theorem indexer_continuity:
  assumes "marshals E" "fair_source E" "newMockChain E n chainID opts = Ret mc" "n < 2 ^ 63"
    "2 \<le> unat q" "int (unat q) \<le> n"
  shows "\<exists>cur prev cur' s. BuildIndexerBlobs E mc q = Ret (Inr \<lparr>ibs_Current = Some cur, ibs_Previous = prev\<rparr>) \<and>
    BuildIndexerBlobs E mc (q + 1) = Ret (Inr \<lparr>ibs_Current = Some cur', ibs_Previous = Some cur\<rparr>) \<and>
    stateAt mc q = Some s \<and>
    ib_TotalValidatorsActive cur = of_nat (length (filter (\<lambda>v. va_UnstakingHeight v = 0) (gs_Validators s))) \<and>
    ib_TotalValidatorsUnstaking cur = of_nat (length (filter (\<lambda>v. va_UnstakingHeight v \<noteq> 0) (gs_Validators s)))"
proof -
  have "int (unat q) < 2 ^ 63" using assms(6,4) by (rule order_le_less_trans)
  then have "unat q < 2 ^ 63" by (simp only: of_nat_less_numeral_power_cancel_iff)
  then have q1: "unat (q + 1) = unat q + 1" by (simp add: unat_word_ariths)
  have sub: "q + 1 - 1 = q" "q + 1 - 2 = q - 1" "q - 1 + 1 = q" by simp_all
  obtain cur prev where cur: "BuildIndexerBlobs E mc q = Ret (Inr \<lparr>ibs_Current = Some cur, ibs_Previous = prev\<rparr>)"
    using BuildIndexerBlobs_chain(1) [OF assms(1-5)] assms(6) by auto
  have b: "BuildIndexerBlob E mc (q - 1) = Ret (Inr cur)"
    using BuildIndexerBlobs_parts(1) [OF cur] by simp
  obtain cur' prev' where nxt: "BuildIndexerBlobs E mc (q + 1) = Ret (Inr \<lparr>ibs_Current = Some cur', ibs_Previous = prev'\<rparr>)"
    using BuildIndexerBlobs_chain(1) [OF assms(1-4), of "q + 1"] assms(5,6) q1 by auto
  have "2 < q + 1" using q1 assms(5) by (simp add: word_less_nat_alt)
  then have "prev' = Some cur"
    using BuildIndexerBlobs_parts(2) [OF nxt] b unfolding sub by auto
  moreover obtain s' where s': "stateAt mc (q - 1) = Some s'"
    "ib_TotalValidatorsActive cur = of_nat (length (filter (\<lambda>a. ValidatorStatusAt E a 0 q = Some ValidatorActive)
       (map va_Address (gs_Validators s'))))"
    "ib_TotalValidatorsUnstaking cur = of_nat (length (filter (\<lambda>a. ValidatorStatusAt E a 0 q = Some ValidatorUnstaked)
       (map va_Address (gs_Validators s'))))"
    using BuildIndexerBlob_totals [OF b] unfolding sub by metis
  moreover obtain s where s: "stateAt mc q = Some s"
    using missing_heights(7) [OF assms(3,4), of q] assms(5,6) by (auto simp: has_height_def)
  moreover have "opt_mapM (snapshot_validator E (mc_chainID mc) (q - 1)) (mc_validators mc) = Some (gs_Validators s')"
    using snapshotStateAt_Ret(5) [OF chain_state(1) [OF assms(3,4) s'(1)]] by simp
  then have "map va_Address (gs_Validators s') = map va_Address (mc_validators mc)"
    by (rule opt_mapM_map) (rule snapshot_validator_Some(1))
  moreover have "opt_mapM (snapshot_validator E (mc_chainID mc) q) (mc_validators mc) = Some (gs_Validators s)"
    using snapshotStateAt_Ret(5) [OF chain_state(1) [OF assms(3,4) s]] by simp
  note snapshot_status_count [OF this]
  ultimately show ?thesis using cur nxt by auto
qed

theorem indexer_continuity_witness:
  "\<exists>mc cur prev cur'. newMockChain (sample no_json) 3 2 [] = Ret mc \<and>
    BuildIndexerBlobs (sample no_json) mc 3 = Ret (Inr \<lparr>ibs_Current = Some cur, ibs_Previous = prev\<rparr>) \<and>
    BuildIndexerBlobs (sample no_json) mc 4 = Ret (Inr \<lparr>ibs_Current = Some cur', ibs_Previous = Some cur\<rparr>)"
proof -
  obtain mc where c: "newMockChain (sample no_json) 3 2 [] = Ret mc" by (rule sample_3 [of no_json])
  have "(3 :: u64) + 1 = 4" by simp
  with indexer_continuity [OF sample_marshals sample_fair c lt63, of 3] c show ?thesis by auto
qed

text \<open>
  C16. The indexer-blobs route, for the height asked for or the latest when none is: below 2 it
  answers 404 naming that height, past the last block by more than one 404 naming the height
  before. For any other height it answers 500 with the text of the first part of the two
  blobs that does not marshal; and when every part does, it takes the delta of the blobs of
  the two heights before, and answers 200 with its bytes, or 500 with the error of the delta
  or of its marshalling. The \<open>delta\<close> field of the request has no effect.
\<close>

theorem indexer_blobs_route:
  assumes "fair_source E" "newMockChain E n chainID opts = Ret mc" "n < 2 ^ 63"
    "decodeBody E r blobs_field (0, False) = (h, delta)" "q = or_latest mc h"
  shows "if unat q < 2 then handle_indexerBlobs E mc r = Ret (ErrorResp 404 (''unknown height: '' @ dec_nat (unat q)))
    else if n + 1 < int (unat q)
    then handle_indexerBlobs E mc r = Ret (ErrorResp 404 (''unknown height: '' @ dec_nat (unat q - 1)))
    else (case marshalEach E (query_parts mc q) of
        Inl e \<Rightarrow> \<exists>v \<in> set (query_parts mc q). \<exists>m. e = MarshalError m \<and> en_marshal E v = Inl m \<and>
          handle_indexerBlobs E mc r = Ret (ErrorResp 500 m)
      | Inr _ \<Rightarrow> \<exists>cur prev. blob_matches E mc (q - 1) cur \<and>
          (case prev of None \<Rightarrow> q = 2 | Some pb \<Rightarrow> 2 < q \<and> blob_matches E mc (q - 2) pb) \<and>
          handle_indexerBlobs E mc r = Ret
            (case en_delta_blobs E \<lparr>ibs_Current = Some cur, ibs_Previous = prev\<rparr> of
               Inl m \<Rightarrow> ErrorResp 500 m
             | Inr ds \<Rightarrow> (case en_marshal E (PBlobs ds) of Inl m \<Rightarrow> ErrorResp 500 m | Inr bz \<Rightarrow> ProtoResp 200 bz)))"
proof -
  have e: "handle_indexerBlobs E mc r = Ret (ErrorResp (if is_unknown_height e then 404 else 500) (error_text e))"
    if "BuildIndexerBlobs E mc q = Ret (Inl e)" for e
    using that assms(4,5) by (simp add: handle_indexerBlobs_def)
  note unknown = BuildIndexerBlobs_unknown [OF assms(2,3), of q]
  consider "unat q < 2" | "\<not> unat q < 2" "n + 1 < int (unat q)" | "\<not> unat q < 2" "\<not> n + 1 < int (unat q)" by blast
  then show ?thesis
  proof cases
    case 1
    then show ?thesis using e [OF unknown(1)] by (simp add: is_unknown_height_def)
  next
    case 2
    then have "unat (q - 1) = unat q - 1" by (simp add: unat_sub word_le_nat_alt)
    then show ?thesis using 2 e [OF unknown(2)] by (simp add: is_unknown_height_def)
  next
    case 3
    then have q: "2 \<le> unat q" "int (unat q) \<le> n + 1" by simp_all
    note b = BuildIndexerBlobs_query [OF assms(1-3) q]
    show ?thesis
    proof (cases "marshalEach E (query_parts mc q)")
      case (Inl err)
      then obtain v m where "v \<in> set (query_parts mc q)" "err = MarshalError m" "en_marshal E v = Inl m"
        using marshalEach_Inl by blast
      then show ?thesis using Inl b e [of err] 3 by (auto simp: is_unknown_height_def)
    next
      case (Inr bs)
      with b obtain cur prev where c: "BuildIndexerBlobs E mc q = Ret (Inr \<lparr>ibs_Current = Some cur, ibs_Previous = prev\<rparr>)"
        "blob_matches E mc (q - 1) cur" "case prev of None \<Rightarrow> q = 2 | Some pb \<Rightarrow> 2 < q \<and> blob_matches E mc (q - 2) pb"
        by auto
      have "handle_indexerBlobs E mc r = Ret
          (case en_delta_blobs E \<lparr>ibs_Current = Some cur, ibs_Previous = prev\<rparr> of
             Inl m \<Rightarrow> ErrorResp 500 m
           | Inr ds \<Rightarrow> (case en_marshal E (PBlobs ds) of Inl m \<Rightarrow> ErrorResp 500 m | Inr bz \<Rightarrow> ProtoResp 200 bz))"
        using c(1) assms(4,5) by (simp add: handle_indexerBlobs_def)
      with c(2,3) show ?thesis unfolding if_not_P [OF 3(1)] if_not_P [OF 3(2)] Inr sum.case by blast
    qed
  qed
qed

text \<open>A body of one byte asks for the height that the byte is.\<close>

lemma unat_ucast_byte: "unat (ucast (b :: 8 word) :: u64) = unat b"
proof -
  have "unat b < 2 ^ 8" using unsigned_less [of b] by simp
  then have "unat b < 2 ^ 64" by (rule order_less_le_trans) simp
  then show ?thesis by (simp add: unsigned_ucast_eq take_bit_nat_eq_self)
qed

definition height_json :: "bytes \<Rightarrow> json option" where
  "height_json b = Some (JObj [(''height'', JNum (dec_nat (unat (hd b))))])"

lemma height_json_request:
  assumes "\<not> is_space b"
  shows "decodeBody (sample height_json) (body_request [b]) blobs_field (0, False) = (ucast b, False)"
proof -
  have k: "key_matches ''height'' ''height''" by code_simp
  have "decode_u64 (JNum (dec_nat (unat b))) 0 = ucast b"
    using decode_u64_dec [of "ucast b :: u64" 0] unfolding unat_ucast_byte .
  then show ?thesis using assms k
    by (simp add: decodeBody_def body_request_def height_json_def decode_members_def blobs_field_def)
qed

theorem indexer_blobs_route_witness:
  "\<exists>mc bz. newMockChain (sample height_json) 3 2 [] = Ret mc \<and>
    handle_indexerBlobs (sample height_json) mc (body_request [4]) = Ret (ProtoResp 200 bz) \<and>
    handle_indexerBlobs (sample height_json) mc (body_request [6]) = Ret (ErrorResp 404 ''unknown height: 5'') \<and>
    handle_indexerBlobs (sample height_json) mc (body_request [1]) = Ret (ErrorResp 404 ''unknown height: 1'')"
proof -
  obtain mc where c: "newMockChain (sample height_json) 3 2 [] = Ret mc" by (rule sample_3 [of height_json])
  have d: "decodeBody (sample height_json) (body_request [4]) blobs_field (0, False) = (4, False)"
    "decodeBody (sample height_json) (body_request [6]) blobs_field (0, False) = (6, False)"
    "decodeBody (sample height_json) (body_request [1]) blobs_field (0, False) = (1, False)"
    using height_json_request [of 4] height_json_request [of 6] height_json_request [of 1] by (simp_all add: is_space_def)
  have q: "4 = or_latest mc 4" "6 = or_latest mc 6" "1 = or_latest mc 1" by (simp_all add: or_latest_def)
  have n: "dec_nat (Suc 0) = ''1''" "dec_nat 5 = ''5''" by code_simp+
  note f = indexer_blobs_route [OF sample_fair c lt63]
  have "handle_indexerBlobs (sample height_json) mc (body_request [6]) = Ret (ErrorResp 404 ''unknown height: 5'')"
    using f [OF d(2) q(2)] n by simp
  moreover have "handle_indexerBlobs (sample height_json) mc (body_request [1]) = Ret (ErrorResp 404 ''unknown height: 1'')"
    using f [OF d(3) q(3)] n by simp
  moreover obtain bs where "marshalEach (sample height_json) (query_parts mc 4) = Inr bs"
    using marshalEach_total [OF sample_marshals] by blast
  then have "\<exists>bz. handle_indexerBlobs (sample height_json) mc (body_request [4]) = Ret (ProtoResp 200 bz)"
    using f [OF d(1) q(1)] sample_marshals [of height_json] by (auto simp: marshals_def split: sum.splits)
  ultimately show ?thesis using c by blast
qed

text \<open>
  Status codes: the block, certificate and supply routes answer 200 for a height up to
  the number of blocks (0 or no height means the latest) and 404 for any later one.
\<close>

theorem height_routes_status:
  assumes "newMockChain E n chainID opts = Ret mc" "0 < n" "n < 2 ^ 63"
  shows "\<forall>handler \<in> {handle_block E, handle_cert E, handle_supply E}.
    status (handler mc r) = Some (if int (unat (parseHeightReq E r)) \<le> n then 200 else 404)"
  using single_routes_status [OF assms, of r] by (simp add: served_def)

theorem height_routes_status_witness:
  "\<exists>mc. newMockChain (sample no_json) 3 2 [] = Ret mc \<and>
    status (handle_block (sample no_json) mc (plain_request [])) = Some 200 \<and>
    status (handle_cert (sample no_json) mc (plain_request [(''height'', [''4''])])) = Some 404"
proof -
  obtain mc where c: "newMockChain (sample no_json) 3 2 [] = Ret mc" by (rule sample_3 [of no_json])
  have "parseHeightReq (sample no_json) (plain_request []) = 0"
    by (simp add: parseHeightReq_def query_get_def plain_request_def decodeBody_def)
  moreover have "parseHeightReq (sample no_json) (plain_request [(''height'', [''4''])]) = 4"
    by (rule parseHeightReq_query) (simp add: query_get_def plain_request_def digits)
  ultimately show ?thesis
    using height_routes_status [OF c _ lt63, of "plain_request []"]
      height_routes_status [OF c _ lt63, of "plain_request [(''height'', [''4''])]"] c by auto
qed

text \<open>
  C17. Round trip of a height through the query string: asking for \<open>?height=\<close> the decimal of a
  height of the chain returns the block of that height, its certificate and its state.
\<close>

theorem query_height_roundtrip:
  assumes "newMockChain E n chainID opts = Ret mc" "n < 2 ^ 63" "has_height n k"
    "query_get r ''height'' = dec_nat (unat k)"
  shows "\<exists>b c s. handle_block E mc r = Ret (JsonResp 200 (PlBlock b)) \<and> bh_Height (br_BlockHeader b) = k \<and>
    handle_cert E mc r = Ret (JsonResp 200 (PlCert c)) \<and> vw_Height (qc_Header c) = k \<and>
    handle_state E mc r = Ret (JsonResp 200 (PlState s)) \<and> gs_Time s = of_int (blockTimeMicro k)"
proof -
  have k: "1 \<le> unat k" "int (unat k) \<le> n" using assms(3) by (simp_all add: has_height_def)
  then have "k \<noteq> 0" by auto
  moreover have "parseHeightReq E r = k" by (rule parseHeightReq_query [OF assms(4)])
  moreover obtain b where "BlockAt mc k = Some b" "bh_Height (br_BlockHeader b) = k"
    using chain_block [OF assms(1,2) k] by blast
  moreover obtain c where "CertAt mc k = Some c" "vw_Height (qc_Header c) = k"
    using chain_certificate [OF assms(1,2) k] by blast
  moreover obtain s where s: "stateAt mc k = Some s"
    using missing_heights(7) [OF assms(1,2), of k] assms(3) by auto
  ultimately show ?thesis
    using snapshotStateAt_Ret(6) [OF chain_state(1) [OF assms(1,2) s]]
    by (simp add: handle_block_def handle_cert_def handle_state_def found_def or_latest_def Let_def)
qed

theorem query_height_roundtrip_witness:
  "\<exists>mc b. newMockChain (sample no_json) 3 2 [] = Ret mc \<and>
    handle_block (sample no_json) mc (plain_request [(''height'', [''2''])]) = Ret (JsonResp 200 (PlBlock b)) \<and>
    bh_Height (br_BlockHeader b) = 2"
proof -
  obtain mc where c: "newMockChain (sample no_json) 3 2 [] = Ret mc" by (rule sample_3 [of no_json])
  have "has_height 3 2" by (simp add: has_height_def)
  moreover have "query_get (plain_request [(''height'', [''2''])]) ''height'' = dec_nat (unat (2 :: u64))"
    by (simp add: query_get_def plain_request_def digits)
  ultimately show ?thesis using query_height_roundtrip [OF c lt63] c by blast
qed

section \<open>Pages\<close>

text \<open>
  C18. Pages lose nothing: the pages 1 to \<open>m\<close> of the transactions of a height, asked for with
  the same page size, are all answered with 200, report the total number and the exact
  number of pages, and their results put together are the transactions of the height.
\<close>

theorem pages_cover_transactions:
  assumes "\<And>i. i < m \<Longrightarrow> decode_page E (rq i) = \<lparr>hp_Height = k, hp_PageNumber = int i + 1, hp_PerPage = pp\<rparr>"
    "0 \<le> pp" "int m \<le> 2 ^ 40" "length (TxsAt mc (or_latest mc k)) < 2 ^ 40"
    "int (length (TxsAt mc (or_latest mc k))) \<le> int m * eff_perPage pp"
  shows "\<exists>pages. length pages = m \<and> concat pages = TxsAt mc (or_latest mc k) \<and>
    (\<forall>i < m. \<exists>pg. handle_txs E mc (rq i) = Ret (JsonResp 200 (PlPage pg)) \<and> pg_Results pg = RTxs (pages ! i) \<and>
       pg_TotalCount pg = int (length (TxsAt mc (or_latest mc k))) \<and>
       pg_TotalPages pg = \<lceil>rat_of_nat (length (TxsAt mc (or_latest mc k))) / rat_of_int (eff_perPage pp)\<rceil>)"
proof -
  let ?txs = "TxsAt mc (or_latest mc k)"
  let ?pages = "map (\<lambda>i. page_items ?txs (int i + 1) pp) [0..<m]"
  have "length ?txs < 2 ^ 53" using assms(4) by simp
  moreover have "int i + 1 \<le> 2 ^ 40" if "i < m" for i using that assms(3) by linarith
  ultimately have "\<exists>pg. handle_txs E mc (rq i) = Ret (JsonResp 200 (PlPage pg)) \<and> pg_Results pg = RTxs (?pages ! i) \<and>
       pg_TotalCount pg = int (length ?txs) \<and>
       pg_TotalPages pg = \<lceil>rat_of_nat (length ?txs) / rat_of_int (eff_perPage pp)\<rceil>" if "i < m" for i
    using tx_pages.page [of mc E "rq i" ?txs] assms(1) [OF that] assms(2) that by auto
  moreover have "concat ?pages = ?txs" using pages_partition [OF assms(2,4,3,5)] .
  ultimately show ?thesis by (intro exI [of _ ?pages]) simp
qed

definition page_json :: "bytes \<Rightarrow> json option" where
  "page_json b = Some (JObj [(''height'', JNum ''2''), (''perPage'', JNum ''2''),
     (''pageNumber'', JNum (dec_int (int (unat (hd b)))))])"

lemma page_json_request:
  assumes "unat b = Suc i" "\<not> is_space b"
  shows "decode_page (sample page_json) (body_request [b]) = \<lparr>hp_Height = 2, hp_PageNumber = int i + 1, hp_PerPage = 2\<rparr>"
proof -
  have k: "key_matches ''height'' ''height''" "key_matches ''perPage'' ''perPage''" "key_matches ''pageNumber'' ''pageNumber''"
    "\<not> key_matches ''height'' ''perPage''" "\<not> key_matches ''height'' ''pageNumber''"
    "\<not> key_matches ''pageNumber'' ''perPage''" "\<not> key_matches ''perPage'' ''pageNumber''"
    by code_simp+
  have d: "decode_u64 (JNum ''2'') 0 = 2" "decode_int (JNum ''2'') 0 = 2" by code_simp+
  have "unat b < 256" using unsigned_less [of b] by simp
  then have "decode_int (JNum (dec_int (int (unat b)))) 0 = int i + 1"
    using assms(1) parse_int64_dec [of "int (unat b)"] by (simp add: decode_int_def in_i64_def)
  then show ?thesis
    using assms(2) k d by (simp add: decode_page_body [where kvs = "[(''height'', JNum ''2''), (''perPage'', JNum ''2''),
     (''pageNumber'', JNum (dec_int (int (unat b))))]"] body_request_def page_json_def page_field_def)
qed

theorem pages_cover_transactions_witness:
  "\<exists>mc pages. newMockChain (sample page_json) 3 2 [] = Ret mc \<and> length pages = 2 \<and>
    concat pages = TxsAt mc 2 \<and> length (TxsAt mc 2) = 3 \<and>
    (\<exists>pg. handle_txs (sample page_json) mc (body_request [2]) = Ret (JsonResp 200 (PlPage pg)) \<and>
      pg_Results pg = RTxs (pages ! 1) \<and> pg_TotalPages pg = 2)"
proof -
  obtain mc where c: "newMockChain (sample page_json) 3 2 [] = Ret mc" by (rule sample_3 [of page_json])
  have l: "length (TxsAt mc 2) = 3" using sample_lengths [OF c lt63, of 2] by simp
  have rq: "decode_page (sample page_json) (body_request [of_nat (i + 1)]) = \<lparr>hp_Height = 2, hp_PageNumber = int i + 1, hp_PerPage = 2\<rparr>"
    if "i < 2" for i
    using that by (intro page_json_request) (auto simp: less_2_cases_iff is_space_def)
  have "or_latest mc 2 = 2" "eff_perPage 2 = 2" by (simp_all add: or_latest_def eff_perPage_def)
  moreover have "\<lceil>3 / 2 :: rat\<rceil> = 2" by (simp add: ceiling_eq_iff)
  ultimately obtain pages where p: "length pages = 2" "concat pages = TxsAt mc 2"
    "\<forall>i < 2. \<exists>pg. handle_txs (sample page_json) mc (body_request [of_nat (i + 1)]) = Ret (JsonResp 200 (PlPage pg)) \<and>
       pg_Results pg = RTxs (pages ! i) \<and> pg_TotalCount pg = 3 \<and> pg_TotalPages pg = 2"
    using pages_cover_transactions [of 2 "sample page_json" "\<lambda>i. body_request [of_nat (i + 1)]" 2 2 mc, OF rq] l by auto
  from p(3) [rule_format, of 1]
  have "\<exists>pg. handle_txs (sample page_json) mc (body_request [2]) = Ret (JsonResp 200 (PlPage pg)) \<and>
      pg_Results pg = RTxs (pages ! 1) \<and> pg_TotalPages pg = 2" by auto
  with p(1,2) c l show ?thesis by blast
qed

text \<open>
  A page of the accounts of a height: with a page size that is not negative the route
  answers 200 with the stretch of the state's accounts that the page number and the size
  (10 by default, 5000 at most) select, and the exact number of pages; it answers 404 for a
  height after the last one.
\<close>

theorem accounts_page:
  assumes "newMockChain E n chainID opts = Ret mc" "0 < n" "n < 2 ^ 63"
    "decode_page E r = \<lparr>hp_Height = h, hp_PageNumber = pn, hp_PerPage = pp\<rparr>" "0 \<le> pp" "pn \<le> 2 ^ 40"
    "length (mc_accounts mc) < 2 ^ 53"
  shows "if int (unat h) \<le> n
    then \<exists>s pg. stateAt mc (or_latest mc h) = Some s \<and> handle_accounts E mc r = Ret (JsonResp 200 (PlPage pg)) \<and>
      pg_Results pg = RAccounts (take (nat (eff_perPage pp)) (drop (nat ((eff_pageNumber pn - 1) * eff_perPage pp)) (gs_Accounts s))) \<and>
      pg_TotalCount pg = int (length (mc_accounts mc)) \<and>
      pg_TotalPages pg = \<lceil>rat_of_nat (length (mc_accounts mc)) / rat_of_int (eff_perPage pp)\<rceil>
    else handle_accounts E mc r = Ret (ErrorResp 404 ''unknown height'')"
proof (cases "int (unat h) \<le> n")
  case True
  then have "int (unat (or_latest mc h)) \<le> n" "1 \<le> unat (or_latest mc h)"
    using or_latest_cases [OF assms(1-3), of h] by (simp_all add: served_def)
  then obtain s where s: "stateAt mc (or_latest mc h) = Some s"
    using missing_heights(7) [OF assms(1,3), of "or_latest mc h"] by (auto simp: has_height_def)
  have len: "length (gs_Accounts s) = length (mc_accounts mc)"
    using snapshotStateAt_Ret(1) [OF chain_state(1) [OF assms(1,3) s]] by (metis length_map)
  have "length (gs_Accounts s) < 2 ^ 62" using len assms(7) by simp
  from paginate_eq [OF assms(5,6) this]
  have items: "page_items (gs_Accounts s) pn pp =
      take (nat (eff_perPage pp)) (drop (nat ((eff_pageNumber pn - 1) * eff_perPage pp)) (gs_Accounts s))"
    by (simp add: page_items_def)
  show ?thesis
    using account_pages.page [of mc E r "gs_Accounts s"] assms(4-7) s len items True by (auto simp: accountsAt_def)
next
  case False
  then have "\<not> int (unat (or_latest mc h)) \<le> n" "1 \<le> unat (or_latest mc h)"
    using or_latest_cases [OF assms(1-3), of h] by (simp_all add: served_def)
  then have "stateAt mc (or_latest mc h) = None"
    using missing_heights(7) [OF assms(1,3), of "or_latest mc h"] by (auto simp: has_height_def)
  then show ?thesis
    using account_pages.unknown [of mc E r] assms(4) False by (simp add: accountsAt_def not_found_def)
qed

theorem accounts_page_witness:
  "\<exists>mc s pg. newMockChain (sample page_json) 3 2 [] = Ret mc \<and> stateAt mc 2 = Some s \<and>
    handle_accounts (sample page_json) mc (body_request [2]) = Ret (JsonResp 200 (PlPage pg)) \<and>
    pg_Results pg = RAccounts (take 2 (drop 2 (gs_Accounts s))) \<and> pg_TotalPages pg = 5"
proof -
  obtain mc where c: "newMockChain (sample page_json) 3 2 [] = Ret mc" "length (mc_accounts mc) = 10"
    by (rule sample_3 [of page_json])
  have rq: "decode_page (sample page_json) (body_request [2]) = \<lparr>hp_Height = 2, hp_PageNumber = 2, hp_PerPage = 2\<rparr>"
    using page_json_request [of 2 1] by (simp add: is_space_def)
  have "or_latest mc 2 = 2" "eff_perPage 2 = 2" "eff_pageNumber 2 = 2"
    by (simp_all add: or_latest_def eff_perPage_def eff_pageNumber_def)
  with accounts_page [OF c(1) _ lt63 rq] c show ?thesis by auto
qed

text \<open>
  C19. A negative page size is not rejected: it makes the slice bounds of \<open>paginate\<close> invalid,
  whatever the page number, so the transactions and events routes panic at every height,
  and the accounts, pools and validators routes at every height that has a state; without a
  state they answer 404 before they look at the page.
\<close>

theorem negative_page_panics:
  assumes "hp_PerPage (decode_page E r) < 0"
  shows "handle_txs E mc r = Panic SliceBoundsOutOfRange \<and> handle_events E mc r = Panic SliceBoundsOutOfRange \<and>
    (\<forall>handler \<in> {handle_accounts E, handle_pools E, handle_validators E}.
      handler mc r = (case stateAt mc (or_latest mc (hp_Height (decode_page E r))) of
        None \<Rightarrow> Ret (ErrorResp 404 ''unknown height'') | Some _ \<Rightarrow> Panic SliceBoundsOutOfRange))"
  using tx_pages.negative [OF assms, of mc] event_pages.negative [OF assms, of mc] account_pages.negative [OF assms, of mc]
    pool_pages.negative [OF assms, of mc] validator_pages.negative [OF assms, of mc]
  by (simp add: accountsAt_def poolsAt_def validatorsAt_def not_found_def split: option.split)

definition negative_json :: "bytes \<Rightarrow> json option" where
  "negative_json b = Some (JObj [(''perPage'', JNum ''-1'')])"

lemma negative_json_request:
  "decode_page (sample negative_json) (body_request [0x7b]) = \<lparr>hp_Height = 0, hp_PageNumber = 0, hp_PerPage = - 1\<rparr>"
proof -
  have "key_matches ''perPage'' ''perPage''" "\<not> key_matches ''height'' ''perPage''" "\<not> key_matches ''pageNumber'' ''perPage''"
    "decode_int (JNum ''-1'') 0 = - 1" "\<not> is_space 0x7b" by code_simp+
  then show ?thesis
    by (simp add: decode_page_body [where kvs = "[(''perPage'', JNum ''-1'')]"] body_request_def negative_json_def page_field_def)
qed

lemma buildPools_length: "buildPools E accounts chainID rng = Ret (pools, rng') \<Longrightarrow> length pools = 3"
  by (auto simp: buildPools_def go_bind_eq_Ret)

lemma chain_pools: "newMockChain E n chainID opts = Ret mc \<Longrightarrow> length (mc_pools mc) = 3"
proof -
  assume "newMockChain E n chainID opts = Ret mc"
  then obtain addrs mc0 where s: "started E chainID opts addrs mc0"
    "builds E (chain_profile chainID (apply_options opts)) addrs mc0 (nat n) mc"
    using newMockChain_builds by blast
  obtain mc1 genesis where m: "initChain E chainID (apply_options opts) = Ret mc1"
    "mc0 = mc1\<lparr>mc_states := [(0, genesis)]\<rparr>"
    using s(1) by (auto simp: started_def)
  obtain rng rng' where "buildPools E (mc_accounts mc1) chainID rng = Ret (mc_pools mc1, rng')"
    by (rule initChain_Ret [OF m(1)]) blast
  then have "length (mc_pools mc1) = 3" by (rule buildPools_length)
  then show "length (mc_pools mc) = 3"
    using generators_cong(3) [OF builds_entities [OF s(2)]] m(2) by simp
qed

lemma state_sizes:
  assumes "newMockChain E n chainID opts = Ret mc" "n < 2 ^ 63" "stateAt mc k = Some s"
  shows "length (gs_Accounts s) = length (mc_accounts mc)" "length (gs_Pools s) = 3"
    "length (gs_Validators s) = length (mc_validators mc)"
proof -
  note f = snapshotStateAt_Ret [OF chain_state(1) [OF assms]]
  show "length (gs_Accounts s) = length (mc_accounts mc)" using f(1) by (metis length_map)
  show "length (gs_Pools s) = 3" using f(7) chain_pools [OF assms(1)] by simp
  show "length (gs_Validators s) = length (mc_validators mc)" using opt_mapM_length [OF f(5)] by simp
qed

theorem negative_page_panics_witness:
  "\<exists>mc. newMockChain (sample negative_json) 3 2 [] = Ret mc \<and>
    handle_txs (sample negative_json) mc (body_request [0x7b]) = Panic SliceBoundsOutOfRange \<and>
    handle_accounts (sample negative_json) mc (body_request [0x7b]) = Panic SliceBoundsOutOfRange"
proof -
  obtain mc where c: "newMockChain (sample negative_json) 3 2 [] = Ret mc" by (rule sample_3 [of negative_json])
  have o: "or_latest mc 0 = 3" using chain_heights(1) [OF c lt63] by (simp add: or_latest_def)
  have "has_height 3 3" by (simp add: has_height_def)
  then obtain s where s: "stateAt mc 3 = Some s" using missing_heights(7) [OF c lt63, of 3] by auto
  from negative_page_panics [of "sample negative_json" "body_request [0x7b]" mc, unfolded negative_json_request]
  show ?thesis using c o s by auto
qed

lemma requests_do_not_panic:
  assumes "newMockChain E n chainID opts = Ret mc" "n < 2 ^ 63"
    "0 \<le> hp_PerPage (decode_page E r)" "hp_PageNumber (decode_page E r) \<le> 2 ^ 40"
    "length (mc_accounts mc) < 2 ^ 53" "length (mc_validators mc) < 2 ^ 53"
    "\<And>h. length (TxsAt mc h) < 2 ^ 53" "\<And>h. length (EventsAt mc h) < 2 ^ 53"
  shows "serve E mc path r \<noteq> Panic p"
  using assms(5,6) state_sizes [OF assms(1,2)] by (intro serve_no_panic assms(3,4,7,8)) auto

lemma missing_lists:
  assumes "newMockChain E n chainID opts = Ret mc" "n < 2 ^ 63" "\<not> has_height n k"
  shows "TxsAt mc k = []" "EventsAt mc k = []"
  using missing_heights(5,6) [OF assms(1,2), of k] assms(3) by (simp_all add: TxsAt_def EventsAt_def)

text \<open>
  C20. On a built chain whose lists have fewer than \<open>2 ^ 53\<close> entries, with a fair source, every
  request, whatever its path and method, is answered or dropped, and dropped only when its
  page size is negative or its page number above \<open>2 ^ 40\<close>; no client waits. A path that is not
  clean is redirected to its clean form, except for \<open>CONNECT\<close>; any other answer has status
  200, 404 or 500, and 404 where no pattern matches the path. The answer goes out with its
  status, the content type of what it carries and, for a redirect, its location; its body is
  the text of the error, the page of the redirect or the encoded payload, which is empty when
  the encoder fails. The request for \<open>*\<close>, which has no path, is not covered.
\<close>

theorem requests_answered:
  assumes "path \<noteq> ''*''" "fair_source E" "newMockChain E n chainID opts = Ret mc" "n < 2 ^ 63"
    "length (mc_accounts mc) < 2 ^ 53" "length (mc_validators mc) < 2 ^ 53"
    "\<And>h. length (TxsAt mc h) < 2 ^ 53" "\<And>h. length (EventsAt mc h) < 2 ^ 53"
  shows "(exchange E mc path r = Dropped \<and> (hp_PerPage (decode_page E r) < 0 \<or> 2 ^ 40 < hp_PageNumber (decode_page E r))) \<or>
    (\<exists>w resp. exchange E mc path r = Reply w \<and> serve E mc path r = Ret resp \<and>
      (if rq_method r \<noteq> ''CONNECT'' \<and> cleanPath path \<noteq> path
       then resp = mux_redirect E (cleanPath path) r
       else response_code resp \<in> {200, 404, 500} \<and>
         (path_segments path \<in> path_segments ` fst ` set (routes E) \<or> resp = ErrorResp 404 ''404 page not found'')) \<and>
      rw_status w = Some (response_code resp) \<and> map_of (rw_header w) ''Content-Type'' = content_type resp \<and>
      map_of (rw_header w) ''Location'' = response_location resp \<and> rw_body w = response_body E resp)"
proof (cases "exchange E mc path r")
  case (Reply w)
  obtain resp where s: "serve E mc path r = Ret resp" and w: "rw_status w = Some (response_code resp)"
    "map_of (rw_header w) ''Content-Type'' = content_type resp"
    "map_of (rw_header w) ''Location'' = response_location resp" "rw_body w = response_body E resp"
    by (rule exchange_Reply [OF Reply])
  have "well_formed resp \<Longrightarrow> response_code resp \<in> {200, 404, 500}" by (cases resp) (auto simp: well_formed_def)
  with Reply s w wf_serve [OF s] serve_unmatched [of r path E mc] show ?thesis by auto
next
  case Dropped
  then have "\<exists>p. serve E mc path r = Panic p" using exchange_cases(2) [OF assms(2)] by simp
  moreover have "serve E mc path r \<noteq> Panic p"
    if "0 \<le> hp_PerPage (decode_page E r)" "hp_PageNumber (decode_page E r) \<le> 2 ^ 40" for p
    by (rule requests_do_not_panic [OF assms(3,4) that assms(5-8)])
  ultimately show ?thesis using Dropped by force
next
  case Waiting
  then show ?thesis using exchange_cases(1) [OF assms(2)] by blast
qed

theorem requests_answered_witness:
  "\<exists>mc. newMockChain (sample page_json) 3 2 [] = Ret mc \<and>
    (\<exists>w. exchange (sample page_json) mc ''/v1/query/txs-by-height'' (body_request [2]) = Reply w \<and>
      rw_status w \<in> {Some 200, Some 404, Some 500}) \<and>
    (\<exists>w. exchange (sample page_json) mc ''/v1//query/height'' (body_request [2]) = Reply w \<and>
      rw_status w = Some 301 \<and> map_of (rw_header w) ''Location'' = Some ''/v1/query/height'') \<and>
    (\<exists>w. exchange (sample page_json) mc ''/v1/query/heights'' (body_request [2]) = Reply w \<and> rw_status w = Some 404)"
proof -
  let ?E = "sample page_json" and ?r = "body_request [2]"
  obtain mc where c: "newMockChain ?E 3 2 [] = Ret mc" "length (mc_accounts mc) = 10"
    "length (mc_validators mc) = 10"
    by (rule sample_3 [of page_json])
  have rq: "decode_page ?E ?r = \<lparr>hp_Height = 2, hp_PageNumber = 2, hp_PerPage = 2\<rparr>"
    using page_json_request [of 2 1] by (simp add: is_space_def)
  have le: "length (TxsAt mc h) \<le> 3" "length (EventsAt mc h) \<le> 3" for h
    using sample_lengths [OF c(1) lt63, of h] missing_lists [OF c(1) lt63, of h]
    by (cases "has_height 3 h"; simp add: has_height_def)+
  have l: "length (TxsAt mc h) < 2 ^ 53" "length (EventsAt mc h) < 2 ^ 53" for h
    using le [of h] by simp_all
  have a: "length (mc_accounts mc) < 2 ^ 53" "length (mc_validators mc) < 2 ^ 53" using c by simp_all
  have m: "rq_method ?r = ''POST''" "(''POST'' :: string) \<noteq> ''CONNECT''" by (simp_all add: body_request_def)
  have paths: "''/v1/query/txs-by-height'' \<noteq> ''*''" "cleanPath ''/v1/query/txs-by-height'' = ''/v1/query/txs-by-height''"
    "''/v1//query/height'' \<noteq> ''*''" "cleanPath ''/v1//query/height'' = ''/v1/query/height''"
    "(''/v1/query/height'' :: string) \<noteq> ''/v1//query/height''"
    "''/v1/query/heights'' \<noteq> ''*''" "cleanPath ''/v1/query/heights'' = ''/v1/query/heights''"
    by code_simp+
  have none: "path_segments ''/v1/query/heights'' \<notin> path_segments ` fst ` set (routes ?E)"
    unfolding routes_def set_simps image_insert fst_conv by code_simp
  note f = requests_answered [OF _ sample_fair c(1) lt63 a l, of _ ?r, unfolded rq]
  have "\<exists>w. exchange ?E mc ''/v1/query/txs-by-height'' ?r = Reply w \<and> rw_status w \<in> {Some 200, Some 404, Some 500}"
    using f [OF paths(1)] paths(2) by auto
  moreover have "\<exists>w. exchange ?E mc ''/v1//query/height'' ?r = Reply w \<and>
      rw_status w = Some 301 \<and> map_of (rw_header w) ''Location'' = Some ''/v1/query/height''"
    using f [OF paths(3)] paths(4,5) m by (auto simp: mux_redirect_def Let_def)
  moreover have "\<exists>w. exchange ?E mc ''/v1/query/heights'' ?r = Reply w \<and> rw_status w = Some 404"
    using f [OF paths(6)] paths(7) none by auto
  ultimately show ?thesis using c(1) by blast
qed

section \<open>Order books\<close>

text \<open>The two books every chain is built with, of the chain itself and of chain 2.\<close>

definition own_book :: "u64 \<Rightarrow> mock_chain \<Rightarrow> order_book" where
  "own_book chainID mc =
     \<lparr>ob_ChainId = chainID, ob_Orders = [Some
        \<lparr>so_Id = HashBytes [VStr ''order-1''], so_Committee = chainID,
         so_Data = bytes_of_string ''swap CNPY for sidechain asset'', so_AmountForSale = 50000, so_RequestedAmount = 1000,
         so_SellerReceiveAddress = va_Address (mc_validators mc ! 0),
         so_BuyerSendAddress = va_Address (mc_validators mc ! 1),
         so_BuyerReceiveAddress = va_Address (mc_validators mc ! 1), so_BuyerChainDeadline = 500,
         so_SellersSendAddress = va_Address (mc_validators mc ! 0)\<rparr>]\<rparr>"

definition second_book :: "mock_chain \<Rightarrow> order_book" where
  "second_book mc =
     \<lparr>ob_ChainId = 2, ob_Orders = [Some
        \<lparr>so_Id = HashBytes [VStr ''order-2''], so_Committee = 2,
         so_Data = bytes_of_string ''swap sidechain for CNPY'', so_AmountForSale = 75000, so_RequestedAmount = 2500,
         so_SellerReceiveAddress = va_Address (mc_validators mc ! 1),
         so_BuyerSendAddress = va_Address (mc_validators mc ! 0),
         so_BuyerReceiveAddress = va_Address (mc_validators mc ! 0), so_BuyerChainDeadline = 700,
         so_SellersSendAddress = va_Address (mc_validators mc ! 1)\<rparr>]\<rparr>"

lemma buildOrderBooks_books:
  "buildOrderBooks (mc_validators mc) chainID = Ret obs \<Longrightarrow>
   obs = \<lparr>obs_OrderBooks = [Some (own_book chainID mc), Some (second_book mc)]\<rparr>"
  by (auto simp: buildOrderBooks_def Let_def go_bind_eq_Ret go_nth_eq_Ret own_book_def second_book_def)

lemma chain_order_books:
  assumes "newMockChain E n chainID opts = Ret mc" "n < 2 ^ 63" "stateAt mc k = Some s"
  shows "gs_OrderBooks s = \<lparr>obs_OrderBooks = [Some (own_book chainID mc), Some (second_book mc)]\<rparr>"
proof -
  obtain addrs mc0 where s: "started E chainID opts addrs mc0"
    "builds E (chain_profile chainID (apply_options opts)) addrs mc0 (nat n) mc"
    using newMockChain_builds [OF assms(1)] .
  obtain mc1 genesis where m: "initChain E chainID (apply_options opts) = Ret mc1"
    "mc0 = mc1\<lparr>mc_states := [(0, genesis)]\<rparr>"
    using s(1) by (auto simp: started_def)
  have v: "buildOrderBooks (mc_validators mc1) chainID = Ret (mc_orderBooks mc1)"
    by (rule initChain_Ret [OF m(1)]) simp
  have "gs_OrderBooks s = mc_orderBooks mc"
    using snapshotStateAt_Ret(10) [OF chain_state(1) [OF assms]] by simp
  moreover have "mc_orderBooks mc = mc_orderBooks mc1" "mc_validators mc = mc_validators mc1"
    using generators_cong(4,5) [OF builds_entities [OF s(2)]] m(2) by simp_all
  ultimately show ?thesis using buildOrderBooks_books [OF v] by (simp add: own_book_def second_book_def)
qed

text \<open>
  C22. The orders of a built chain: at every height that has a state the route serves, without
  an identifier, exactly the book of the chain and the book of chain 2, every field of their
  orders as built; with an identifier the first book of that chain alone, and 404 for any
  other. On any books the copy that is served loses none and changes no field of an order
  but its committee, which becomes the chain of its book.
\<close>

theorem orders_served:
  assumes "newMockChain E n chainID opts = Ret mc" "n < 2 ^ 63" "stateAt mc (or_latest mc h) = Some s"
    "decodeBody E r id_height_field (0, 0) = (h, ident)"
  shows "handle_orders E mc r = Ret
      (if ident = 0 then JsonResp 200 (PlOrderBooks \<lparr>obs_OrderBooks = [Some (own_book chainID mc), Some (second_book mc)]\<rparr>)
       else if ident = chainID then JsonResp 200 (PlOrderBooks \<lparr>obs_OrderBooks = [Some (own_book chainID mc)]\<rparr>)
       else if ident = 2 then JsonResp 200 (PlOrderBooks \<lparr>obs_OrderBooks = [Some (second_book mc)]\<rparr>)
       else ErrorResp 404 ''order book not found'') \<and>
    (\<forall>src. map (\<lambda>b. (ob_ChainId b, map (\<lambda>order. order\<lparr>so_Committee := 0\<rparr>) (List.map_filter id (ob_Orders b))))
        (List.map_filter id (obs_OrderBooks (normalizeOrderBooks src))) =
      map (\<lambda>b. (ob_ChainId b, map (\<lambda>order. order\<lparr>so_Committee := 0\<rparr>) (List.map_filter id (ob_Orders b))))
        (List.map_filter id (obs_OrderBooks src)) \<and>
      (\<forall>book \<in> set (obs_OrderBooks (normalizeOrderBooks src)). \<exists>b. book = Some b \<and>
        (\<forall>order \<in> set (ob_Orders b). \<exists>o'. order = Some o' \<and> so_Committee o' = ob_ChainId b)))"
proof (intro conjI allI normalizeOrderBooks_keeps)
  show "handle_orders E mc r = Ret
      (if ident = 0 then JsonResp 200 (PlOrderBooks \<lparr>obs_OrderBooks = [Some (own_book chainID mc), Some (second_book mc)]\<rparr>)
       else if ident = chainID then JsonResp 200 (PlOrderBooks \<lparr>obs_OrderBooks = [Some (own_book chainID mc)]\<rparr>)
       else if ident = 2 then JsonResp 200 (PlOrderBooks \<lparr>obs_OrderBooks = [Some (second_book mc)]\<rparr>)
       else ErrorResp 404 ''order book not found'')"
    using assms(3,4) chain_order_books [OF assms(1-3)]
    by (auto simp: handle_orders_def Let_def normalizeOrderBooks_def List.map_filter_def own_book_def second_book_def)
qed (auto simp: normalizeOrderBooks_def)

text \<open>Requests for the latest height of the sample chain, with and without an identifier.\<close>

definition id_json :: "bytes \<Rightarrow> json option" where
  "id_json b = Some (JObj [(''id'', JNum (dec_nat (unat (hd b))))])"

lemma id_json_request:
  assumes "\<not> is_space b"
  shows "decodeBody (sample id_json) (body_request [b]) id_height_field (0, 0) = (0, ucast b)"
proof -
  have k: "key_matches ''id'' ''id''" "\<not> key_matches ''height'' ''id''" by code_simp+
  have "decode_u64 (JNum (dec_nat (unat b))) 0 = ucast b"
    using decode_u64_dec [of "ucast b :: u64" 0] unfolding unat_ucast_byte .
  then show ?thesis using assms k
    by (simp add: decodeBody_def body_request_def id_json_def decode_members_def id_height_field_def)
qed

theorem orders_served_witness:
  "\<exists>mc. newMockChain (sample id_json) 3 2 [] = Ret mc \<and>
    handle_orders (sample id_json) mc (plain_request []) =
      Ret (JsonResp 200 (PlOrderBooks \<lparr>obs_OrderBooks = [Some (own_book 2 mc), Some (second_book mc)]\<rparr>)) \<and>
    handle_orders (sample id_json) mc (body_request [2]) = Ret (JsonResp 200 (PlOrderBooks \<lparr>obs_OrderBooks = [Some (own_book 2 mc)]\<rparr>)) \<and>
    handle_orders (sample id_json) mc (body_request [3]) = Ret (ErrorResp 404 ''order book not found'')"
proof -
  obtain mc where c: "newMockChain (sample id_json) 3 2 [] = Ret mc" by (rule sample_3 [of id_json])
  have d: "decodeBody (sample id_json) (plain_request []) id_height_field (0, 0) = (0, 0)"
    by (simp add: decodeBody_def plain_request_def)
  have e: "decodeBody (sample id_json) (body_request [2]) id_height_field (0, 0) = (0, 2)"
    "decodeBody (sample id_json) (body_request [3]) id_height_field (0, 0) = (0, 3)"
    using id_json_request [of 2] id_json_request [of 3] by (simp_all add: is_space_def)
  have o: "or_latest mc 0 = 3" using chain_heights(1) [OF c lt63] by (simp add: or_latest_def)
  have "has_height 3 3" by (simp add: has_height_def)
  then obtain s where "stateAt mc (or_latest mc 0) = Some s" using missing_heights(7) [OF c lt63, of 3] o by auto
  from orders_served [OF c lt63 this d] orders_served [OF c lt63 this e(1)] orders_served [OF c lt63 this e(2)] c
  show ?thesis by (intro exI [of _ mc]) simp
qed

text \<open>
  C21. The copy shares nothing it writes: on the heap where the states of all heights point to
  one object with the order books, \<open>normalizeOrderBooks\<close> returns a new object that holds the
  normalized books and leaves every object it found as it was, so that every other pointer
  still reads the same books and a repeated request is answered alike.
\<close>

theorem normalizing_shares_nothing:
  assumes "heap_ok h" "read_books (hp_objs h) src = Some obs"
  shows "\<exists>dst h'. normalizeOrderBooks_heap (Some src) h = Ret (Some dst, h') \<and> heap_ok h' \<and>
    hp_objs h dst = None \<and> read_books (hp_objs h') dst = Some (normalizeOrderBooks obs) \<and>
    (\<forall>a < hp_next h. hp_objs h' a = hp_objs h a) \<and>
    (\<forall>q bs. read_books (hp_objs h) q = Some bs \<longrightarrow> read_books (hp_objs h') q = Some bs)"
proof -
  obtain dst h' where d: "normalizeOrderBooks_heap (Some src) h = Ret (Some dst, h')" "extends h h'" "hp_next h \<le> dst"
    "read_books (hp_objs h') dst = Some (normalizeOrderBooks obs)"
    using normalizeOrderBooks_refines [OF assms] by blast
  moreover have "hp_objs h dst = None" using assms(1) d(3) by (simp add: heap_ok_def)
  moreover have "\<forall>q bs. read_books (hp_objs h) q = Some bs \<longrightarrow> read_books (hp_objs h') q = Some bs"
    using read_books_mono [OF extends_le [OF d(2) assms(1)]] by blast
  ultimately show ?thesis by (auto simp: extends_def)
qed

definition sample_order :: sell_order where
  "sample_order =
     \<lparr>so_Id = [1], so_Committee = 7, so_Data = [], so_AmountForSale = 5, so_RequestedAmount = 6,
      so_SellerReceiveAddress = [], so_BuyerSendAddress = [], so_BuyerReceiveAddress = [],
      so_BuyerChainDeadline = 0, so_SellersSendAddress = []\<rparr>"

text \<open>One book of chain 2 with one order of another committee; a second root shares the book.\<close>

definition sample_heap :: order_heap where
  "sample_heap =
     \<lparr>hp_objs = [0 \<mapsto> OBooks [None, Some 1], 1 \<mapsto> OBook 2 [Some 2, None], 2 \<mapsto> OOrder sample_order, 3 \<mapsto> OBooks [Some 1]],
      hp_next = 4\<rparr>"

theorem normalizing_shares_nothing_witness:
  "\<exists>dst h' order. normalizeOrderBooks_heap (Some 0) sample_heap = Ret (Some dst, h') \<and>
    read_books (hp_objs h') dst = Some \<lparr>obs_OrderBooks = [Some \<lparr>ob_ChainId = 2, ob_Orders = [Some order]\<rparr>]\<rparr> \<and>
    so_Committee order = 2 \<and> read_books (hp_objs h') 3 = read_books (hp_objs sample_heap) 3"
proof -
  have ok: "heap_ok sample_heap" by (simp add: heap_ok_def sample_heap_def)
  have r: "read_books (hp_objs sample_heap) 0 =
      Some \<lparr>obs_OrderBooks = [None, Some \<lparr>ob_ChainId = 2, ob_Orders = [Some sample_order, None]\<rparr>]\<rparr>"
    by (simp add: sample_heap_def read_books_def)
  have three: "read_books (hp_objs sample_heap) 3 = Some \<lparr>obs_OrderBooks = [Some \<lparr>ob_ChainId = 2, ob_Orders = [Some sample_order, None]\<rparr>]\<rparr>"
    by (simp add: sample_heap_def read_books_def)
  from normalizing_shares_nothing [OF ok r] obtain dst h' where
    "normalizeOrderBooks_heap (Some 0) sample_heap = Ret (Some dst, h')"
    "read_books (hp_objs h') dst = Some (normalizeOrderBooks
      \<lparr>obs_OrderBooks = [None, Some \<lparr>ob_ChainId = 2, ob_Orders = [Some sample_order, None]\<rparr>]\<rparr>)"
    "read_books (hp_objs h') 3 = read_books (hp_objs sample_heap) 3"
    using three by auto
  then show ?thesis by (intro exI [of _ dst] exI [of _ h']) (simp add: normalizeOrderBooks_def List.map_filter_def)
qed

text \<open>
  C23. On chain 2 both order books have the identifier 2, so the lookup by identifier finds
  the first only: the book with order 2 is in the state but no identifier selects it.
\<close>

theorem orders_shadowed:
  assumes "newMockChain E n 2 opts = Ret mc" "n < 2 ^ 63" "stateAt mc (or_latest mc h) = Some s"
    "decodeBody E r id_height_field (0, 0) = (h, 2)"
  shows "\<exists>b o'. handle_orders E mc r = Ret (JsonResp 200 (PlOrderBooks \<lparr>obs_OrderBooks = [Some b]\<rparr>)) \<and>
    ob_Orders b = [Some o'] \<and> so_Id o' = HashBytes [VStr ''order-1''] \<and>
    map ob_ChainId (List.map_filter id (obs_OrderBooks (gs_OrderBooks s))) = [2, 2]"
  using assms(3,4) chain_order_books [OF assms(1-3)]
  by (simp add: handle_orders_def Let_def normalizeOrderBooks_def List.map_filter_def own_book_def second_book_def)

theorem orders_shadowed_witness:
  "\<exists>mc b o'. newMockChain (sample id_json) 3 2 [] = Ret mc \<and>
    handle_orders (sample id_json) mc (body_request [2]) = Ret (JsonResp 200 (PlOrderBooks \<lparr>obs_OrderBooks = [Some b]\<rparr>)) \<and>
    ob_Orders b = [Some o']"
proof -
  obtain mc where c: "newMockChain (sample id_json) 3 2 [] = Ret mc" by (rule sample_3 [of id_json])
  have d: "decodeBody (sample id_json) (body_request [2]) id_height_field (0, 0) = (0, 2)"
    using id_json_request [of 2] by (simp add: is_space_def)
  have "or_latest mc 0 = 3" using chain_heights(1) [OF c lt63] by (simp add: or_latest_def)
  moreover have "has_height 3 3" by (simp add: has_height_def)
  then obtain s where "stateAt mc 3 = Some s" using missing_heights(7) [OF c lt63, of 3] by auto
  ultimately show ?thesis using orders_shadowed [OF c lt63 _ d, of s] c by auto
qed

end
