(* ===== verification/ServerProperties.thy ===== *)
theory ServerProperties
  imports Sample
begin

text \<open>
  The properties of the program as a whole: which servers \<open>main\<close> starts, what it prints and
  logs, when it reaches the point where it serves, and what stops it before.
\<close>

section \<open>A process where everything works\<close>

definition sample_keystore :: "nat keystore" where
  "sample_keystore =
     \<lparr>ks_new = 0, ks_private_key = (\<lambda>b. if length b = 64 then Inr b else Inl ''key size''),
      ks_import = (\<lambda>pk pw nick k. Inr (Suc k)), ks_json = dec_nat\<rparr>"

definition free_process :: process where
  "free_process =
     \<lparr>pr_printed = False, pr_stdout = [], pr_log = [], pr_bound = [], pr_grants = (\<lambda>_. True),
      pr_pick = (\<lambda>_. Some ''40000''), pr_show = (\<lambda>a. ''[::]'' @ a)\<rparr>"

definition two_chains :: flags where
  "two_chains = \<lparr>fl_blocks = 3, fl_chains = 2, fl_startPort = 60000, fl_startChainID = 5\<rparr>"

lemma sample_keystore_ok: "keystore_ok (sample j) sample_keystore"
  by (simp add: keystore_ok_def sample_keystore_def)

lemma high_ports:
  assumes "60000 \<le> fl_startPort f" "fl_startPort f + fl_chains f < 2 ^ 63" "int i < fl_chains f"
  shows "main_port f i \<noteq> ''40000''"
proof -
  have "dec_int 40000 = ''40000''" by code_simp
  moreover have "ports_ok f" using assms(1,2) by (simp add: ports_ok_def)
  ultimately show ?thesis
    using dec_int_inj [of "fl_startPort f + int i" 40000] main_port_id [of f i] assms by (simp add: main_port_def)
qed

lemma free_sockets:
  assumes "60000 \<le> fl_startPort f" "fl_startPort f + fl_chains f < 2 ^ 63"
  shows "sockets_free f free_process"
proof -
  have "port_of b \<noteq> ''40000''" if "b \<in> main_addrs f" for b
    using that high_ports [OF assms] by (auto simp: main_addrs_def main_addr_parts)
  then show ?thesis using high_ports [OF assms] high_ports [OF assms, symmetric]
    by (auto simp: sockets_free_def free_process_def picks_ok_def)
qed

lemma built_chain_id: "newMockChain E n chainID opts = Ret mc \<Longrightarrow> mc_chainID mc = chainID"
proof -
  assume "newMockChain E n chainID opts = Ret mc"
  then obtain addrs mc0 where "started E chainID opts addrs mc0"
    "builds E (chain_profile chainID (apply_options opts)) addrs mc0 (nat n) mc"
    by (rule newMockChain_builds)
  from started_maps(9) [OF this(1)] generators_cong(1) [OF builds_entities [OF this(2)]] show ?thesis by simp
qed

lemma default_chain_returns:
  assumes "env_ok E" "fair_source E" "math_ok E" "n \<le> 2 ^ 40"
  shows "\<exists>mc. newMockChain E n chainID [] = Ret mc"
proof -
  have "validator_count (apply_options []) = 10" "account_total (apply_options []) = 10"
    by (simp_all add: validator_count_def account_total_def)
  then show ?thesis using newMockChain_returns [OF assms, of "[]" chainID] by auto
qed

lemma main_reaches_select:
  assumes "env_ok E" "fair_source E" "math_ok E" "keystore_ok E K" "ports_ok f" "fl_blocks f \<le> 2 ^ 40"
    "0 \<le> fl_chains f" "8 * fl_chains f \<le> 2 ^ 48" "sockets_free f p"
  shows "\<exists>servers p'. main_program E K f p = Ret (servers, p')"
proof -
  have "\<exists>r. main_loop E K f 0 (nat (fl_chains f)) [] p = Ret r"
  proof (rule main_loop_returns [OF assms(4,5)])
    show "\<exists>mc. newMockChain E (fl_blocks f) c [] = Ret mc" for c
      by (rule default_chain_returns [OF assms(1-3,6)])
    show "picks_ok f (set (pr_bound p) \<union> main_addrs f) (pr_grants p) (pr_pick p)"
      using assms(9) by (simp add: sockets_free_def)
    show "pr_grants p (main_addr f j) \<and> (\<forall>b \<in> set (pr_bound p). port_of b \<noteq> main_port f j)"
      if "j < 0 + nat (fl_chains f)" for j
      using assms(9) that by (simp add: sockets_free_def)
  qed (use assms(7) in simp_all)
  then show ?thesis using assms(7,8) by (auto simp: main_program_def)
qed

lemma two_chains_run:
  "\<exists>servers p'. main_program (sample no_json) sample_keystore two_chains free_process = Ret (servers, p')"
  by (rule main_reaches_select [OF sample_env_ok sample_fair sample_math sample_keystore_ok])
    (simp_all add: two_chains_def ports_ok_def free_sockets)

lemma two_chains_ports: "ports_ok two_chains"
  by (simp add: two_chains_def ports_ok_def)

text \<open>
  C24. When \<open>main\<close> reaches its final \<open>select\<close>, it has started exactly the requested number
  of servers; server \<open>i\<close> listens on the start port plus \<open>i\<close>, serves the chain with the start
  identifier plus \<open>i\<close>, and reports the requested number of blocks as its height. The
  sockets it has opened are the listeners of the servers and no other.
\<close>

theorem main_serves_chains:
  assumes "main_program E K f p = Ret (servers, p')" "ports_ok f" "fl_blocks f < 2 ^ 63"
  shows "length servers = nat (fl_chains f) \<and>
    (\<forall>i < length servers. sv_addr (servers ! i) = main_addr f i \<and>
       mc_chainID (sv_chain (servers ! i)) = fl_startChainID f + of_nat i \<and>
       server_request E (servers ! i) ''/v1/query/height'' r =
         Ret (JsonResp 200 (PlHeight (of_nat (nat (fl_blocks f)))))) \<and>
    pr_bound p' = rev (map sv_addr servers) @ pr_bound p"
proof -
  have "sv_addr (servers ! i) = main_addr f i \<and> mc_chainID (sv_chain (servers ! i)) = fl_startChainID f + of_nat i \<and>
       server_request E (servers ! i) ''/v1/query/height'' r = Ret (JsonResp 200 (PlHeight (of_nat (nat (fl_blocks f)))))"
    if "i < length servers" for i
  proof -
    have s: "sv_addr (servers ! i) = main_addr f i"
      "newMockChain E (fl_blocks f) (fl_startChainID f + of_nat i) [] = Ret (sv_chain (servers ! i))"
      using main_servers(2) [OF assms(1,2) that] by (simp_all add: server_of_def)
    have "(''/v1/query/height'', handle_head E) \<in> set (routes E)" by (simp add: routes_def)
    with s show ?thesis using chain_heights(1) [OF s(2) assms(3)] built_chain_id [OF s(2)]
      by (simp add: server_request_def serve_route handle_head_def)
  qed
  with main_servers(1,4) [OF assms(1,2)] show ?thesis by blast
qed

theorem main_serves_chains_witness:
  "\<exists>servers p'. main_program (sample no_json) sample_keystore two_chains free_process = Ret (servers, p') \<and>
    length servers = 2 \<and> sv_addr (servers ! 1) = '':60001'' \<and> mc_chainID (sv_chain (servers ! 1)) = 6"
proof -
  obtain servers p' where m: "main_program (sample no_json) sample_keystore two_chains free_process = Ret (servers, p')"
    using two_chains_run by blast
  have "main_addr two_chains 1 = '':60001''"
    by code_simp
  with main_serves_chains [OF m two_chains_ports, of undefined] m show ?thesis by (auto simp: two_chains_def)
qed

text \<open>
  C25. With a keystore that takes the keys, ports that fit, are free and may be bound, and
  loopback ports picked outside the range of the servers, \<open>main\<close> builds every chain, of
  either profile, and gets to serve them; with its default flags for instance.
\<close>

theorem main_runs:
  assumes "env_ok E" "fair_source E" "math_ok E" "keystore_ok E K" "ports_ok f" "fl_blocks f \<le> 2 ^ 40"
    "0 \<le> fl_chains f" "8 * fl_chains f \<le> 2 ^ 48" "sockets_free f p"
  shows "\<exists>servers p'. main_program E K f p = Ret (servers, p')"
  by (rule main_reaches_select [OF assms])

theorem main_runs_witness:
  "\<exists>servers p'. main_program (sample no_json) sample_keystore default_flags free_process = Ret (servers, p')"
  by (rule main_runs [OF sample_env_ok sample_fair sample_math sample_keystore_ok])
    (simp_all add: default_flags_def ports_ok_def free_sockets)

text \<open>
  C26. A port that is already taken, or one that may not be bound, stops the program with the
  panic of the failed listener: it never gets to serve, whatever servers it has started
  before.
\<close>

theorem taken_port_stops:
  assumes "env_ok E" "fair_source E" "math_ok E" "keystore_ok E K" "ports_ok f" "fl_blocks f \<le> 2 ^ 40"
    "8 * fl_chains f \<le> 2 ^ 48" "int i < fl_chains f"
    "(\<exists>b \<in> set (pr_bound p). port_of b = main_port f i) \<or> \<not> pr_grants p (main_addr f i)"
  shows "main_program E K f p = Panic ListenFailed"
proof -
  have "\<nexists>r. main_program E K f p = Ret r" by (rule main_port_taken [OF assms(5,8,9)])
  moreover have "main_program E K f p = main_loop E K f 0 (nat (fl_chains f)) [] p"
    using assms(7,8) by (simp add: main_program_def)
  moreover have "\<And>c. \<exists>mc. newMockChain E (fl_blocks f) c [] = Ret mc"
    by (rule default_chain_returns [OF assms(1-3,6)])
  ultimately show ?thesis using main_loop_outcome [OF assms(4), of f 0 "nat (fl_chains f)" "[]" p] by metis
qed

theorem taken_port_stops_witness:
  "main_program (sample no_json) sample_keystore two_chains (free_process\<lparr>pr_bound := [main_addr two_chains 1]\<rparr>) = Panic ListenFailed"
  by (rule taken_port_stops [OF sample_env_ok sample_fair sample_math sample_keystore_ok two_chains_ports, where i = 1])
    (simp_all add: two_chains_def main_addr_parts)

text \<open>
  C27. A server asked for a single validator panics with an index out of range, although
  other code of the program guards against fewer than two validators.
\<close>

theorem one_validator_panics:
  assumes "env_ok E" "fair_source E" "keystore_ok E K" "sc_validatorCount (server_config opts) = 1"
  shows "New E K chainID opts p = Panic IndexOutOfRange"
  by (rule New_one_validator [OF assms])

theorem one_validator_panics_witness:
  "New (sample no_json) sample_keystore 1 [srvWithValidatorCount 1] free_process = Panic IndexOutOfRange"
  by (rule one_validator_panics [OF sample_env_ok sample_fair sample_keystore_ok])
    (simp add: server_config_def srvWithValidatorCount_def)

text \<open>
  C28. \<open>New\<close> opens a loopback listener before it binds the fixed address and closes it only
  afterwards. When the system picks the first port of the servers for it, the program panics
  with a failed listener although that port was free: the default start port lies in the
  range from which systems pick.
\<close>

theorem ephemeral_port_clash:
  assumes "env_ok E" "fair_source E" "math_ok E" "keystore_ok E K" "ports_ok f" "fl_blocks f \<le> 2 ^ 40"
    "0 < fl_chains f" "8 * fl_chains f \<le> 2 ^ 48" "newLocalListener p = Some (l, p1)" "port_of l = main_port f 0"
  shows "main_program E K f p = Panic ListenFailed"
  using default_chain_returns [OF assms(1-3,6)] by (intro main_first_clash [OF assms(4) _ assms(5,7-10)])

theorem ephemeral_port_clash_witness:
  "main_program (sample no_json) sample_keystore default_flags (free_process\<lparr>pr_pick := (\<lambda>_. Some ''60000'')\<rparr>) = Panic ListenFailed"
proof -
  let ?p = "free_process\<lparr>pr_pick := (\<lambda>_. Some ''60000'')\<rparr>"
  have "newLocalListener ?p = Some (''127.0.0.1:60000'', ?p\<lparr>pr_bound := [''127.0.0.1:60000'']\<rparr>)"
    by (simp add: newLocalListener_def net_Listen_def resolve_addr_def free_process_def port_of_def host_of_def)
  moreover have "port_of ''127.0.0.1:60000'' = main_port default_flags 0" by code_simp
  ultimately show ?thesis
    by (intro ephemeral_port_clash [OF sample_env_ok sample_fair sample_math sample_keystore_ok])
      (simp_all add: default_flags_def ports_ok_def)
qed

text \<open>
  C29. The private keys are printed once per process: \<open>main\<close> prints the ten key lines of its
  first chain and the keystore, whatever the number of chains, and nothing when a chain
  was built before. It logs one line per server, in order.
\<close>

theorem keys_printed_once:
  assumes "main_program E K f p = Ret (servers, p')" "ports_ok f" "0 < fl_chains f"
  shows "pr_printed p' \<and>
    (if pr_printed p then pr_stdout p' = pr_stdout p
     else \<exists>json. pr_stdout p' = pr_stdout p @ key_lines E (fl_startChainID f) 10 @ [json]) \<and>
    pr_log p' = pr_log p @ map (\<lambda>i. ''mock RPC server ready on http://'' @ pr_show p (main_addr f i) @
      '' (chainID='' @ dec_nat (unat (fl_startChainID f + of_nat i)) @ '')'') [0..<nat (fl_chains f)]"
proof -
  note m = main_servers [OF assms(1,2)]
  have "map (\<lambda>(j, s). ready_line s (fl_startChainID f + of_nat j)) (enumerate 0 servers) =
    map (\<lambda>i. ''mock RPC server ready on http://'' @ pr_show p (main_addr f i) @
      '' (chainID='' @ dec_nat (unat (fl_startChainID f + of_nat i)) @ '')'') [0..<nat (fl_chains f)]"
    using m(1,2) by (intro nth_equalityI) (simp_all add: nth_enumerate_eq ready_line_def server_of_def)
  with m(5) show ?thesis using m(6) [OF assms(3)] unfolding printed_for_def by (intro conjI) (blast, blast, simp only:)
qed

theorem keys_printed_once_witness:
  "\<exists>servers p' json. main_program (sample no_json) sample_keystore two_chains free_process = Ret (servers, p') \<and>
    pr_stdout p' = key_lines (sample no_json) 5 10 @ [json] \<and> length (pr_stdout p') = 11 \<and> length (pr_log p') = 2"
proof -
  obtain servers p' where m: "main_program (sample no_json) sample_keystore two_chains free_process = Ret (servers, p')"
    using two_chains_run by blast
  have "length (key_lines (sample no_json) 5 10) = 10" by (simp add: key_lines_def)
  with keys_printed_once [OF m two_chains_ports] m show ?thesis
    by (auto simp: two_chains_def free_process_def)
qed

text \<open>
  C30. Starting a server opens one socket, its own listener, which conflicts with none that
  was open; closing it gives the process its sockets back.
\<close>

theorem close_releases:
  assumes "New E K chainID opts p = Ret (s, p')"
  shows "pr_bound p' = sv_addr s # pr_bound p \<and> (\<forall>b \<in> set (pr_bound p). \<not> conflicts (sv_addr s) b) \<and>
    pr_bound (server_Close s p') = pr_bound p"
  using New_sockets(1,2) [OF assms] by (simp add: server_Close_def net_Close_def)

theorem close_releases_witness:
  "\<exists>s p'. New (sample no_json) sample_keystore 7 [] free_process = Ret (s, p') \<and>
    sv_addr s = ''127.0.0.1:40000'' \<and> pr_bound (server_Close s p') = []"
proof -
  let ?E = "sample no_json"
  obtain mc where mc: "newMockChain ?E 50 7 [] = Ret mc"
    using default_chain_returns [OF sample_env_ok sample_fair sample_math, of 50 no_json 7] by auto
  obtain p1 where p1: "printOnce ?E sample_keystore (validatorSeeds 7 10) free_process = Ret p1"
    using printOnce_returns [OF sample_keystore_ok] by blast
  note q = printOnce_sockets [OF p1]
  have "server_listener '''' p1 = Ret (''127.0.0.1:40000'', p1\<lparr>pr_bound := [''127.0.0.1:40000'']\<rparr>)"
    using q by (simp add: server_listener_def newLocalListener_def net_Listen_def resolve_addr_def free_process_def
        port_of_def host_of_def)
  moreover have "NewMockChain ?E sample_keystore 50 7 [] free_process = Ret (mc, p1)"
    using mc p1 by (simp add: NewMockChain_Ret)
  moreover have "server_config [] = defaultServerConfig" "chainOpts defaultServerConfig = []"
    by (simp_all add: server_config_def chainOpts_def defaultServerConfig_def)
  ultimately obtain s p' where n: "New ?E sample_keystore 7 [] free_process = Ret (s, p')" "sv_addr s = ''127.0.0.1:40000''"
    by (simp add: New_def Let_def defaultServerConfig_def)
  with close_releases [OF n(1)] show ?thesis by (simp add: free_process_def)
qed

end
