(* ===== verification/Fallback.thy ===== *)
theory Fallback
  imports Ledger
begin

text \<open>
  How far the fallback branch of \<open>SnapshotBalancesAt\<close> is from the supply. The prices of the
  other accounts are finite, their rounded sum is close to the exact one, and scaling and
  truncating each of them leaves an error of about two units per account.
\<close>

section \<open>Rounding errors\<close>

definition tiny :: rat where
  "tiny = 2 powi (- 1074)"

lemma tiny_bounds: "(0 :: rat) < tiny" "tiny \<le> 1 / 2 ^ 100"
proof -
  have "(2 :: rat) powi (- 1074) \<le> 2 powi (- 100)" by (simp only: powi2_le_iff)
  also have "\<dots> = 1 / 2 ^ 100" by (simp only: power_int_minus inverse_eq_divide power_int_numeral)
  finally show "tiny \<le> 1 / 2 ^ 100" by (simp only: tiny_def)
  show "0 < tiny" unfolding tiny_def by simp
qed

lemma fround_err:
  assumes "0 \<le> x"
  shows "\<bar>fround x - x\<bar> \<le> x / 2 ^ 53 + tiny / 2"
proof -
  note t = tiny_bounds(1)
  consider "x = 0" | "0 < x" "x < 2 powi (- 1022)" | "2 powi (- 1022) \<le> \<bar>x\<bar>" using assms by linarith
  then show ?thesis
  proof cases
    case 1
    then show ?thesis using t by simp
  next
    case 2
    have "(2 :: rat) powi (flog2 x) < 2 powi (- 1022)" using flog2_bounds(1) [OF 2(1)] 2(2) by (rule order_le_less_trans)
    then have "flog2 x < - 1022" by (simp only: powi2_less_iff)
    then have "ulp_exp x = - 1074" using 2(1) by (simp add: ulp_exp_def)
    then have "\<bar>fround x - x\<bar> \<le> tiny / 2" using fround_error [of x] 2(1) by (simp only: tiny_def)
    moreover have "0 \<le> x / 2 ^ 53" using assms by simp
    ultimately show ?thesis by linarith
  next
    case 3
    then have "\<bar>fround x - x\<bar> \<le> x / 2 ^ 53" using fround_rel_error [OF 3] assms by simp
    then show ?thesis using t by linarith
  qed
qed

lemma fround_double:
  assumes "2 powi (- 1022) \<le> x"
  shows "fround x \<le> 2 * x" "x / 2 \<le> fround x"
proof -
  have x: "0 < x" using assms by (meson less_le_trans zero_less_power_int zero_less_numeral)
  then have "\<bar>fround x - x\<bar> \<le> x / 2 ^ 53" using fround_rel_error [of x] assms by simp
  moreover have "x / 2 ^ 53 \<le> x / 2" using x by (simp add: field_simps)
  ultimately show "fround x \<le> 2 * x" "x / 2 \<le> fround x" using x by linarith+
qed

section \<open>Running sums\<close>

lemma accum_ge:
  assumes "\<And>r. r \<in> set rs \<Longrightarrow> 0 \<le> r" "fround a = a"
  shows "a \<le> fr.fr_accum a rs"
  using assms
proof (induction rs arbitrary: a)
  case Nil
  then show ?case by simp
next
  case (Cons r rs)
  have "fround a \<le> fround (a + r)" using Cons.prems(1) [of r] by (intro fround_mono) simp
  also have "\<dots> \<le> fr.fr_accum (fround (a + r)) rs" using Cons.prems(1) by (intro Cons.IH) (simp_all add: fround_idem)
  finally show ?case using Cons.prems(2) by simp
qed

lemma accum_ge_round:
  assumes "\<And>r. r \<in> set rs \<Longrightarrow> 0 \<le> r" "0 \<le> a" "r \<in> set rs"
  shows "fround r \<le> fr.fr_accum a rs"
  using assms
proof (induction rs arbitrary: a)
  case Nil
  then show ?case by simp
next
  case (Cons x xs)
  have x: "0 \<le> x" "0 \<le> a" using Cons.prems by simp_all
  have n: "0 \<le> fround (a + x)" using x by (intro fr.fr_nonneg) simp
  show ?case
  proof (cases "r = x")
    case True
    have "fround x \<le> fround (a + x)" using x by (intro fround_mono) simp
    also have "\<dots> \<le> fr.fr_accum (fround (a + x)) xs" using Cons.prems(1) by (intro accum_ge) (simp_all add: fround_idem)
    finally show ?thesis using True by simp
  next
    case False
    then show ?thesis using Cons.IH [OF _ n] Cons.prems by simp
  qed
qed

text \<open>The distance of a rounded running sum from the exact one.\<close>

lemma accum_error:
  assumes "\<And>r. r \<in> set rs \<Longrightarrow> 0 \<le> r" "0 \<le> a" "fround a = a"
  shows "\<bar>fr.fr_accum a rs - (a + sum_list rs)\<bar> \<le> rat_of_nat (length rs) * (fr.fr_accum a rs / 2 ^ 52 + tiny)"
  using assms
proof (induction rs arbitrary: a)
  case Nil
  then show ?case by simp
next
  case (Cons r rs)
  let ?x = "a + r" and ?S = "fr.fr_accum (fround (a + r)) rs"
  have x: "0 \<le> ?x" using Cons.prems by simp
  have b: "fround ?x \<le> ?S" using Cons.prems(1) by (intro accum_ge) (simp_all add: fround_idem)
  note e = fround_err [OF x] and t = tiny_bounds
  have "?x / 2 ^ 53 \<le> ?x / 2" using x by (simp add: field_simps)
  moreover have "?x - fround ?x \<le> ?x / 2 ^ 53 + tiny / 2" using e by (simp only: abs_le_iff minus_diff_eq)
  ultimately have "?x - fround ?x \<le> ?x / 2 + tiny / 2" by (meson add_right_mono order_trans)
  then have "?x \<le> 2 * (?S + tiny / 2)" using b by (simp add: field_simps)
  then have "?x / 2 ^ 53 \<le> 2 * (?S + tiny / 2) / 2 ^ 53" by (rule divide_right_mono) simp
  also have "\<dots> = ?S / 2 ^ 52 + tiny / 2 ^ 53" by (simp add: field_simps)
  also have "\<dots> \<le> ?S / 2 ^ 52 + tiny / 2" using t(1) by (simp add: field_simps)
  finally have "?x / 2 ^ 53 \<le> ?S / 2 ^ 52 + tiny / 2" .
  then have "?x / 2 ^ 53 + tiny / 2 \<le> ?S / 2 ^ 52 + tiny" by linarith
  with e have e': "\<bar>fround ?x - ?x\<bar> \<le> ?S / 2 ^ 52 + tiny" by linarith
  have "\<bar>?S - (fround ?x + sum_list rs)\<bar> \<le> rat_of_nat (length rs) * (?S / 2 ^ 52 + tiny)"
    using Cons.prems(1) fr.fr_nonneg [OF x] by (intro Cons.IH) (simp_all add: fround_idem)
  moreover have "rat_of_nat (length (r # rs)) * (?S / 2 ^ 52 + tiny) =
      rat_of_nat (length rs) * (?S / 2 ^ 52 + tiny) + (?S / 2 ^ 52 + tiny)" by (simp add: distrib_right)
  ultimately show ?case using e' by (simp add: abs_le_iff)
qed

section \<open>Scaling down\<close>

text \<open>The rational part of the estimate: sums, scale and products, each with its rounding error.\<close>

lemma scaled_estimate:
  fixes T S R c V n t :: rat
  assumes e: "\<bar>S - R\<bar> \<le> n * (S / 2 ^ 52 + t)" "\<bar>c - T / S\<bar> \<le> T / S / 2 ^ 53 + t / 2"
      "\<bar>V - c * R\<bar> \<le> c * R / 2 ^ 53 + n * (t / 2)"
    and b: "0 \<le> n" "n \<le> 2 ^ 20" "0 < t" "t \<le> 1 / 2 ^ 100" "1 \<le> T" "T \<le> 2 ^ 52" "T < S" "S \<le> 2 ^ 90" "0 \<le> R"
  shows "\<bar>V - T\<bar> \<le> n + 3"
proof -
  define q where "q = T / S"
  have q: "0 < q" "q \<le> 1" "q * S = T" using b by (simp_all add: q_def)
  have nt: "n * t \<le> 2 ^ 20 * (1 / 2 ^ 100)" using b by (intro mult_mono) simp_all
  have St: "S * t \<le> 2 ^ 90 * (1 / 2 ^ 100)" using b by (intro mult_mono) simp_all
  have nS: "n * S \<le> 2 ^ 20 * S" using b by (intro mult_right_mono) simp_all
  have a: "q * \<bar>S - R\<bar> \<le> q * (n * (S / 2 ^ 52 + t))" using e(1) q(1) by (intro mult_left_mono) simp_all
  have nT: "n * T \<le> n * 2 ^ 52" using b by (intro mult_left_mono) simp_all
  have "q * (n * t) \<le> 1 * (n * t)" using q b by (intro mult_right_mono) simp_all
  moreover have "q * (n * (S / 2 ^ 52 + t)) = n * T / 2 ^ 52 + q * (n * t)" by (simp add: q(3) [symmetric] field_simps)
  moreover have "n * T / 2 ^ 52 \<le> n" using nT by simp
  moreover have "q * \<bar>S - R\<bar> = \<bar>T - q * R\<bar>" using q(1) by (simp add: q(3) [symmetric] abs_mult flip: right_diff_distrib)
  ultimately have one: "\<bar>T - q * R\<bar> \<le> n + n * t" using a by linarith
  have "R \<le> S + n * (S / 2 ^ 52 + t)" using e(1) by (simp add: abs_le_iff)
  also have "\<dots> = S + n * S / 2 ^ 52 + n * t" by (simp add: distrib_left)
  also have "\<dots> \<le> S + S / 2 + S / 2" using nS nt b by (intro add_mono) (simp_all add: field_simps)
  finally have R: "R \<le> 2 * S" by simp
  have "\<bar>c - q\<bar> * R \<le> (q / 2 ^ 53 + t / 2) * (2 * S)"
    using e(2) R b(9) q(1) b(3) unfolding q_def [symmetric] by (intro mult_mono) simp_all
  also have "\<dots> = 2 * T / 2 ^ 53 + S * t" by (simp add: q(3) [symmetric] field_simps)
  also have "\<dots> \<le> 1 + S * t" using b(6) by simp
  finally have two: "\<bar>c * R - q * R\<bar> \<le> 1 + S * t" using b(9) by (simp add: abs_mult flip: left_diff_distrib)
  have "q * R \<le> q * (2 * S)" using R q(1) by (intro mult_left_mono) simp_all
  then have "c * R \<le> 2 * T + 2" using two St q(3) by (simp add: abs_le_iff)
  then have "c * R / 2 ^ 53 \<le> (2 * 2 ^ 52 + 2) / 2 ^ 53" using b(6) by (intro divide_right_mono) simp_all
  also have "\<dots> = 1 + 2 / 2 ^ 53" by simp
  finally have "c * R / 2 ^ 53 + n * (t / 2) \<le> 1 + 2 / 2 ^ 53 + n * t / 2" by simp
  with e(3) have three: "\<bar>V - c * R\<bar> \<le> 1 + 2 / 2 ^ 53 + n * t / 2" by (rule order_trans)
  show ?thesis using one two three nt St by (simp add: abs_le_iff)
qed

lemma sum_round_error:
  assumes "\<And>x. x \<in> set xs \<Longrightarrow> 0 \<le> x" "0 \<le> c"
  shows "\<bar>(\<Sum>x\<leftarrow>xs. fround (x * c)) - c * sum_list xs\<bar> \<le> c * sum_list xs / 2 ^ 53 + rat_of_nat (length xs) * (tiny / 2)"
  using assms(1)
proof (induction xs)
  case Nil
  then show ?case by simp
next
  case (Cons x xs)
  have "\<bar>fround (x * c) - x * c\<bar> \<le> x * c / 2 ^ 53 + tiny / 2" using Cons.prems assms(2) by (intro fround_err) simp
  moreover have "\<bar>(\<Sum>x\<leftarrow>xs. fround (x * c)) - c * sum_list xs\<bar> \<le> c * sum_list xs / 2 ^ 53 + rat_of_nat (length xs) * (tiny / 2)"
    using Cons by simp
  moreover have "c * sum_list (x # xs) / 2 ^ 53 + rat_of_nat (length (x # xs)) * (tiny / 2) =
      x * c / 2 ^ 53 + tiny / 2 + (c * sum_list xs / 2 ^ 53 + rat_of_nat (length xs) * (tiny / 2))"
    by (simp add: distrib_right distrib_left add_divide_distrib mult.commute)
  moreover have "(\<Sum>x\<leftarrow>x # xs. fround (x * c)) - c * sum_list (x # xs) =
      (fround (x * c) - x * c) + ((\<Sum>x\<leftarrow>xs. fround (x * c)) - c * sum_list xs)"
    by (simp add: algebra_simps)
  ultimately show ?case by linarith
qed

lemma scaled_sum:
  fixes xs :: "rat list"
  defines "S \<equiv> fr.fr_accum 0 xs"
  assumes "\<And>x. x \<in> set xs \<Longrightarrow> 0 \<le> x" "length xs \<le> 2 ^ 20" "1 \<le> T" "T \<le> 2 ^ 52" "T < S" "S \<le> 2 ^ 90"
  shows "\<bar>(\<Sum>x\<leftarrow>xs. fround (x * fround (T / S))) - T\<bar> \<le> rat_of_nat (length xs) + 3"
proof (rule scaled_estimate [where R = "sum_list xs" and c = "fround (T / S)" and S = S and t = tiny])
  have q: "0 \<le> T / S" using assms(4,6) by simp
  show "\<bar>S - sum_list xs\<bar> \<le> rat_of_nat (length xs) * (S / 2 ^ 52 + tiny)"
    using accum_error [of xs 0] assms(2) by (simp add: S_def)
  show "\<bar>fround (T / S) - T / S\<bar> \<le> T / S / 2 ^ 53 + tiny / 2" using q by (rule fround_err)
  show "\<bar>(\<Sum>x\<leftarrow>xs. fround (x * fround (T / S))) - fround (T / S) * sum_list xs\<bar> \<le>
      fround (T / S) * sum_list xs / 2 ^ 53 + rat_of_nat (length xs) * (tiny / 2)"
    using assms(2) q by (intro sum_round_error fr.fr_nonneg) simp_all
  have "rat_of_nat (length xs) \<le> rat_of_nat (2 ^ 20)" using assms(3) by (simp only: of_nat_le_iff)
  then show "rat_of_nat (length xs) \<le> 2 ^ 20" by simp
  show "0 \<le> sum_list xs" using assms(2) by (intro sum_list_nonneg) simp
qed (use assms tiny_bounds in simp_all)

lemma floor_sum_near:
  fixes vs :: "rat list"
  assumes "\<bar>sum_list vs - of_int T\<bar> \<le> rat_of_nat (length vs) + 3"
  shows "\<bar>(\<Sum>v\<leftarrow>vs. \<lfloor>v\<rfloor>) - T\<bar> \<le> 2 * int (length vs) + 3"
proof -
  have "sum_list vs - rat_of_nat (length vs) \<le> of_int (\<Sum>v\<leftarrow>vs. \<lfloor>v\<rfloor>) \<and> of_int (\<Sum>v\<leftarrow>vs. \<lfloor>v\<rfloor>) \<le> sum_list vs"
  proof (induction vs)
    case (Cons v vs)
    have "v - 1 \<le> of_int \<lfloor>v\<rfloor>" "of_int \<lfloor>v\<rfloor> \<le> v" by linarith+
    moreover have "rat_of_nat (length (v # vs)) = rat_of_nat (length vs) + 1" by simp
    ultimately show ?case using Cons by (simp only: list.map sum_list.Cons of_int_add) linarith
  qed simp
  with assms have "rat_of_int ((\<Sum>v\<leftarrow>vs. \<lfloor>v\<rfloor>) - T) \<le> rat_of_int (2 * int (length vs) + 3)"
    "rat_of_int (T - (\<Sum>v\<leftarrow>vs. \<lfloor>v\<rfloor>)) \<le> rat_of_int (2 * int (length vs) + 3)"
    by (simp_all add: abs_le_iff)
  then show ?thesis by (simp only: of_int_le_iff abs_le_iff minus_diff_eq)
qed

section \<open>Finite sums\<close>

text \<open>Bounded summands on a power of two add up without overflow.\<close>

lemma foldl_fadd_bounded:
  assumes "\<forall>x \<in> set xs. 0 \<le> x \<and> x \<le> 2 powi k" "- 1074 \<le> k" "k \<le> 900" "j + length xs \<le> 2 ^ 20"
    "0 \<le> a" "a \<le> rat_of_nat j * 2 powi k"
  shows "foldl fadd (Fin a) (map Fin xs) = Fin (fr.fr_accum a xs) \<and>
    fr.fr_accum a xs \<le> rat_of_nat (j + length xs) * 2 powi k"
  using assms(1,4-6)
proof (induction xs arbitrary: a j)
  case Nil
  then show ?case by simp
next
  case (Cons x xs)
  have x: "0 \<le> x" "x \<le> 2 powi k" using Cons.prems(1) by simp_all
  let ?B = "rat_of_nat (Suc j) * 2 powi k"
  have j: "Suc j \<le> 2 ^ 20" using Cons.prems(2) by simp
  have le: "a + x \<le> ?B" using x Cons.prems(4) by (simp add: distrib_right)
  have "fround (of_int (int (Suc j)) * 2 powi k) = of_int (int (Suc j)) * 2 powi k"
    using j by (intro fround_exact assms(2)) simp
  then have ex: "fround ?B = ?B" by (simp only: of_int_of_nat_eq)
  have "rat_of_nat (Suc j) \<le> rat_of_nat (2 ^ 20)" using j by (simp only: of_nat_le_iff)
  then have "?B \<le> 2 powi 20 * 2 powi k" by (intro mult_right_mono) simp_all
  also have "\<dots> = 2 powi (20 + k)" by (subst power_int_add) simp_all
  also have "\<dots> < 2 powi 1024" using assms(3) by (simp only: powi2_less_iff)
  finally have "exact_bound ?B" using ex by (simp add: exact_bound_def)
  moreover have "\<bar>a + x\<bar> \<le> ?B" using le x Cons.prems(3) by simp
  ultimately have r: "rnd (a + x) = Fin (fround (a + x))" "fround (a + x) \<le> ?B" using rnd_within [of ?B "a + x"] by (auto dest: abs_le_D1)
  have "0 \<le> fround (a + x)" using x Cons.prems(3) by (intro fr.fr_nonneg) simp
  with Cons.IH [of "Suc j" "fround (a + x)"] Cons.prems(1,2) r show ?case by (simp add: f64_ops_Fin)
qed

section \<open>Prices\<close>

text \<open>The price of an address is at most \<open>2 ^ 9\<close> times its base value, times the rate.\<close>

lemma rawValue_base:
  assumes "math_ok E" "fair_source E"
  obtains b v where "baseValue E addr = Some (Fin b)" "2 powi (- 810) \<le> b" "b \<le> 2 powi 810"
    "rawValue E addr height = Some (Fin v)" "0 < v" "v \<le> 2 ^ 9 * b"
proof -
  obtain b where b: "baseValue E addr = Some (Fin b)" "2 powi (- 810) \<le> b" "b \<le> 2 powi 810"
    by (rule baseValue_returns [OF assms])
  obtain z r' where z: "StandardNormal E (RngForAddrHeight addr height) = Some (Fin z, r')" "\<bar>z\<bar> \<le> 8"
    by (rule StandardNormal_returns [OF assms])
  obtain u r1 where u: "float64 E (RngForAddrHeight addr height) = Some (Fin u, r1)"
    by (rule float64_returns [OF assms(2)])
  obtain n where n: "pl_exp E (fmul (fconst (15 / 100)) (Fin z)) = Fin n" "2 powi (- 8) \<le> n" "n \<le> 2 powi 8"
    using noise_factor [OF assms(1) z(2), of "15 / 100"] by auto
  obtain p where p: "fmul (Fin b) (Fin n) = Fin p" "2 powi (- 818) \<le> p" "p \<le> 2 powi 818"
    using fmul_between [OF b(2,3) n(2,3)] by auto
  have pos: "0 < p" "0 < b" "0 < n" using p(2) b(2) n(2) by (meson less_le_trans zero_less_power_int zero_less_numeral)+
  have "2 powi (- 810) * 2 powi (- 8) \<le> b * n" using b n pos by (intro mult_mono) simp_all
  moreover have "(2 :: rat) powi (- 1022) \<le> 2 powi (- 810) * 2 powi (- 8)"
    using powi2_le_iff [of "- 1022" "- 818"] by (simp add: power_int_minus)
  ultimately have "fround (b * n) \<le> 2 * (b * n)" by (intro fround_double) (rule order_trans)
  moreover have "p = fround (b * n)" using p(1) by (simp add: f64_ops_Fin rnd_def Let_def split: if_splits)
  moreover have "b * n \<le> b * 2 ^ 8" using n(3) pos by (intro mult_left_mono) simp_all
  ultimately have le: "p \<le> 2 ^ 9 * b" by simp
  have "b \<le> 2 ^ 9 * b" using pos(2) by simp
  with b z u n p pos le that show ?thesis
    by (cases "flt (Fin u) (fconst (2 / 100))") (auto simp: rawValue_def addrActiveAtHeight_def)
qed

lemma rate_bound:
  assumes "math_ok E" "fair_source E" "addrs \<noteq> []" "length addrs \<le> 2 ^ 20"
  obtains rate where "exchangeRate E addrs chainID = Some (Fin rate)" "0 \<le> rate"
    "\<forall>a \<in> set addrs. \<forall>b. baseValue E a = Some (Fin b) \<longrightarrow> b * rate \<le> 2 ^ 54"
proof -
  have "\<exists>b. baseValue E a = Some (Fin b) \<and> 2 powi (- 810) \<le> b \<and> b \<le> 2 powi 810" for a
    using baseValue_returns [OF assms(1,2)] by metis
  then obtain f where f: "\<And>a. baseValue E a = Some (Fin (f a))" "\<And>a. 2 powi (- 810) \<le> f a" "\<And>a. f a \<le> 2 powi 810" by metis
  have pos: "0 < f a" for a using f(2) [of a] by (meson less_le_trans zero_less_power_int zero_less_numeral)
  have bases: "opt_mapM (baseValue E) addrs = Some (map Fin (map f addrs))" by (induction addrs) (simp_all add: f(1))
  define S where "S = fr.fr_accum 0 (map f addrs)"
  have x: "\<forall>x \<in> set (map f addrs). 0 \<le> x \<and> x \<le> 2 powi 810"
    using f(3) less_imp_le [OF pos] by (auto simp del: power_int_numeral)
  have S: "foldl fadd (Fin 0) (map Fin (map f addrs)) = Fin S" "S \<le> rat_of_nat (0 + length addrs) * 2 powi 810"
    using foldl_fadd_bounded [OF x, where j = 0 and a = 0] assms(4) unfolding S_def by simp_all
  have big: "(2 :: rat) powi (- 1022) \<le> 2 powi (- 810)" by (simp only: powi2_le_iff)
  have half: "f a \<le> 2 * S" if "a \<in> set addrs" for a
  proof -
    have "f a / 2 \<le> fround (f a)" using f(2) by (intro fround_double order_trans [OF big])
    moreover have "fround (f a) \<le> S" unfolding S_def using that pos by (intro accum_ge_round) (auto simp: less_imp_le)
    ultimately show ?thesis by simp
  qed
  from assms(3) half pos have Spos: "0 < S" by (metis list.set_intros(1) neq_Nil_conv less_le_trans zero_less_mult_pos zero_less_numeral)
  define T where "T = rat_of_nat (unat (TotalSupplyAt E chainID 0))"
  have n: "70000000 \<le> unat (TotalSupplyAt E chainID 0)" "unat (TotalSupplyAt E chainID 0) \<le> 2 ^ 52"
    by (rule TotalSupplyAt_bounds; simp)+
  then have T: "f64_of_u64 (TotalSupplyAt E chainID 0) = Fin T"
    unfolding T_def by (intro f64_of_u64_exact) (erule order_trans, simp)
  have "rat_of_nat (unat (TotalSupplyAt E chainID 0)) \<le> rat_of_nat (2 ^ 52)" using n(2) by (simp only: of_nat_le_iff)
  then have T1: "T \<le> 2 ^ 52" by (simp add: T_def)
  have "rat_of_nat 70000000 \<le> T" unfolding T_def using n(1) by (simp only: of_nat_le_iff)
  then have T0: "1 \<le> T" by simp
  obtain a0 where a0: "a0 \<in> set addrs" using assms(3) by (cases addrs) auto
  have "2 powi (- 811) \<le> S"
    using half [OF a0] f(2) [of a0] by (simp add: power_int_minus)
  then have "T / S \<le> 2 ^ 52 / 2 powi (- 811)" using T1 T0 by (intro frac_le) simp_all
  also have "\<dots> = 2 powi 863" by (simp add: power_int_minus)
  finally have hi: "T / S \<le> 2 powi 863" .
  have "rat_of_nat (0 + length addrs) \<le> rat_of_nat (2 ^ 20)" using assms(4) by (simp only: of_nat_le_iff add_0)
  then have "rat_of_nat (0 + length addrs) * 2 powi 810 \<le> 2 ^ 20 * 2 powi 810" by (intro mult_right_mono) simp_all
  then have "S \<le> 2 powi 830" using S(2) by simp
  then have "1 / 2 powi 830 \<le> T / S" using T0 Spos by (intro frac_le) simp_all
  moreover have "(2 :: rat) powi (- 1022) \<le> 1 / 2 powi 830" using powi2_le_iff [of "- 1022" "- 830"] by (simp only: power_int_minus inverse_eq_divide)
  ultimately have lo: "2 powi (- 1022) \<le> T / S" by (meson order_trans)
  have q: "0 \<le> T / S" using Spos T0 by simp
  have "rnd (T / S) = Fin (fround (T / S))"
    using rnd_within [OF exact_bound_powi2 [of 863], of "T / S"] hi q by simp
  then have rate: "exchangeRate E addrs chainID = Some (Fin (fround (T / S)))"
    using Spos unfolding exchangeRate_def bases Let_def T Option.bind.simps S(1) by (simp add: feq_def f64_ops_Fin)
  show ?thesis
  proof (rule that [OF rate])
    show "0 \<le> fround (T / S)" using q by (rule fr.fr_nonneg)
    have "b * fround (T / S) \<le> 2 ^ 54" if "a \<in> set addrs" "baseValue E a = Some (Fin b)" for a b
    proof -
      have "b = f a" using that(2) f(1) by simp
      then have "b * fround (T / S) \<le> (2 * S) * (2 * (T / S))"
        using half [OF that(1)] fround_double(1) [OF lo] pos [of a] q Spos fr.fr_nonneg [OF q] by (intro mult_mono) simp_all
      also have "\<dots> = 4 * T" using Spos by simp
      also have "\<dots> \<le> 2 ^ 54" using T1 by simp
      finally show ?thesis .
    qed
    then show "\<forall>a \<in> set addrs. \<forall>b. baseValue E a = Some (Fin b) \<longrightarrow> b * fround (T / S) \<le> 2 ^ 54" by blast
  qed
qed

lemma prices_bounded:
  assumes "math_ok E" "fair_source E" "addrs \<noteq> []" "length addrs \<le> 2 ^ 20"
    "exchangeRate E addrs chainID = Some rate" "raws_of E addrs height residual rate = Some raws"
  obtains xs where "raws = map Fin xs" "\<forall>x \<in> set xs. 0 \<le> x \<and> x \<le> 2 powi 63"
proof -
  obtain k where e: "exchangeRate E addrs chainID = Some (Fin k)" and k: "0 \<le> k"
    "\<forall>a \<in> set addrs. \<forall>b. baseValue E a = Some (Fin b) \<longrightarrow> b * k \<le> 2 ^ 54"
    by (rule rate_bound [OF assms(1-4), where chainID = chainID])
  have r: "rate = Fin k" using e assms(5) by simp
  have "\<exists>x. raw = Fin x \<and> 0 \<le> x \<and> x \<le> 2 powi 63" if raw: "raw \<in> set raws" for raw
  proof -
    obtain i where i: "i < length addrs" "raw = raws ! i"
      using raw raws_of_nth(1) [OF assms(6)] by (auto simp: in_set_conv_nth)
    show ?thesis
    proof (cases "i = residual")
      case True
      then have "raw = Fin 0"
        using opt_mapM_nth [OF assms(6) [unfolded raws_of_def], of i] i by (simp add: nth_enumerate_eq)
      then show ?thesis by simp
    next
      case False
      obtain b v where v: "baseValue E (addrs ! i) = Some (Fin b)" "rawValue E (addrs ! i) height = Some (Fin v)" "0 < v" "v \<le> 2 ^ 9 * b"
        by (rule rawValue_base [OF assms(1,2)])
      have "v * k \<le> 2 ^ 9 * b * k" using v(4) k(1) by (rule mult_right_mono)
      also have "\<dots> = 2 ^ 9 * (b * k)" by simp
      also have "\<dots> \<le> 2 ^ 9 * 2 ^ 54" using k(2) [rule_format, OF _ v(1)] i(1) by (intro mult_left_mono) simp_all
      finally have "\<bar>v * k\<bar> \<le> 2 powi 63" using v(3) k(1) by simp
      then have "rnd (v * k) = Fin (fround (v * k)) \<and> \<bar>fround (v * k)\<bar> \<le> 2 powi 63" by (intro rnd_within exact_bound_powi2) simp_all
      moreover have "0 \<le> fround (v * k)" using v(3) k(1) by (intro fr.fr_nonneg) simp
      ultimately show ?thesis
        using raws_of_nth(2) [OF assms(6) i(1) False] v(2) r i(2) by (auto simp: f64_ops_Fin)
    qed
  qed
  then obtain f where f: "\<And>raw. raw \<in> set raws \<Longrightarrow> raw = Fin (f raw) \<and> 0 \<le> f raw \<and> f raw \<le> 2 powi 63" by metis
  then have "raws = map Fin (map f raws)" by (simp add: map_idI)
  with f show ?thesis by (intro that [of "map f raws"]) auto
qed

section \<open>The fallback stays near the supply\<close>

lemma others_map: "r < length xs \<Longrightarrow> others r (map f xs) = map f (others r xs)"
  by (simp add: others_eq take_map drop_map)

lemma sum_list_residual:
  assumes "r < length xs"
  shows "sum_list (map unat (map (\<lambda>(i, v). if i \<noteq> r then f v else 0) (enumerate 0 xs))) =
    (\<Sum>x\<leftarrow>others r xs. unat (f x :: u64))"
proof -
  let ?ys = "map (\<lambda>(i, v). if i \<noteq> r then f v else 0) (enumerate 0 xs)"
  have "sum_list (map unat ?ys) = unat (?ys ! r) + (\<Sum>y\<leftarrow>others r ?ys. unat y)"
    using sum_list_update_others [of r ?ys unat "?ys ! r"] assms by (simp only: list_update_id length_map length_enumerate)
  moreover have "?ys ! r = 0" using assms by (simp add: nth_enumerate_eq)
  moreover have "others r ?ys = map f (others r xs)" using assms by (rule others_map_enumerate)
  ultimately show ?thesis by (simp only: unat_0 add_0 map_map o_def)
qed

lemma int_sum_list: "(\<And>x. x \<in> set xs \<Longrightarrow> f x = nat (g x) \<and> 0 \<le> g x) \<Longrightarrow> int (\<Sum>x\<leftarrow>xs. f x) = (\<Sum>x\<leftarrow>xs. g x)"
  by (induction xs) simp_all

lemma fallback_sum:
  assumes "r < length xs" "\<forall>x \<in> set xs. 0 \<le> x \<and> x \<le> 2 powi 63" "length xs \<le> 2 ^ 20"
    "1 \<le> unat supply" "unat supply \<le> 2 ^ 52"
    "flt (f64_of_u64 supply) (foldl fadd (Fin 0) (others r (map Fin xs)))"
  shows "\<bar>int (sum_list (map unat (fallback_balances oor r (f64_of_u64 supply)
      (foldl fadd (Fin 0) (others r (map Fin xs))) (map Fin xs)))) - int (unat supply)\<bar> \<le> 2 * int (length xs) + 1"
proof -
  let ?os = "others r xs"
  define T where "T = rat_of_nat (unat supply)"
  define S where "S = fr.fr_accum 0 ?os"
  have os: "\<forall>x \<in> set ?os. 0 \<le> x \<and> x \<le> 2 powi 63" using assms(1,2) by (auto simp: set_others simp del: power_int_numeral)
  have len: "length ?os = length xs - 1" using assms(1) by (simp add: others_eq)
  then have len20: "0 + length ?os \<le> 2 ^ 20" using assms(3) by simp
  have S: "foldl fadd (Fin 0) (others r (map Fin xs)) = Fin S" "S \<le> rat_of_nat (length ?os) * 2 powi 63"
    using foldl_fadd_bounded [OF os, where j = 0 and a = 0] len20 assms(1) unfolding S_def by (simp_all add: others_map)
  have "rat_of_nat (length ?os) \<le> rat_of_nat (2 ^ 20)" using len20 by (simp only: of_nat_le_iff add_0)
  then have "rat_of_nat (length ?os) * 2 powi 63 \<le> 2 ^ 20 * 2 powi 63" by (intro mult_right_mono) simp_all
  then have S90: "S \<le> 2 ^ 90" using S(2) by simp
  have T: "f64_of_u64 supply = Fin T" unfolding T_def using assms(5) by (intro f64_of_u64_exact) (erule order_trans, simp)
  have TS: "T < S" using assms(6) by (simp add: S(1) T flt_def)
  have "rat_of_nat 1 \<le> T" unfolding T_def using assms(4) by (simp only: of_nat_le_iff)
  then have T1: "1 \<le> T" by simp
  have "T \<le> rat_of_nat (2 ^ 52)" unfolding T_def using assms(5) by (simp only: of_nat_le_iff)
  then have T52: "T \<le> 2 ^ 52" by simp
  have q: "0 \<le> T / S" "T / S \<le> 1" using TS T1 by simp_all
  let ?c = "fround (T / S)"
  have c: "rnd (T / S) = Fin ?c" "0 \<le> ?c" "?c \<le> 1"
    using rnd_within [OF exact_bound_one, of "T / S"] q fr.fr_nonneg [OF q(1)] by auto
  have v: "unat (u64_of_f64 oor (fmul (Fin x) (Fin ?c))) = nat \<lfloor>fround (x * ?c)\<rfloor> \<and> 0 \<le> \<lfloor>fround (x * ?c)\<rfloor>" if "x \<in> set ?os" for x
  proof -
    have x: "0 \<le> x" "x \<le> 2 powi 63" using that os by blast+
    have "x * ?c \<le> 2 powi 63 * 1" using x c by (intro mult_mono) simp_all
    then have "\<bar>x * ?c\<bar> \<le> 2 powi 63" using x(1) c(2) by simp
    then have r: "rnd (x * ?c) = Fin (fround (x * ?c)) \<and> \<bar>fround (x * ?c)\<bar> \<le> 2 powi 63" by (intro rnd_within exact_bound_powi2) simp_all
    have f: "0 \<le> fround (x * ?c)" using x(1) c(2) by (intro fr.fr_nonneg) simp
    have lt: "fround (x * ?c) < 2 ^ 64" using r by (auto dest: abs_le_D1)
    then have "\<lfloor>fround (x * ?c)\<rfloor> < 2 ^ 64" by (simp add: floor_less_iff)
    with r f lt show ?thesis by (simp add: f64_ops_Fin u64_of_f64_def unat_of_int_u64)
  qed
  have "int (\<Sum>x\<leftarrow>?os. unat (u64_of_f64 oor (fmul (Fin x) (Fin ?c)))) = (\<Sum>x\<leftarrow>?os. \<lfloor>fround (x * ?c)\<rfloor>)"
    using v by (intro int_sum_list) blast
  moreover have "\<bar>sum_list (map (\<lambda>x. fround (x * ?c)) ?os) - of_int (int (unat supply))\<bar> \<le> rat_of_nat (length ?os) + 3"
    using scaled_sum [of ?os T] os len20 T1 T52 TS S90 unfolding S_def by (simp add: T_def)
  from floor_sum_near [of "map (\<lambda>x. fround (x * ?c)) ?os", simplified length_map, OF this]
  have "\<bar>(\<Sum>x\<leftarrow>?os. \<lfloor>fround (x * ?c)\<rfloor>) - int (unat supply)\<bar> \<le> 2 * int (length ?os) + 3" by (simp add: o_def)
  moreover have "int (length ?os) = int (length xs) - 1" using len assms(1) by simp
  moreover have "sum_list (map unat (fallback_balances oor r (f64_of_u64 supply) (foldl fadd (Fin 0) (others r (map Fin xs))) (map Fin xs))) =
      (\<Sum>x\<leftarrow>?os. unat (u64_of_f64 oor (fmul (Fin x) (Fin ?c))))"
  proof -
    have "fallback_balances oor r (Fin T) (Fin S) (map Fin xs) =
        map (\<lambda>(i, v). if i \<noteq> r then u64_of_f64 oor (fmul v (Fin ?c)) else 0) (enumerate 0 (map Fin xs))"
      using TS T1 c(1) by (simp add: fallback_balances_def Let_def f64_ops_Fin)
    then show ?thesis unfolding T S(1)
      using assms(1) sum_list_residual [of r "map Fin xs" "\<lambda>v. u64_of_f64 oor (fmul v (Fin ?c))"]
      by (simp only: length_map others_map map_map o_def)
  qed
  ultimately show ?thesis by simp
qed

text \<open>
  At a height that falls back the residual is zero, and the balances add up to the supply up
  to two units per address and one.
\<close>

lemma snapshot_fallback_near:
  assumes "math_ok E" "fair_source E" "snapshot_falls_back E addrs chainID height = Some True"
    "unat height \<le> 2 ^ 40" "length addrs \<le> 2 ^ 20"
  shows "\<exists>bs residual. SnapshotBalancesAt E addrs chainID height = Some bs \<and> residualIndex E addrs = Some residual \<and>
    length bs = length addrs \<and> residual < length addrs \<and> bs ! residual = 0 \<and>
    \<bar>int (sum_list (map unat bs)) - int (unat (TotalSupplyAt E chainID height))\<bar> \<le> 2 * int (length addrs) + 1"
proof -
  have n: "1 < length addrs" using assms(3) by (auto simp: snapshot_falls_back_def bind_eq_Some_conv)
  then have ne: "addrs \<noteq> []" by auto
  obtain residual rate raws where p: "residualIndex E addrs = Some residual" "residual < length addrs"
    "exchangeRate E addrs chainID = Some rate" "raws_of E addrs height residual rate = Some raws" "length raws = length addrs"
    by (rule snapshot_parts [OF assms(1,2) ne])
  obtain xs where xs: "raws = map Fin xs" "\<forall>x \<in> set xs. 0 \<le> x \<and> x \<le> 2 powi 63"
    by (rule prices_bounded [OF assms(1,2) ne assms(5) p(3,4)])
  note e = SnapshotBalancesAt_many [OF p(1,3,4) n]
  note t = TotalSupplyAt_bounds(1,2) [OF assms(4), of E chainID]
  have fb: "flt (f64_of_u64 (TotalSupplyAt E chainID height)) (foldl fadd (Fin 0) (others residual raws))"
    using e(2) assms(3) by simp
  have len: "length xs = length addrs" using p(5) xs(1) by simp
  have "\<bar>int (sum_list (map unat (fallback_balances (pl_conv E) residual (f64_of_u64 (TotalSupplyAt E chainID height))
      (foldl fadd (Fin 0) (others residual raws)) raws))) - int (unat (TotalSupplyAt E chainID height))\<bar> \<le> 2 * int (length addrs) + 1"
    unfolding xs(1) len [symmetric]
    using fb p(2) len assms(5) t xs by (intro fallback_sum) simp_all
  then show ?thesis
    using e(1) fb p(1,2,5) fallback_residual_zero [of residual raws] by (simp add: fallback_balances_def Let_def)
qed

end
