(* ===== verification/GenProperties.thy ===== *)
theory GenProperties
  imports Sample Fallback
begin

text \<open>
  The properties of the generators: the samplers stop and stay in range, the rate table is
  balanced, validators leave on schedule, the closed-form ledger leaves inactive accounts
  alone and stays near the supply when it falls back; and where distinct inputs or units are
  lost.
\<close>

text \<open>
  C31. The samplers behind the transaction counts return. Knuth's Poisson sampler does so for
  every finite mean: the product of the draws falls to the limit because every float below
  one is a positive distance away from it and low draws keep coming. Marsaglia and Tsang's
  gamma sampler does so for the busy shape 8 and every scale it is given.
\<close>

theorem samplers_terminate:
  assumes "fair_source E" "math_ok E" "fwithin 32 scale"
  shows "\<exists>n r' g r''. samplePoisson E r (Fin x) = Some (n, r') \<and> sampleGamma E r (Fin 8) scale = Some (Fin g, r'')"
proof -
  obtain n r' where "samplePoisson E r (Fin x) = Some (n, r')" by (rule poisson_finite_returns [OF assms(2,1)])
  moreover obtain g r'' where "sampleGamma E r (Fin 8) scale = Some (Fin g, r'')"
    by (rule sampleGamma_8_returns [OF assms(2,1,3)])
  ultimately show ?thesis by blast
qed

theorem samplers_terminate_witness:
  "\<exists>n r' g r''. samplePoisson (sample no_json) (new_rand 7) (Fin 1500) = Some (n, r') \<and>
    sampleGamma (sample no_json) (new_rand 7) (Fin 8) (Fin 20) = Some (Fin g, r'')"
  using samplers_terminate [OF sample_fair sample_math, of "Fin 20"] by simp

text \<open>
  The draws behind balances and stakes are bounded: a normal deviate is finite and at
  most 8 in magnitude, and the base value of an address is a positive finite float.
\<close>

theorem draws_bounded:
  assumes "fair_source E" "math_ok E"
  shows "\<exists>z r' v s. StandardNormal E r = Some (Fin z, r') \<and> \<bar>z\<bar> \<le> 8 \<and>
    baseValue E addr = Some (Fin v) \<and> 2 powi (- 810) \<le> v \<and> v \<le> 2 powi 810 \<and>
    StakeAt E addr chainID height = Some s"
proof -
  obtain z r' where "StandardNormal E r = Some (Fin z, r')" "\<bar>z\<bar> \<le> 8"
    by (rule StandardNormal_returns [OF assms(2,1)])
  moreover obtain v where "baseValue E addr = Some (Fin v)" "2 powi (- 810) \<le> v" "v \<le> 2 powi 810"
    by (rule baseValue_returns [OF assms(2,1)])
  ultimately show ?thesis using StakeAt_returns [OF assms(2,1)] by metis
qed

theorem draws_bounded_witness:
  "\<exists>v. baseValue (sample no_json) [1, 2, 3] = Some (Fin v) \<and> v \<le> 2 powi 810"
  using draws_bounded [OF sample_fair sample_math, where addr = "[1, 2, 3]"] by blast

text \<open>
  C32. The type mixes always return a label of the profile's table, and the numbers of events
  and transactions always return.
\<close>

theorem mixes_return:
  assumes "fair_source E" "math_ok E"
  shows "\<exists>l l' m n. TxTypeMixAt E chainID p height = Some l \<and> l \<in> set (type_labels p) \<and>
    EventTypeMixAt E chainID p height = Some l' \<and> l' \<in> wo_label ` set (EventWeightsForProfile p) \<and>
    EventCountAt E chainID p height = Some m \<and> TxCountAt E chainID p height = Some n"
proof -
  obtain l l' where "TxTypeMixAt E chainID p height = Some l" "EventTypeMixAt E chainID p height = Some l'"
    using TxTypeMixAt_returns [OF assms(1)] EventTypeMixAt_returns [OF assms(1)] by blast
  moreover obtain m n where "EventCountAt E chainID p height = Some m" "TxCountAt E chainID p height = Some n"
    using EventCountAt_returns [OF assms] TxCountAt_returns [OF assms] by blast
  ultimately show ?thesis
    using TxTypeMixAt_label [of E chainID p height l] EventTypeMixAt_label [of E chainID p height l']
    by (intro exI [of _ l] exI [of _ l'] exI [of _ m] exI [of _ n]) simp
qed

theorem mixes_return_witness:
  "\<exists>l. EventTypeMixAt (sample no_json) 1 ProfileBusy 9 = Some l \<and> l \<in> {''reward'', ''dexSwap'', ''dexLiquidityDeposit'', ''other''}"
proof -
  obtain l where "EventTypeMixAt (sample no_json) 1 ProfileBusy 9 = Some l"
    "l \<in> wo_label ` set (EventWeightsForProfile ProfileBusy)"
    using mixes_return [OF sample_fair sample_math, where chainID = 1 and p = ProfileBusy and height = 9] by blast
  then show ?thesis by (auto simp: EventWeightsForProfile_def busyEventWeights_def)
qed

text \<open>
  The mean number of transactions of a busy chain lies between 46 and 177 at every
  height, and the hourly ratios average to one up to a thousandth.
\<close>

theorem busy_mean_bounded:
  "fbetween 46 177 (busyMeanAt height (txCountMean busyParams)) \<and>
   fbetween (999 / 1000) (1001 / 1000) (fdiv (foldl fadd (Fin 0) busyHourlyRateRatio) (Fin 24))"
  by (intro conjI busyMeanAt_range rate_table_average)

text \<open>
  C33. Every validator has a scheduled height, either out of reach or between 100 and
  9,999; it is active before it and unstaked from it on, so its status only moves one way.
\<close>

theorem unstake_schedule:
  assumes "fair_source E"
  shows "\<exists>u status. UnstakeHeightFor E addr 0 = Some u \<and> (unat u = 1000000000 \<or> unat u \<in> {100..<10000}) \<and>
    (\<forall>h. ValidatorStatusAt E addr 0 h = Some (status h) \<and> (status h = ValidatorUnstaked) = (u \<le> h)) \<and> mono status"
proof -
  obtain u where u: "UnstakeHeightFor E addr 0 = Some u" using UnstakeHeightFor_returns [OF assms] by blast
  let ?status = "\<lambda>h. if h < u then ValidatorActive else ValidatorUnstaked"
  have "ValidatorStatusAt E addr 0 h = Some (?status h)" for h using u by (simp add: ValidatorStatusAt_def)
  moreover from this have "mono ?status" by (intro monoI) (blast intro: ValidatorStatusAt_mono)
  ultimately show ?thesis
    using u UnstakeHeightFor_genesis_range [OF u] by (intro exI [of _ u] exI [of _ ?status]) auto
qed

theorem unstake_schedule_witness:
  "ValidatorStatusAt (sample no_json) [1] 0 999999999 = Some ValidatorActive \<and>
   ValidatorStatusAt (sample no_json) [1] 0 1000000000 = Some ValidatorUnstaked"
proof -
  obtain status where "\<forall>h. ValidatorStatusAt (sample no_json) [1] 0 h = Some (status h) \<and>
      (status h = ValidatorUnstaked) = (1000000000 \<le> h)"
    using unstake_schedule [OF sample_fair, of no_json "[1]"] sample_stays by auto
  then have "ValidatorStatusAt (sample no_json) [1] 0 999999999 = Some (status 999999999)" "status 999999999 \<noteq> ValidatorUnstaked"
    "ValidatorStatusAt (sample no_json) [1] 0 1000000000 = Some (status 1000000000)" "status 1000000000 = ValidatorUnstaked"
    by simp_all
  then show ?thesis by (cases "status 999999999") simp_all
qed

text \<open>
  The residual is an address of the list and holds the largest base value.
\<close>

theorem residual_is_largest:
  assumes "fair_source E" "math_ok E" "addrs \<noteq> []"
  shows "\<exists>r. residualIndex E addrs = Some r \<and> r < length addrs \<and>
    (\<forall>j < length addrs. \<exists>bj br. baseValue E (addrs ! j) = Some bj \<and> baseValue E (addrs ! r) = Some br \<and> fle bj br)"
proof -
  obtain r where r: "residualIndex E addrs = Some r" "r < length addrs"
    by (rule snapshot_parts [OF assms(2,1,3)])
  with residualIndex_largest [OF assms(2,1) r(1)] show ?thesis by blast
qed

theorem residual_is_largest_witness:
  "\<exists>r. residualIndex (sample no_json) [[1], [2]] = Some r \<and> r < 2"
  using residual_is_largest [OF sample_fair sample_math, of "[[1], [2]]" no_json] by auto

text \<open>
  C34. The balance of an account that is inactive at two heights is the same at both, whatever
  the rest of the ledger does, as long as the account is not the residual holder, which takes
  what the others leave of the supply, and neither height falls back to scaling.
\<close>

theorem inactive_balance_kept:
  assumes "SnapshotBalancesAt E addrs chainID h = Some bs" "snapshot_falls_back E addrs chainID h = Some False"
    "SnapshotBalancesAt E addrs chainID h' = Some bs'" "snapshot_falls_back E addrs chainID h' = Some False"
    "residualIndex E addrs = Some residual" "i < length addrs" "i \<noteq> residual"
    "addrActiveAtHeight E (addrs ! i) h = Some False" "addrActiveAtHeight E (addrs ! i) h' = Some False"
  shows "bs ! i = bs' ! i"
  by (rule inactive_balance_stable [OF assms])

text \<open>The witness: nine balances stay as they are while the residual's, and so the ledger, moves.\<close>

theorem inactive_balance_kept_witness:
  "\<exists>bs bs'. SnapshotBalancesAt (sample no_json) (map (\<lambda>n. [n]) [0, 1, 2, 3, 4, 5, 6, 7, 8, 9]) 2 0 = Some bs \<and>
    SnapshotBalancesAt (sample no_json) (map (\<lambda>n. [n]) [0, 1, 2, 3, 4, 5, 6, 7, 8, 9]) 2 2 = Some bs' \<and>
    (\<forall>i \<in> {1..<10}. bs ! i = bs' ! i) \<and> bs ! 0 \<noteq> bs' ! 0"
proof -
  let ?a = "map (\<lambda>n. [n :: 8 word]) [0, 1, 2, 3, 4, 5, 6, 7, 8, 9]" and ?E = "sample no_json"
  have a: "length ?a = 10" "?a \<noteq> []" by simp_all
  have f: "snapshot_falls_back ?E ?a 2 0 = Some False" "snapshot_falls_back ?E ?a 2 2 = Some False"
    using sample_no_fallback [OF a(1)] by blast+
  have some: "\<exists>bs. SnapshotBalancesAt ?E ?a 2 h = Some bs \<and> length bs = 10 \<and>
      sum_list (map unat bs) = unat (TotalSupplyAt ?E 2 h)" if "h = 0 \<or> h = 2" for h
  proof -
    have "unat h \<le> 2 ^ 40" using that by auto
    from snapshot_conservation [OF sample_math [of no_json] sample_fair a(2) this, of 2] show ?thesis
      using a(1) f that by auto
  qed
  obtain bs bs' where bs: "SnapshotBalancesAt ?E ?a 2 0 = Some bs" "SnapshotBalancesAt ?E ?a 2 2 = Some bs'"
    and l: "length bs = 10" "length bs' = 10"
    and t: "sum_list (map unat bs) = 70000000" "sum_list (map unat bs') = 70000070"
    using some [of 0] some [of 2] by (auto simp: sample_supply)
  have kept: "bs ! i = bs' ! i" if "i \<in> {1..<10}" for i
    by (rule inactive_balance_kept [OF bs(1) f(1) bs(2) f(2) sample_residual [OF a(1)]])
      (use that in \<open>simp_all add: sample_inactive\<close>)
  have "bs ! 0 \<noteq> bs' ! 0"
  proof
    assume z: "bs ! 0 = bs' ! 0"
    have "bs ! i = bs' ! i" if "i < 10" for i using z kept [of i] that by (cases "i = 0") simp_all
    then have "bs = bs'" using l by (intro nth_equalityI) simp_all
    with t show False by simp
  qed
  with bs kept show ?thesis by blast
qed

section \<open>The fallback\<close>

text \<open>A source whose first draw is zero: every address is active and priced twice its base value.\<close>

definition active_source :: "u64 \<Rightarrow> nat \<Rightarrow> u64" where
  "active_source seed k = (if k mod 16 = 0 then 0 else sample_source seed k)"

definition active_platform :: rpc_env where
  "active_platform = sourced active_source"

lemma active_fields [simp]:
  "pl_source active_platform = active_source" "pl_exp active_platform = step 0 (1 / 2) 1 2"
  "pl_log active_platform = step 1 (- 1) 0 1" "pl_sqrt active_platform = sample_sqrt" "pl_cos active_platform = (\<lambda>_. Fin 1)"
  by (simp_all add: active_platform_def)

lemma active_math: "math_ok active_platform"
  by (simp add: active_platform_def sourced_math)

lemma active_draw: "draw63 active_platform s k = (if k mod 16 = 0 then 0 else if k mod 16 < 8 then 3 * 2 ^ 61 else 2 ^ 61)"
  by (simp add: draw63_def raw63_def active_source_def sample_source_def)

lemma active_fair: "fair_source active_platform"
  unfolding active_platform_def by (rule sourced_fair) (auto simp: active_source_def sample_source_def)

lemma active_float64:
  "float64 active_platform r =
     Some (Fin (if rd_pos r mod 16 = 0 then 0 else if rd_pos r mod 16 < 8 then 3 / 4 else 1 / 4), advance r)"
proof -
  have "unit_of 0 = Fin 0" by (simp add: unit_of_def f64_of_int_def float_eval)
  then show ?thesis
    by (subst float64.simps) (simp add: raw63_draw63 active_draw unit_of_quarters [simplified] feq_def)
qed

lemma active_normal: "rd_pos r = 0 \<Longrightarrow> \<exists>r'. StandardNormal active_platform r = Some (Fin 1, r')"
  by (simp add: StandardNormal_def active_float64 flt_def float_eval step_def sample_sqrt_def pi_times_2_def)

lemma active_baseValue: "baseValue active_platform addr = Some (Fin 2)"
proof -
  obtain r' where "StandardNormal active_platform (RngForAddrHeight addr 0) = Some (Fin 1, r')"
    using active_normal [of "RngForAddrHeight addr 0"] by auto
  moreover have "fitLogNormal active_platform (Fin 20000000) (Fin 87900000) (Fin 398000000) = (Fin 1, Fin 0)"
    by (simp add: fitLogNormal_def step_def float_eval z75_def z25_def)
  ultimately show ?thesis
    by (simp add: baseValue_def balanceFit_def float_eval sampleLogNormal_def step_def)
qed

lemma active_rawValue: "rawValue active_platform addr h = Some (Fin 4)"
proof -
  obtain r' where "StandardNormal active_platform (RngForAddrHeight addr h) = Some (Fin 1, r')"
    using active_normal [of "RngForAddrHeight addr h"] by auto
  then show ?thesis
    by (simp add: rawValue_def addrActiveAtHeight_def active_float64 active_baseValue flt_def float_eval step_def)
qed

lemma active_supply: "TotalSupplyAt active_platform 2 0 = 70000000"
  by (simp add: TotalSupplyAt_def f64_of_u64_def f64_of_int_def u64_of_f64_def float_eval)

lemma active_prices:
  "residualIndex active_platform [[1], [2], [3], [4]] = Some 0"
  "exchangeRate active_platform [[1], [2], [3], [4]] 2 = Some (Fin 8750000)"
  "raws_of active_platform [[1], [2], [3], [4]] 0 0 (Fin 8750000) = Some [Fin 0, Fin 35000000, Fin 35000000, Fin 35000000]"
  "1 < length [[1 :: 8 word], [2], [3], [4]]"
proof -
  have "f64_of_u64 70000000 = Fin 70000000" by (simp add: f64_of_u64_def f64_of_int_def float_eval)
  then show "exchangeRate active_platform [[1], [2], [3], [4]] 2 = Some (Fin 8750000)"
    by (simp add: exchangeRate_def active_baseValue active_supply feq_def Let_def float_eval)
qed (simp_all add: residualIndex_def active_baseValue flt_def raws_of_def active_rawValue float_eval)

lemma active_falls_back: "snapshot_falls_back active_platform [[1], [2], [3], [4]] 2 0 = Some True"
proof -
  have "f64_of_u64 70000000 = Fin 70000000" by (simp add: f64_of_u64_def f64_of_int_def float_eval)
  then show ?thesis
    by (simp add: snapshot_falls_back_def active_prices [simplified] active_supply others_def flt_def float_eval)
qed

text \<open>
  C35. At a height that falls back, the residual is left with nothing and the balances still
  add up to the supply up to rounding: two units per address and one, in either direction.
  The scale and the running sum are rounded, every balance is truncated, and nothing takes
  up the difference.
\<close>

theorem fallback_near_supply:
  assumes "math_ok E" "fair_source E" "snapshot_falls_back E addrs chainID height = Some True"
    "unat height \<le> 2 ^ 40" "length addrs \<le> 2 ^ 20"
  shows "\<exists>bs residual. SnapshotBalancesAt E addrs chainID height = Some bs \<and> residualIndex E addrs = Some residual \<and>
    length bs = length addrs \<and> residual < length addrs \<and> bs ! residual = 0 \<and>
    \<bar>int (sum_list (map unat bs)) - int (unat (TotalSupplyAt E chainID height))\<bar> \<le> 2 * int (length addrs) + 1"
  by (rule snapshot_fallback_near [OF assms])

theorem fallback_near_supply_witness:
  "\<exists>bs. SnapshotBalancesAt active_platform [[1], [2], [3], [4]] 2 0 = Some bs \<and>
    \<bar>int (sum_list (map unat bs)) - 70000000\<bar> \<le> 9"
  using fallback_near_supply [OF active_math active_fair active_falls_back] by (auto simp: active_supply)

text \<open>
  The difference is real: prices of 7 and 8 against a supply of 10 become 4 and 5.
\<close>

theorem fallback_loses_units:
  "fallback_balances oor 2 (f64_of_u64 10) (foldl fadd (Fin 0) (others 2 [Fin 7, Fin 8, Fin 0])) [Fin 7, Fin 8, Fin 0] = [4, 5, 0] \<and>
   sum_list [4, 5, 0 :: u64] < 10"
proof -
  have "f64_of_u64 10 = Fin 10" by (simp add: f64_of_u64_def f64_of_int_def float_eval)
  moreover have "foldl fadd (Fin 0) (others 2 [Fin 7, Fin 8, Fin 0]) = Fin 15" by (simp add: others_def float_eval)
  ultimately show ?thesis using fallback_example by simp
qed

text \<open>
  The same inside a snapshot: with four active addresses at genesis the balances of chain 2
  add up to one unit less than its supply.
\<close>

theorem fallback_short_of_supply:
  "SnapshotBalancesAt active_platform [[1], [2], [3], [4]] 2 0 = Some [0, 23333333, 23333333, 23333333] \<and>
   TotalSupplyAt active_platform 2 0 = 70000000"
proof -
  have t: "f64_of_u64 70000000 = Fin 70000000" by (simp add: f64_of_u64_def f64_of_int_def float_eval)
  note p = active_prices
  have s: "foldl fadd (Fin 0) (others 0 [Fin 0, Fin 35000000, Fin 35000000, Fin 35000000]) = Fin 105000000"
    by (simp add: others_def float_eval)
  have f: "\<lfloor>v\<rfloor> = 23333333" if "23333333 \<le> v" "v < 23333334" for v :: rat using that by (simp add: floor_eq_iff)
  have "fallback_balances oor 0 (Fin 70000000) (Fin 105000000) [Fin 0, Fin 35000000, Fin 35000000, Fin 35000000] =
      [0, 23333333, 23333333, 23333333]" for oor
    by (simp add: fallback_balances_def float_eval u64_of_f64_def f)
  then show ?thesis
    using SnapshotBalancesAt_many(1) [OF p] active_supply t s by (simp add: flt_def)
qed

text \<open>
  The noise of an active address restarts the generator of its activity test: the uniform
  draw under the square root is the one that was just found to be below 0.02.
\<close>

theorem noise_reuses_draw:
  assumes "addrActiveAtHeight E addr height = Some True" "rawValue E addr height = Some v"
  shows "\<exists>u b c. flt u (fconst (2 / 100)) \<and> baseValue E addr = Some b \<and>
    v = fmul b (pl_exp E (fmul (fconst (15 / 100))
      (fmul (pl_sqrt E (fmul (Fin (- 2)) (pl_log E (if flt u (fconst (1 / 10 ^ 12)) then fconst (1 / 10 ^ 12) else u)))) c)))"
proof -
  obtain u r where u: "float64 E (RngForAddrHeight addr height) = Some (u, r)" "flt u (fconst (2 / 100))"
    using assms(1) by (auto simp: addrActiveAtHeight_def)
  then show ?thesis using assms by (fastforce simp: rawValue_def StandardNormal_def bind_eq_Some_conv Let_def)
qed

text \<open>
  C36. Transaction hashes are not unique: the operands of the hash are joined without a
  separator, so transaction 11 of block 1 and transaction 1 of block 11 have the same hash.
  Within one block the hashed texts differ.
\<close>

theorem tx_hashes_collide:
  assumes "buildTx E mc 1 p 11 = Ret t" "buildTx E mc 11 p' 1 = Ret t'"
  shows "tr_TxHash t = tr_TxHash t' \<and> tr_Height t \<noteq> tr_Height t' \<and>
    (\<forall>i j. hash_input [VStr ''tx'', VUint c, VUint h, VInt (int i)] = hash_input [VStr ''tx'', VUint c, VUint h, VInt (int j)]
       \<longleftrightarrow> i = j)"
proof -
  have "hash_input [VStr ''tx'', VUint (mc_chainID mc), VUint 1, VInt (int 11)] =
      hash_input [VStr ''tx'', VUint (mc_chainID mc), VUint 11, VInt (int 1)]"
    by (simp add: hash_input_def dec_int_def dec_nat_large dec_nat_small)
  then have "tr_TxHash t = tr_TxHash t'"
    using buildTx_Ret(9) [OF assms(1)] buildTx_Ret(9) [OF assms(2)] by (simp only: HashBytes_def)
  then show ?thesis
    using buildTx_Ret(1) [OF assms(1)] buildTx_Ret(1) [OF assms(2)] by (simp add: hash_input_def dec_int_def)
qed

theorem tx_hashes_collide_witness:
  "\<exists>mc t t'. newMockChain (sample no_json) 3 2 [] = Ret mc \<and> buildTx (sample no_json) mc 1 ProfileQuiet 11 = Ret t \<and>
    buildTx (sample no_json) mc 11 ProfileQuiet 1 = Ret t' \<and> tr_TxHash t = tr_TxHash t'"
proof -
  obtain mc where c: "newMockChain (sample no_json) 3 2 [] = Ret mc" "length (mc_validators mc) = 10"
    "length (mc_accounts mc) = 10" by (rule sample_3 [of no_json])
  then have ready: "chain_ready mc" by (simp add: chain_ready_def)
  obtain t t' where t: "buildTx (sample no_json) mc 1 ProfileQuiet 11 = Ret t"
    "buildTx (sample no_json) mc 11 ProfileQuiet 1 = Ret t'"
    using buildTx_returns [OF ready sample_env_ok sample_fair] by blast
  show ?thesis using tx_hashes_collide [OF t, of 0 0] c(1) t by blast
qed

end
