(* ===== verification/MockProperties.thy ===== *)
theory MockProperties
  imports Sample
begin

text \<open>
  The properties of the mutable ledger: what a snapshot shows, and what the dex operations
  do to the pools.
\<close>

section \<open>A concrete ledger\<close>

definition two_accounts :: "account list" where
  "two_accounts = [\<lparr>ac_Address = [7], ac_Amount = 30\<rparr>, \<lparr>ac_Address = [3], ac_Amount = 12\<rparr>]"

definition liquidity_pool :: pool where
  "liquidity_pool =
     \<lparr>po_Id = 131073, po_Amount = 1000, po_Points = [\<lparr>pt_Address = [7], pt_Points = 60\<rparr>, \<lparr>pt_Address = [3], pt_Points = 40\<rparr>],
      po_TotalPoolPoints = 100\<rparr>"

definition small_ledger :: mockState where
  "small_ledger =
     newMockState 1 two_accounts []
       [\<lparr>po_Id = 65537, po_Amount = 500, po_Points = [], po_TotalPoolPoints = 0\<rparr>, liquidity_pool]
       (buildParams 1) [] [] \<lparr>cds_List = []\<rparr>"

lemma small_accounts: "distinct (map ac_Address two_accounts)"
  by (simp add: two_accounts_def)

lemma small_pools:
  "st_pools small_ledger =
     [(65537, \<lparr>po_Id = 65537, po_Amount = 500, po_Points = [], po_TotalPoolPoints = 0\<rparr>), (131073, liquidity_pool)]"
  "st_chainID small_ledger = 1"
  by (simp_all add: small_ledger_def newMockState_def gm_of_def gm_put_def liquidity_pool_def)

lemma small_ledger_ok: "ledger_ok small_ledger"
  by (simp add: small_ledger_def newMockState_ok)

lemma small_points_ok: "points_ok small_ledger"
  by (auto simp: points_ok_def small_pools gm_ok_def gm_get_def liquidity_pool_def)

section \<open>Snapshots\<close>

text \<open>
  C37. A snapshot of the mutable ledger does not depend on the order in which Go iterates
  over its maps: two well-formed ledgers with the same entries in any order have the same
  snapshot, with sorted accounts, validators, pools and order books.
\<close>

theorem snapshot_deterministic:
  assumes "ledger_ok s" "same_maps s t"
  shows "snapshot E s = snapshot E t"
  by (rule snapshot_order_independent [OF assms])

theorem snapshot_deterministic_witness:
  "snapshot (sample no_json) small_ledger =
   snapshot (sample no_json) (small_ledger\<lparr>st_accounts := rev (st_accounts small_ledger), st_pools := rev (st_pools small_ledger)\<rparr>)"
  by (rule snapshot_deterministic [OF small_ledger_ok]) (simp add: same_maps_def)

section \<open>Dex batches\<close>

text \<open>
  C38. In every pool the total is the sum of the points of its holders; applying a batch's
  orders or deposits keeps it so.
\<close>

theorem batches_preserve_points:
  assumes "points_ok s"
  shows "points_ok (applyBatchOrders E orders s) \<and> points_ok (applyBatchDeposits E deposits s)"
  using batches_keep_points [OF assms] by blast

theorem batches_preserve_points_witness:
  "points_ok (applyBatchDeposits (sample no_json) [\<lparr>de_Amount = 100, de_Address = [9]\<rparr>] small_ledger)"
  using batches_preserve_points [OF small_points_ok] by blast

text \<open>
  C39. Deposits and units: a batch of deposits credits the liquidity pool with its whole
  amount. When the holding pool covers the batch, exactly that amount leaves it; when it
  does not, the two pools together hold more than before, since a deposit that is not
  covered is credited and not debited.
\<close>

theorem deposits_move_units:
  assumes "gm_ok (st_pools s)" "gm_get (st_pools s) (st_chainID s + en_liquidity_addend E) = Some liq"
    "gm_get (st_pools s) (st_chainID s + en_holding_addend E) = Some hold"
    "en_liquidity_addend E \<noteq> en_holding_addend E" "unat (po_Amount liq) + deposited ds < 2 ^ 64"
  shows "unat (pool_amount (applyBatchDeposits E ds s) (st_chainID s + en_liquidity_addend E)) =
      unat (po_Amount liq) + deposited ds \<and>
    (if deposited ds \<le> unat (po_Amount hold)
     then unat (pool_amount (applyBatchDeposits E ds s) (st_chainID s + en_holding_addend E)) + deposited ds = unat (po_Amount hold)
     else unat (po_Amount hold) < unat (pool_amount (applyBatchDeposits E ds s) (st_chainID s + en_holding_addend E)) + deposited ds)"
  unfolding applyBatchDeposits_def by (rule deposits_accounting [OF assms])

theorem deposits_move_units_witness:
  "unat (pool_amount (applyBatchDeposits (sample no_json) [\<lparr>de_Amount = 300, de_Address = [9]\<rparr>] small_ledger) 65537) = 200 \<and>
   500 < unat (pool_amount (applyBatchDeposits (sample no_json)
     [\<lparr>de_Amount = 300, de_Address = [9]\<rparr>, \<lparr>de_Amount = 300, de_Address = [9]\<rparr>] small_ledger) 65537) + 600"
proof -
  let ?E = "sample no_json" and ?d = "\<lparr>de_Amount = 300, de_Address = [9]\<rparr>"
  have g: "gm_ok (st_pools small_ledger)" "gm_get (st_pools small_ledger) (st_chainID small_ledger + en_liquidity_addend ?E) = Some liquidity_pool"
    "gm_get (st_pools small_ledger) (st_chainID small_ledger + en_holding_addend ?E) =
      Some \<lparr>po_Id = 65537, po_Amount = 500, po_Points = [], po_TotalPoolPoints = 0\<rparr>"
    by (simp_all add: small_pools gm_ok_def gm_get_def)
  show ?thesis
    using deposits_move_units [OF g, of "[?d]"] deposits_move_units [OF g, of "[?d, ?d]"]
    by (simp add: deposited_def liquidity_pool_def small_pools)
qed

text \<open>
  C40. A batch of withdrawals pays out at most what the liquidity pool holds, takes exactly
  what it pays from the pool, and answers every withdrawal, when the holders' points do not
  exceed the pool's total.
\<close>

theorem withdrawals_bounded:
  assumes "muldiv_ok E" "\<And>p a b. po_Amount (en_remove_points E p a b) = po_Amount p"
    "gm_ok (st_pools s)" "gm_get (st_pools s) (st_chainID s + en_liquidity_addend E) = Some pool"
    "sum_list (map (\<lambda>p. unat (pt_Points p)) (po_Points pool)) \<le> unat (po_TotalPoolPoints pool)"
    "applyBatchWithdrawals E ws s = (rs, s')"
  shows "paid rs \<le> unat (po_Amount pool) \<and> length rs = length ws \<and>
    unat (pool_amount s' (st_chainID s + en_liquidity_addend E)) = unat (po_Amount pool) - paid rs"
  using withdrawals_within_pool [OF assms] by blast

theorem withdrawals_bounded_witness:
  "\<exists>rs s'. applyBatchWithdrawals (sample no_json) [\<lparr>wi_Percent = 50, wi_Address = [7]\<rparr>] small_ledger = (rs, s') \<and>
    paid rs \<le> 1000 \<and> unat (pool_amount s' 131073) = 1000 - paid rs"
proof -
  let ?E = "sample no_json"
  obtain rs s' where r: "applyBatchWithdrawals ?E [\<lparr>wi_Percent = 50, wi_Address = [7]\<rparr>] small_ledger = (rs, s')"
    by fastforce
  have "gm_ok (st_pools small_ledger)" by (simp add: small_pools gm_ok_def)
  moreover have "gm_get (st_pools small_ledger) (st_chainID small_ledger + en_liquidity_addend ?E) = Some liquidity_pool"
    by (simp add: small_pools gm_get_def)
  ultimately have "paid rs \<le> 1000 \<and> unat (pool_amount s' 131073) = 1000 - paid rs"
    using withdrawals_bounded [OF sample_muldiv sample_remove_points_amount _ _ _ r, of liquidity_pool]
    by (simp add: liquidity_pool_def small_pools)
  with r show ?thesis by blast
qed

section \<open>A new ledger\<close>

text \<open>
  The snapshot of a new ledger gives back the accounts it was made from, sorted by the
  hexadecimal address: keys go through \<open>hex.EncodeToString\<close> and back.
\<close>

theorem new_ledger_accounts:
  assumes "distinct (map ac_Address accounts)"
  shows "gs_Accounts (snapshot E (newMockState c accounts vs ps pa bs dp cs)) =
    sort_key (\<lambda>a. hex_encode (ac_Address a)) accounts"
  by (rule snapshot_new_accounts [OF assms])

theorem new_ledger_accounts_witness:
  "set (gs_Accounts (snapshot (sample no_json) small_ledger)) = set two_accounts"
  by (simp add: small_ledger_def new_ledger_accounts [OF small_accounts])

end
