(* ===== verification/Spec2Isabelle.thy ===== *)
theory Spec2Isabelle
  imports ChainProperties RpcProperties ServerProperties GenProperties MockProperties
begin

text \<open>
  A verified model of canopy-rpc-mock: a program that builds deterministic mock chains in
  memory and serves them over the query routes of the Canopy RPC.

  \<^bold>\<open>The program.\<close> \<open>main.go\<close> starts one server per chain (\<open>mockserver/server.go\<close>). A server
  builds its whole chain first (\<open>newMockChain\<close> in \<open>internal/chain/mock_data.go\<close>): validators,
  accounts, pools, order books and parameters from a seeded generator, then for every height
  the transactions, events, block, dex batches, state snapshot and certificate. Everything
  about a height is a closed form of the chain identifier and the height, computed by
  \<open>internal/gen\<close>: hash-derived seeds and samplers (\<open>distributions.go\<close>), traffic profiles
  (\<open>profile.go\<close>, \<open>ratetable.go\<close>), counts and types (\<open>txgen.go\<close>, \<open>eventgen.go\<close>), validator
  lifecycles (\<open>lifecycle.go\<close>) and balances that add up to a supply curve (\<open>ledger.go\<close>).
  \<open>internal/chain/indexer_blob.go\<close> packs two neighbouring heights for an indexer, and
  \<open>internal/rpc/server_routes.go\<close> answers requests from the finished chain. The mutable ledger
  of \<open>internal/chain/mock_state.go\<close> is still part of the package but has no caller.

  \<^bold>\<open>Theories and what they model.\<close>
  \<^item> Prelude: machine integers, outcomes of a call (\<open>Ret\<close>, \<open>Panic\<close>, \<open>Diverge\<close>), checked
    indexing and slicing, Go maps as association lists behind the locale \<open>go_map\<close>.
  \<^item> GoFloat, GoRand, GoBytes, GoJson: the parts of Go's language and standard library that
    the program uses. \<open>float64\<close> is exact rational arithmetic with one rounding per operation
    (locale \<open>float_rounding\<close>); \<open>math/rand\<close> is modelled over a raw source; SHA-256, hexadecimal
    and decimal text are computed; JSON values are decoded field by field.
  \<^item> Distributions, Gamma, Profiles, TxEvents, Ledger: \<open>internal/gen\<close>, one definition per
    function, loops that sample until they accept as \<open>partial_function (option)\<close>.
    Fallback estimates the rounding of the ledger's fallback branch.
  \<^item> FsmTypes, ParamTypes, LibTypes, Messages: the record types of the Canopy packages with
    the fields the program sets or reads, and the environment of outside operations.
  \<^item> ChainData, Chain: \<open>mock_data.go\<close>. The record \<open>mock_chain\<close> has the fields of the struct;
    \<open>prebuild_height\<close> is the body of the loop, \<open>newMockChain\<close> the constructor.
  \<^item> ChainLoop, ChainProps, ChainTotal: the loop as the step relation \<open>builds\<close>; the locale
    \<open>height_store\<close>, interpreted on the seven height-indexed maps; the facts of one height of
    a finished chain; that the construction returns.
  \<^item> IndexerBlob: \<open>indexer_blob.go\<close>. MockState, MockStateProps: \<open>mock_state.go\<close>.
  \<^item> Rpc, RpcProps: \<open>server_routes.go\<close>, one definition per route; the locale \<open>paged_route\<close>,
    interpreted on the five paged routes. \<open>serve\<close> is the multiplexer of \<open>net/http\<close> over the
    routes: a path that is not clean is redirected, a clean one is matched by segments.
  \<^item> Wire: the responses on the wire. The response writer of \<open>net/http\<close> (its header is
    frozen once the status is sent), \<open>writeJSON\<close>, \<open>http.Error\<close>, the raw write of the indexer
    route, redirects, and \<open>exchange\<close>: what a client gets, a dropped connection when the handler panics.
  \<^item> OrderHeap: \<open>normalizeOrderBooks\<close> on an explicit heap of shared objects.
  \<^item> Process: what the program does to its process. The record \<open>process\<close> holds the printed
    and logged lines, \<open>printOnce\<close> and the bound sockets; \<open>print_keys\<close> is the loop that prints the
    validators' keys, \<open>NewMockChain\<close> the constructor of a chain together with its output.
  \<^item> Server: \<open>server.go\<close> and \<open>main.go\<close> over the process: \<open>New\<close> with the loopback listener that
    \<open>httptest\<close> opens first and the fixed one, \<open>Close\<close>, and the loop of \<open>main\<close>.
  \<^item> Sample: an environment that meets all hypotheses, and chains built in it, for the
    witnesses.

  \<^bold>\<open>What is proved.\<close>
  \<^item> ChainProperties: which heights exist (C1), linked blocks (C2), the construction returns
    (C3), balances add up to the supply (C4), longer chains extend shorter ones (C5),
    certificates agree with blocks (C6), the contents of transactions and events (C7 to C9),
    of the states (C10, C11), of the signers (C12) and of the dex prices (C13).
  \<^item> RpcProperties: indexer blobs, how they chain and their errors (C14 to C16), the round
    trip of a height in a query (C17), pages (C18), which requests panic and that every one
    within bounds is answered, with a redirect for an unclean path (C19, C20), order books (C21 to C23). The status codes of the single-height
    routes and the page of accounts are theorems beside them.
  \<^item> ServerProperties: what \<open>main\<close> serves, when it gets to serve, and what stops it (C24 to
    C28), what it prints and logs (C29), and the sockets of a server (C30).
  \<^item> GenProperties: the samplers return (C31, C32), validators leave on schedule (C33),
    inactive balances stay (C34), the fallback stays near the supply (C35), transaction hashes
    collide (C36); beside them the ranges of the draws and of the busy mean, the residual
    holder, a snapshot that is one unit short and the noise that reuses a draw.
  \<^item> MockProperties: snapshots of the mutable ledger are deterministic (C37); points, units and
    withdrawals of the pools (C38 to C40); beside them the snapshot of a new ledger.

  \<^bold>\<open>Hypotheses about code outside the repository.\<close>
  \<^item> \<open>fair_source\<close>: the raw source of \<open>math/rand\<close> keeps giving stretches of six draws in the
    second quarter of its range. This is what the termination of the rejection loops needs;
    nothing else is asked of the draws.
  \<^item> \<open>math_ok\<close>: coarse bounds on \<open>math.Exp\<close>, \<open>Log\<close>, \<open>Sqrt\<close> and \<open>Cos\<close>. \<open>env_ok\<close>: Ed25519 public
    keys of 32 bytes are accepted by the key package. \<open>marshals\<close>: protobuf marshalling of the
    chain's messages succeeds. \<open>keystore_ok\<close>: the key package takes Ed25519 keys with a
    nickname. \<open>muldiv_ok\<close>: \<open>SafeMulDiv\<close> is the truncated exact quotient.
  \<^item> The status of the multiplexer's redirects (301 or 307, by the version of Go), the text of their
    location and their page, the grammar of JSON, the page types, the delta of two blobs and the marshalled bytes are
    arbitrary functions of the environment.

  \<^bold>\<open>Bounds.\<close> There is no fuel: a loop that may not stop is a partial function, and the
  theorems say that it stops. Chains have at most \<open>2 ^ 40\<close> blocks where the supply matters:
  up to that height the supply curve stays below \<open>2 ^ 52\<close>, so every conversion between
  \<open>float64\<close> and \<open>uint64\<close> is exact (the estimate of the fallback also asks for at most \<open>2 ^ 20\<close>
  addresses, whose running sum then stays finite); otherwise fewer than \<open>2 ^ 63\<close>, the range of \<open>int\<close>; asked for \<open>2 ^ 63 - 1\<close> blocks the
  loop over the heights never ends, as its counter wraps around before it can exceed the
  bound. Floating
  point has a single zero (the program never tells the two apart) and no fused operations,
  as on amd64.

  \<^bold>\<open>Not modelled.\<close> The transport under a response (framing, chunks, the connection itself)
  and the goroutines that accept connections: a built chain is never written to, so requests
  are answered one by one from the same value. The bytes of \<open>encoding/json\<close> and of the
  keystore's listing are arbitrary functions of the payload; the parsing of the command line
  is package \<open>flag\<close>, whose result is the record \<open>flags\<close>. The request for \<open>*\<close>, which \<open>net/http\<close>
  turns away before the routes. Running out of memory, and with it the limits of \<open>make\<close> on
  slices of more than \<open>2 ^ 45\<close> validators or accounts (the one in \<open>main\<close> is modelled). Tests, container and documentation.
\<close>

end
